(* ===== verification/NktPrelude.thy ===== *)
theory NktPrelude
  imports Main "HOL-Library.AList" "HOL-Library.Char_ord" "HOL-Library.List_Lexorder" "HOL-Library.Product_Lexorder" "HOL-Library.Sublist"
begin

text \<open>
  Shared ground of the development: the type synonyms of the Go values the components
  exchange, the fact collections their proofs use, maps kept as association lists (the Go
  maps the code iterates over), and the generic invariant argument of the state machines.
\<close>

type_synonym bytes = string
type_synonym 'v strmap = "(string \<times> 'v) list"

named_theorems gostr \<open>evaluation and shape of the string operations\<close>
named_theorems fly_simps \<open>definitions of the gateway that unfold freely\<close>
named_theorems job_simps \<open>single steps of the job manager\<close>

section \<open>Maps as association lists\<close>

text \<open>A Go map that is ranged over is an association list with distinct keys.\<close>

definition lookup :: "('k \<times> 'v) list \<Rightarrow> 'k \<Rightarrow> 'v option" where
  "lookup m k = map_of m k"

definition put :: "'k \<Rightarrow> 'v \<Rightarrow> ('k \<times> 'v) list \<Rightarrow> ('k \<times> 'v) list" where
  "put k v m = AList.update k v m"

definition del :: "'k \<Rightarrow> ('k \<times> 'v) list \<Rightarrow> ('k \<times> 'v) list" where
  "del k m = AList.delete k m"

definition keep :: "('k \<Rightarrow> 'v \<Rightarrow> bool) \<Rightarrow> ('k \<times> 'v) list \<Rightarrow> ('k \<times> 'v) list" where
  "keep P m = filter (\<lambda>(k, v). P k v) m"

definition wf_map :: "('k \<times> 'v) list \<Rightarrow> bool" where
  "wf_map m \<longleftrightarrow> distinct (map fst m)"

lemma wf_map_Nil [simp]: "wf_map []"
  by (simp add: wf_map_def)

lemma lookup_Nil [simp]: "lookup [] k = None"
  by (simp add: lookup_def)

lemma lookup_put [simp]: "lookup (put k v m) k' = (if k' = k then Some v else lookup m k')"
  by (simp add: lookup_def put_def update_conv')

lemma lookup_del [simp]: "lookup (del k m) k' = (if k' = k then None else lookup m k')"
  by (simp add: lookup_def del_def delete_conv')

lemma wf_put [simp]: "wf_map m \<Longrightarrow> wf_map (put k v m)"
  by (simp add: wf_map_def put_def distinct_update)

lemma wf_del [simp]: "wf_map m \<Longrightarrow> wf_map (del k m)"
  by (simp add: wf_map_def del_def distinct_delete)

lemma wf_keep [simp]: "wf_map m \<Longrightarrow> wf_map (keep P m)"
  by (induction m) (auto simp: wf_map_def keep_def)

lemma lookup_keep:
  "wf_map m \<Longrightarrow> lookup (keep P m) k
     = (case lookup m k of None \<Rightarrow> None | Some v \<Rightarrow> if P k v then Some v else None)"
proof (induction m)
  case (Cons x m)
  obtain a b where x: "x = (a, b)" by (cases x)
  have absent: "lookup m a = None" if "wf_map (x # m)"
    using that by (auto simp: x wf_map_def lookup_def map_of_eq_None_iff)
  have absent': "lookup (keep P m) a = None" if "wf_map (x # m)"
    using that by (force simp: x wf_map_def lookup_def keep_def map_of_eq_None_iff)
  from Cons have IH: "lookup (keep P m) k
      = (case lookup m k of None \<Rightarrow> None | Some v \<Rightarrow> if P k v then Some v else None)"
    by (simp add: wf_map_def)
  show ?case
    using Cons.prems IH absent absent' by (auto simp: x lookup_def keep_def)
qed (simp add: keep_def)

lemma lookup_in_set: "lookup m k = Some v \<Longrightarrow> (k, v) \<in> set m"
  by (simp add: lookup_def map_of_SomeD)

lemma in_set_lookup: "wf_map m \<Longrightarrow> (k, v) \<in> set m \<Longrightarrow> lookup m k = Some v"
  by (simp add: wf_map_def lookup_def)

lemma set_put: "wf_map m \<Longrightarrow> (a, b) \<in> set (put k v m) \<longleftrightarrow> (a = k \<and> b = v) \<or> (a \<noteq> k \<and> (a, b) \<in> set m)"
  by (metis in_set_lookup lookup_in_set lookup_put option.inject wf_put)

lemma set_del: "(a, b) \<in> set (del k m) \<longleftrightarrow> a \<noteq> k \<and> (a, b) \<in> set m"
  by (auto simp: del_def AList.delete_eq)

lemma set_keep: "(a, b) \<in> set (keep P m) \<longleftrightarrow> (a, b) \<in> set m \<and> P a b"
  by (auto simp: keep_def)

section \<open>Keyed stores\<close>

text \<open>
  What a component may rely on when it keeps its state in a map: reading back what was
  written, and that other keys are not disturbed. The clients (the facts of a snapshot
  and the limiter of attempts) take their frame lemmas from here.
\<close>

locale keyed_store =
  fixes get :: "'m \<Rightarrow> 'k \<Rightarrow> 'v option"
    and set_key :: "'k \<Rightarrow> 'v \<Rightarrow> 'm \<Rightarrow> 'm"
    and remove :: "'k \<Rightarrow> 'm \<Rightarrow> 'm"
    and ok :: "'m \<Rightarrow> bool"
  assumes get_set: "get (set_key k v m) k' = (if k' = k then Some v else get m k')"
    and get_remove: "get (remove k m) k' = (if k' = k then None else get m k')"
    and ok_set: "ok m \<Longrightarrow> ok (set_key k v m)"
    and ok_remove: "ok m \<Longrightarrow> ok (remove k m)"
begin

lemma get_set_same: "get (set_key k v m) k = Some v"
  by (simp add: get_set)

lemma get_set_other: "k' \<noteq> k \<Longrightarrow> get (set_key k v m) k' = get m k'"
  by (simp add: get_set)

lemma get_remove_other: "k' \<noteq> k \<Longrightarrow> get (remove k m) k' = get m k'"
  by (simp add: get_remove)

lemma ok_fold: "ok m \<Longrightarrow> ok (fold (\<lambda>x. set_key (k x) (v x)) xs m)"
  by (induction xs arbitrary: m) (auto intro: ok_set)

lemma get_fold_other: "j \<notin> k ` set xs \<Longrightarrow> get (fold (\<lambda>x. set_key (k x) (v x)) xs m) j = get m j"
  by (induction xs arbitrary: m) (auto simp: get_set_other)

end

interpretation strstore: keyed_store lookup put del wf_map
  by unfold_locales auto

section \<open>Invariants of step systems\<close>

text \<open>
  Every state machine of the development (the job manager, its subscribers, the connections of the
  gateway) is a start predicate and a step relation; an invariant that holds at the
  start and is kept by a step holds in every reachable state.
\<close>

locale step_system =
  fixes start :: "'s \<Rightarrow> bool"
    and step :: "'s \<Rightarrow> 's \<Rightarrow> bool"
    and inv :: "'s \<Rightarrow> bool"
  assumes inv_start: "start s \<Longrightarrow> inv s"
    and inv_step: "inv s \<Longrightarrow> step s t \<Longrightarrow> inv t"
begin

lemma inv_steps: "step\<^sup>*\<^sup>* s t \<Longrightarrow> inv s \<Longrightarrow> inv t"
  by (induction rule: rtranclp_induct) (auto intro: inv_step)

lemma inv_reachable: "start s \<Longrightarrow> step\<^sup>*\<^sup>* s t \<Longrightarrow> inv t"
  by (rule inv_steps) (auto intro: inv_start)

end

section \<open>Lists\<close>

lemma distinct_filter_fst: "distinct (map fst m) \<Longrightarrow> distinct (map fst (filter P m))"
  by (induction m) auto

lemma sum_list_map_ge_member:
  fixes f :: "'a \<Rightarrow> nat"
  shows "x \<in> set xs \<Longrightarrow> f x \<le> sum_list (map f xs)"
  by (induction xs) auto

section \<open>Machine integers\<close>

text \<open>Go's \<open>int\<close> and \<open>int64\<close> are integers here; an operation that can leave the 64 bits is wrapped.\<close>

definition wrap64 :: "int \<Rightarrow> int" where
  "wrap64 i = (i + 9223372036854775808) mod 18446744073709551616 - 9223372036854775808"

lemma wrap64_id: "- 9223372036854775808 \<le> i \<Longrightarrow> i \<le> 9223372036854775807 \<Longrightarrow> wrap64 i = i"
  by (simp add: wrap64_def)

end
