(* ===== verification/GoStrings.thy ===== *)
theory GoStrings
  imports NktPrelude
begin

text \<open>
  The operations of Go's \<open>strings\<close> and \<open>strconv\<close> packages that the modelled code uses. A Go
  string is a sequence of bytes, and so is a HOL \<open>string\<close>: one \<open>char\<close> per byte, in UTF-8.
  White space is Go's: the six ASCII characters and the UTF-8 encodings of the other
  Unicode spaces.
\<close>

section \<open>Prefixes, suffixes, searching\<close>

definition has_prefix :: "string \<Rightarrow> string \<Rightarrow> bool" where
  "has_prefix s p \<longleftrightarrow> take (length p) s = p"

definition has_suffix :: "string \<Rightarrow> string \<Rightarrow> bool" where
  "has_suffix s p \<longleftrightarrow> length p \<le> length s \<and> drop (length s - length p) s = p"

definition trim_prefix :: "string \<Rightarrow> string \<Rightarrow> string" where
  "trim_prefix s p = (if has_prefix s p then drop (length p) s else s)"

definition trim_suffix :: "string \<Rightarrow> string \<Rightarrow> string" where
  "trim_suffix s p = (if has_suffix s p then take (length s - length p) s else s)"

text \<open>\<open>strings.Index\<close>: the first position of \<open>p\<close> in \<open>s\<close>.\<close>

fun str_index :: "string \<Rightarrow> string \<Rightarrow> nat option" where
  "str_index [] p = (if p = [] then Some 0 else None)"
| "str_index (c # s) p = (if has_prefix (c # s) p then Some 0 else map_option Suc (str_index s p))"

definition contains :: "string \<Rightarrow> string \<Rightarrow> bool" where
  "contains s p \<longleftrightarrow> str_index s p \<noteq> None"

text \<open>\<open>strings.LastIndexByte\<close>.\<close>

fun last_index :: "char \<Rightarrow> string \<Rightarrow> nat option" where
  "last_index c [] = None"
| "last_index c (x # s) =
     (case last_index c s of Some i \<Rightarrow> Some (Suc i) | None \<Rightarrow> if x = c then Some 0 else None)"

text \<open>\<open>strings.Cut\<close>: before, after, found.\<close>

definition cut :: "string \<Rightarrow> string \<Rightarrow> string \<times> string \<times> bool" where
  "cut s sep = (case str_index s sep of
      None \<Rightarrow> (s, [], False)
    | Some i \<Rightarrow> (take i s, drop (i + length sep) s, True))"

text \<open>\<open>strings.Split\<close> by one byte.\<close>

fun split_char :: "char \<Rightarrow> string \<Rightarrow> string list" where
  "split_char c [] = [[]]"
| "split_char c (x # xs) =
     (if x = c then [] # split_char c xs
      else (case split_char c xs of [] \<Rightarrow> [[x]] | y # ys \<Rightarrow> (x # y) # ys))"

definition join :: "string \<Rightarrow> string list \<Rightarrow> string" where
  "join sep ss = (case ss of [] \<Rightarrow> [] | s # rest \<Rightarrow> s @ concat (map (\<lambda>t. sep @ t) rest))"

text \<open>\<open>strings.ReplaceAll\<close> for a non-empty old string.\<close>

function replace_all :: "string \<Rightarrow> string \<Rightarrow> string \<Rightarrow> string" where
  "replace_all [] p r = []"
| "replace_all (c # s) p r =
     (if p \<noteq> [] \<and> has_prefix (c # s) p then r @ replace_all (drop (length p) (c # s)) p r
      else c # replace_all s p r)"
  by pat_completeness auto
termination
  by (relation "measure (\<lambda>(s, p, r). length s)") (auto simp: neq_Nil_conv)

section \<open>White space\<close>

definition ascii_space :: "char \<Rightarrow> bool" where
  "ascii_space c \<longleftrightarrow> (let n = of_char c :: nat in n = 32 \<or> (9 \<le> n \<and> n \<le> 13))"

definition spaces2 :: "string list" where
  "spaces2 = [[CHR 0xC2, CHR 0x85], [CHR 0xC2, CHR 0xA0]]"

definition spaces3 :: "string list" where
  "spaces3 =
     [CHR 0xE1, CHR 0x9A, CHR 0x80] # [CHR 0xE2, CHR 0x81, CHR 0x9F] # [CHR 0xE3, CHR 0x80, CHR 0x80]
     # map (\<lambda>c. [CHR 0xE2, CHR 0x80, c])
         [CHR 0x80, CHR 0x81, CHR 0x82, CHR 0x83, CHR 0x84, CHR 0x85, CHR 0x86, CHR 0x87, CHR 0x88,
          CHR 0x89, CHR 0x8A, CHR 0xA8, CHR 0xA9, CHR 0xAF]"

text \<open>Length of the white-space rune at the start of the string, 0 when there is none.\<close>

definition space_len :: "string \<Rightarrow> nat" where
  "space_len s =
     (if s \<noteq> [] \<and> ascii_space (hd s) then 1
      else if take 2 s \<in> set spaces2 then 2
      else if take 3 s \<in> set spaces3 then 3 else 0)"

text \<open>The same at the end: the argument is the reversed string.\<close>

definition space_len_rev :: "string \<Rightarrow> nat" where
  "space_len_rev r =
     (if space_len (rev (take 1 r)) = 1 then 1
      else if space_len (rev (take 2 r)) = 2 then 2
      else if space_len (rev (take 3 r)) = 3 then 3 else 0)"

function trim_left :: "string \<Rightarrow> string" where
  "trim_left s = (if s \<noteq> [] \<and> space_len s > 0 then trim_left (drop (space_len s) s) else s)"
  by pat_completeness auto
termination
  by (relation "measure length") auto

function trim_right_rev :: "string \<Rightarrow> string" where
  "trim_right_rev r =
     (if r \<noteq> [] \<and> space_len_rev r > 0 then trim_right_rev (drop (space_len_rev r) r) else r)"
  by pat_completeness auto
termination
  by (relation "measure length") auto

declare trim_left.simps [simp del] trim_right_rev.simps [simp del]

definition trim_space :: "string \<Rightarrow> string" where
  "trim_space s = rev (trim_right_rev (rev (trim_left s)))"

text \<open>\<open>strings.Fields\<close>: the words between white space.\<close>

function fields_from :: "string \<Rightarrow> string \<Rightarrow> string list" where
  "fields_from cur [] = (if cur = [] then [] else [rev cur])"
| "fields_from cur (c # s) =
     (if space_len (c # s) > 0
      then (if cur = [] then [] else [rev cur]) @ fields_from [] (drop (space_len (c # s)) (c # s))
      else fields_from (c # cur) s)"
  by pat_completeness auto
termination
  by (relation "measure (\<lambda>(cur, s). length s)") auto

definition fields :: "string \<Rightarrow> string list" where
  "fields s = fields_from [] s"

section \<open>Case\<close>

definition is_ascii :: "string \<Rightarrow> bool" where
  "is_ascii s \<longleftrightarrow> list_all (\<lambda>c. (of_char c :: nat) < 128) s"

definition lower_char :: "char \<Rightarrow> char" where
  "lower_char c = (let n = of_char c :: nat in if 65 \<le> n \<and> n \<le> 90 then char_of (n + 32) else c)"

text \<open>
  \<open>strings.ToLower\<close>. On ASCII it maps bytes; for a string with other bytes it consults the
  Unicode case tables, which are the parameter \<open>ulow\<close>.
\<close>

definition to_lower :: "(string \<Rightarrow> string) \<Rightarrow> string \<Rightarrow> string" where
  "to_lower ulow s = (if is_ascii s then map lower_char s else ulow s)"

text \<open>
  \<open>strings.EqualFold\<close> against a lower-case ASCII word: besides the ASCII letters, the long s
  (U+017F) folds to \<open>s\<close> and the Kelvin sign (U+212A) to \<open>k\<close>.
\<close>

fun equal_fold :: "string \<Rightarrow> string \<Rightarrow> bool" where
  "equal_fold s [] = (s = [])"
| "equal_fold s (t # ts) =
     (case s of [] \<Rightarrow> False
      | c # s' \<Rightarrow>
          if lower_char c = t then equal_fold s' ts
          else if t = CHR ''s'' \<and> take 2 s = [CHR 0xC5, CHR 0xBF] then equal_fold (drop 2 s) ts
          else if t = CHR ''k'' \<and> take 3 s = [CHR 0xE2, CHR 0x84, CHR 0xAA] then equal_fold (drop 3 s) ts
          else False)"

section \<open>Numbers\<close>

definition is_digit :: "char \<Rightarrow> bool" where
  "is_digit c \<longleftrightarrow> (let n = of_char c :: nat in 48 \<le> n \<and> n \<le> 57)"

definition digit_val :: "char \<Rightarrow> nat" where
  "digit_val c = of_char c - 48"

definition digit_char :: "nat \<Rightarrow> char" where
  "digit_char n = char_of (48 + n)"

fun digits_val :: "nat \<Rightarrow> string \<Rightarrow> nat" where
  "digits_val acc [] = acc"
| "digits_val acc (c # cs) = digits_val (acc * 10 + digit_val c) cs"

definition max_int :: int where
  "max_int = 9223372036854775807"

text \<open>
  \<open>strconv.Atoi\<close> (and \<open>ParseInt\<close> to base 10, 64 bits): the value and whether the error is
  nil. On a syntax error the value is 0, out of range it is the nearest bound.
\<close>

definition atoi :: "string \<Rightarrow> int \<times> bool" where
  "atoi s =
     (let neg = has_prefix s ''-'';
          ds = (if has_prefix s ''-'' \<or> has_prefix s ''+'' then drop 1 s else s)
      in if ds = [] \<or> \<not> list_all is_digit ds then (0, False)
         else let v = int (digits_val 0 ds)
              in if neg then (if v \<le> max_int + 1 then (- v, True) else (- max_int - 1, False))
                 else (if v \<le> max_int then (v, True) else (max_int, False)))"

fun nat_str :: "nat \<Rightarrow> string" where
  "nat_str n = (if n < 10 then [digit_char n] else nat_str (n div 10) @ [digit_char (n mod 10)])"

declare nat_str.simps [simp del]

definition itoa :: "int \<Rightarrow> string" where
  "itoa i = (if i < 0 then CHR ''-'' # nat_str (nat (- i)) else nat_str (nat i))"

section \<open>Facts about numbers\<close>

lemma digit_val_char [gostr]: "n < 10 \<Longrightarrow> digit_val (digit_char n) = n"
  by (simp add: digit_val_def digit_char_def of_char_of)

lemma is_digit_char [gostr]: "n < 10 \<Longrightarrow> is_digit (digit_char n)"
  by (simp add: is_digit_def digit_char_def of_char_of Let_def)

lemma digits_val_snoc [gostr]: "digits_val a (s @ [c]) = digits_val a s * 10 + digit_val c"
  by (induction s arbitrary: a) auto

lemma nat_str_nonempty [simp]: "nat_str n \<noteq> []"
  by (subst nat_str.simps) simp

lemma nat_str_digits: "list_all is_digit (nat_str n)"
proof (induction n rule: nat_str.induct)
  case (1 n)
  then show ?case
    by (cases "n < 10") (auto simp: nat_str.simps [of n] gostr)
qed

lemma digits_val_nat_str: "digits_val 0 (nat_str n) = n"
proof (induction n rule: nat_str.induct)
  case (1 n)
  then show ?case
    by (cases "n < 10") (auto simp: nat_str.simps [of n] gostr)
qed

lemma digit_not_sign: "is_digit c \<Longrightarrow> c \<noteq> CHR ''-'' \<and> c \<noteq> CHR ''+'' \<and> c \<noteq> CHR ''/'' \<and> c \<noteq> CHR '':''"
  by (auto simp: is_digit_def Let_def)

lemma nat_str_no_sign:
  "\<not> has_prefix (nat_str n) ''-''" "\<not> has_prefix (nat_str n) ''+''"
proof -
  obtain c cs where cs: "nat_str n = c # cs" by (cases "nat_str n") auto
  with nat_str_digits [of n] have "is_digit c" by simp
  with cs show "\<not> has_prefix (nat_str n) ''-''" "\<not> has_prefix (nat_str n) ''+''"
    using digit_not_sign by (auto simp: has_prefix_def)
qed

lemma atoi_itoa: "- max_int - 1 \<le> i \<Longrightarrow> i \<le> max_int \<Longrightarrow> atoi (itoa i) = (i, True)"
  using nat_str_digits [of "nat i"] nat_str_digits [of "nat (- i)"]
  by (auto simp: atoi_def itoa_def Let_def nat_str_no_sign digits_val_nat_str)
     (auto simp: has_prefix_def digits_val_nat_str)

lemma nat_str_inj: "nat_str a = nat_str b \<Longrightarrow> a = b"
  by (metis digits_val_nat_str)

lemma itoa_inj [simp]: "itoa a = itoa b \<longleftrightarrow> a = b"
proof
  assume eq: "itoa a = itoa b"
  have minus: "nat_str m \<noteq> CHR ''-'' # t" for m t
    using nat_str_no_sign(1) [of m] by (auto simp: has_prefix_def)
  from eq show "a = b"
    using minus minus [symmetric] by (auto simp: itoa_def split: if_splits dest!: nat_str_inj)
qed simp

section \<open>Facts about cutting and joining\<close>

lemma has_prefix_append [simp]: "has_prefix (p @ s) p"
  by (simp add: has_prefix_def)

lemma has_prefix_iff: "has_prefix s p \<longleftrightarrow> (\<exists>t. s = p @ t)"
  by (metis append_take_drop_id has_prefix_append has_prefix_def)

lemma has_suffix_iff: "has_suffix s p \<longleftrightarrow> (\<exists>t. s = t @ p)"
proof
  assume "has_suffix s p"
  then show "\<exists>t. s = t @ p"
    by (metis append_take_drop_id has_suffix_def)
qed (auto simp: has_suffix_def)

lemma has_prefix_Nil [simp]: "has_prefix s []"
  by (simp add: has_prefix_def)

lemma has_prefix_Cons [simp]: "has_prefix (c # s) (d # p) \<longleftrightarrow> c = d \<and> has_prefix s p"
  by (simp add: has_prefix_def)

lemma has_prefix_Nil_left [simp]: "has_prefix [] p \<longleftrightarrow> p = []"
  by (auto simp: has_prefix_def)

lemma split_char_nonempty [simp]: "split_char c s \<noteq> []"
  by (induction s) (auto split: list.splits)

lemma join_Cons: "ss \<noteq> [] \<Longrightarrow> join sep (s # ss) = s @ sep @ join sep ss"
  by (cases ss) (auto simp: join_def)

lemma join_single [simp]: "join sep [s] = s"
  by (simp add: join_def)

text \<open>Joining what \<open>Split\<close> cut gives the string back, and no piece holds the separator.\<close>

lemma join_split_char: "join [c] (split_char c s) = s"
proof (induction s)
  case (Cons x s)
  show ?case
  proof (cases "x = c")
    case True
    then show ?thesis using Cons by (simp add: join_Cons)
  next
    case False
    obtain y ys where ys: "split_char c s = y # ys" by (cases "split_char c s") auto
    with Cons False show ?thesis by (cases ys) (auto simp: join_def)
  qed
qed simp

lemma split_char_pieces: "t \<in> set (split_char c s) \<Longrightarrow> c \<notin> set t"
  by (induction s arbitrary: t) (auto split: if_splits list.splits)

lemma split_char_notin: "c \<notin> set s \<Longrightarrow> split_char c s = [s]"
  by (induction s) auto

lemma split_char_append: "c \<notin> set s \<Longrightarrow> split_char c (s @ c # t) = s # split_char c t"
  by (induction s) auto

lemma split_char_join:
  "ss \<noteq> [] \<Longrightarrow> \<forall>s \<in> set ss. c \<notin> set s \<Longrightarrow> split_char c (join [c] ss) = ss"
proof (induction ss)
  case (Cons s ss)
  then show ?case
    by (cases ss) (auto simp: join_Cons split_char_notin split_char_append)
qed simp

lemma str_index_char_notin: "c \<notin> set s \<Longrightarrow> str_index s [c] = None"
  by (induction s) auto

lemma str_index_char: "c \<notin> set s \<Longrightarrow> str_index (s @ c # t) [c] = Some (length s)"
  by (induction s) auto

lemma cut_char: "c \<notin> set s \<Longrightarrow> cut (s @ c # t) [c] = (s, t, True)"
  by (simp add: cut_def str_index_char)

lemma cut_char_notin: "c \<notin> set s \<Longrightarrow> cut s [c] = (s, [], False)"
  by (simp add: cut_def str_index_char_notin)

lemma length_nat_str_pos: "0 < length (nat_str n)"
  by simp

section \<open>Splitting on a string\<close>

lemma has_prefix_length: "has_prefix s p \<Longrightarrow> length p \<le> length s"
  by (auto simp: has_prefix_iff)

lemma str_index_bound: "str_index s p = Some i \<Longrightarrow> i + length p \<le> length s"
proof (induction s arbitrary: i)
  case (Cons c s)
  show ?case
  proof (cases "has_prefix (c # s) p")
    case True
    then show ?thesis using Cons.prems has_prefix_length [OF True] by simp
  next
    case False
    then show ?thesis using Cons by auto
  qed
qed (auto split: if_splits)

text \<open>\<open>strings.Split\<close> with a separator of any length but zero.\<close>

function split_on :: "string \<Rightarrow> string \<Rightarrow> string list" where
  "split_on s sep =
     (if sep = [] then [s]
      else case str_index s sep of
          None \<Rightarrow> [s]
        | Some i \<Rightarrow> take i s # split_on (drop (i + length sep) s) sep)"
  by pat_completeness auto
termination
proof (relation "measure (length \<circ> fst)")
  fix s sep :: string and i
  assume "sep \<noteq> []" "str_index s sep = Some i"
  then show "((drop (i + length sep) s, sep), s, sep) \<in> measure (length \<circ> fst)"
    using str_index_bound [of s sep i] by (cases sep) auto
qed simp

declare split_on.simps [simp del]

lemma has_prefix_hd: "p \<noteq> [] \<Longrightarrow> has_prefix (c # s) p \<Longrightarrow> c = hd p"
  by (cases p) auto

lemma str_index_notin:
  "p \<noteq> [] \<Longrightarrow> hd p \<notin> set s \<Longrightarrow> str_index (s @ t) p = map_option ((+) (length s)) (str_index t p)"
proof (induction s)
  case Nil
  then show ?case by (cases "str_index t p") auto
next
  case (Cons c s)
  then have "\<not> has_prefix (c # s @ t) p" using has_prefix_hd by fastforce
  then show ?case using Cons by (cases "str_index t p") auto
qed

lemma str_index_at: "p \<noteq> [] \<Longrightarrow> hd p \<notin> set s \<Longrightarrow> str_index (s @ p @ t) p = Some (length s)"
  by (cases p) (auto simp: str_index_notin has_prefix_def)

lemma str_index_absent: "p \<noteq> [] \<Longrightarrow> hd p \<notin> set s \<Longrightarrow> str_index s p = None"
  using str_index_notin [of p s "[]"] by simp

lemma split_on_join:
  "sep \<noteq> [] \<Longrightarrow> ss \<noteq> [] \<Longrightarrow> \<forall>s \<in> set ss. hd sep \<notin> set s \<Longrightarrow> split_on (join sep ss) sep = ss"
proof (induction ss)
  case (Cons s ss)
  show ?case
  proof (cases ss)
    case Nil
    then show ?thesis using Cons.prems by (simp add: split_on.simps [of s] str_index_absent)
  next
    case Cons2: (Cons t ts)
    have "str_index (s @ sep @ join sep ss) sep = Some (length s)"
      using Cons.prems by (intro str_index_at) auto
    then show ?thesis
      using Cons Cons2 by (simp add: split_on.simps [of "s @ sep @ join sep (t # ts)"] join_Cons)
  qed
qed simp

lemma last_index_tail: "c \<notin> set t \<Longrightarrow> last_index c (s @ c # t) = Some (length s)"
proof (induction s)
  case Nil
  have "last_index c t = None" using Nil by (induction t) auto
  then show ?case by simp
qed auto

end
