(* ===== verification/GoNet.thy ===== *)
theory GoNet
  imports GoStrings "HOL-Library.Word"
begin

text \<open>
  What the code uses of \<open>net\<close> and \<open>net/netip\<close>: addresses, their parser and printer,
  prefixes and the splitting of \<open>host:port\<close>. The parsers follow the library branch by
  branch, so the answer \<open>None\<close> stands for every error return.
\<close>

unbundle bit_operations_syntax

section \<open>Character classes and runes\<close>

definition is_lower :: "char \<Rightarrow> bool" where
  "is_lower c \<longleftrightarrow> (let n = of_char c :: nat in 97 \<le> n \<and> n \<le> 122)"

definition is_upper :: "char \<Rightarrow> bool" where
  "is_upper c \<longleftrightarrow> (let n = of_char c :: nat in 65 \<le> n \<and> n \<le> 90)"

definition is_alnum :: "char \<Rightarrow> bool" where
  "is_alnum c \<longleftrightarrow> is_lower c \<or> is_upper c \<or> is_digit c"

definition cont_byte :: "nat \<Rightarrow> bool" where
  "cont_byte n \<longleftrightarrow> 128 \<le> n \<and> n \<le> 191"

text \<open>Width of the rune \<open>utf8.DecodeRune\<close> reads first; an invalid byte is a rune of width 1.\<close>

fun rune_len :: "nat list \<Rightarrow> nat" where
  "rune_len [] = 0"
| "rune_len (a # s) =
     (if 194 \<le> a \<and> a \<le> 223 then
        (case s of b # _ \<Rightarrow> if cont_byte b then 2 else 1 | _ \<Rightarrow> 1)
      else if 224 \<le> a \<and> a \<le> 239 then
        (case s of b # c # _ \<Rightarrow>
           if cont_byte b \<and> cont_byte c \<and> (a = 224 \<longrightarrow> 160 \<le> b) \<and> (a = 237 \<longrightarrow> b \<le> 159) then 3 else 1
         | _ \<Rightarrow> 1)
      else if 240 \<le> a \<and> a \<le> 244 then
        (case s of b # c # d # _ \<Rightarrow>
           if cont_byte b \<and> cont_byte c \<and> cont_byte d
             \<and> (a = 240 \<longrightarrow> 144 \<le> b) \<and> (a = 244 \<longrightarrow> b \<le> 143) then 4 else 1
         | _ \<Rightarrow> 1)
      else 1)"

lemma rune_len_pos: "s \<noteq> [] \<Longrightarrow> 0 < rune_len s"
  by (cases s) (auto split: list.splits)

function rune_count_nat :: "nat list \<Rightarrow> nat" where
  "rune_count_nat s = (if s = [] then 0 else Suc (rune_count_nat (drop (rune_len s) s)))"
  by pat_completeness auto
termination
  by (relation "measure length") (auto simp: rune_len_pos)

declare rune_count_nat.simps [simp del]

definition rune_count :: "string \<Rightarrow> nat" where
  "rune_count s = rune_count_nat (map of_char s)"

section \<open>Addresses\<close>

text \<open>\<open>netip.Addr\<close>: the zero value, an IPv4 address, an IPv6 address with its zone.\<close>

datatype ip = NoIP | V4 "32 word" | V6 "128 word" string

definition octet :: "string \<Rightarrow> nat option" where
  "octet s =
     (if s = [] \<or> \<not> list_all is_digit s then None
      else if 1 < length s \<and> hd s = CHR ''0'' then None
      else if 255 < digits_val 0 s then None
      else Some (digits_val 0 s))"

definition pack4 :: "nat \<Rightarrow> nat \<Rightarrow> nat \<Rightarrow> nat \<Rightarrow> 32 word" where
  "pack4 a b c d =
     ((word_of_nat a * 256 + word_of_nat b) * 256 + word_of_nat c) * 256 + word_of_nat d"

definition parse_ipv4 :: "string \<Rightarrow> (32 word) option" where
  "parse_ipv4 s = (case map octet (split_char CHR ''.'' s) of
      [Some a, Some b, Some c, Some d] \<Rightarrow> Some (pack4 a b c d)
    | _ \<Rightarrow> None)"

definition hex_val :: "char \<Rightarrow> nat option" where
  "hex_val c = (let n = of_char c :: nat in
     if 48 \<le> n \<and> n \<le> 57 then Some (n - 48)
     else if 97 \<le> n \<and> n \<le> 102 then Some (n - 87)
     else if 65 \<le> n \<and> n \<le> 70 then Some (n - 55)
     else None)"

text \<open>The hexadecimal group at the front: its value, its length and the rest.\<close>

fun hex_group :: "nat \<Rightarrow> nat \<Rightarrow> string \<Rightarrow> nat \<times> nat \<times> string" where
  "hex_group acc off [] = (acc, off, [])"
| "hex_group acc off (c # s) = (case hex_val c of
      None \<Rightarrow> (acc, off, c # s)
    | Some v \<Rightarrow> hex_group (acc * 16 + v) (Suc off) s)"

lemma hex_group_length: "hex_group a k s = (v, off, r) \<Longrightarrow> off + length r = k + length s"
  by (induction a k s rule: hex_group.induct) (auto split: option.splits)

text \<open>
  The loop of \<open>parseIPv6\<close>: 16-bit groups read so far (in reverse), the position of the
  ellipsis counted in groups, the rest of the text.
\<close>

function ipv6_loop :: "nat list \<Rightarrow> nat option \<Rightarrow> string \<Rightarrow> (nat list \<times> nat option) option" where
  "ipv6_loop gs ell s =
     (if 8 \<le> length gs then (if s = [] then Some (gs, ell) else None)
      else case hex_group 0 0 s of (v, off, r) \<Rightarrow>
        if off = 0 \<or> 4 < off then None
        else if r \<noteq> [] \<and> hd r = CHR ''.'' then
          (if ell = None \<and> length gs \<noteq> 6 then None
           else if 6 < length gs then None
           else case parse_ipv4 s of None \<Rightarrow> None
             | Some w \<Rightarrow> Some ((unat w mod 65536) # (unat w div 65536) # gs, ell))
        else if r = [] then Some (v # gs, ell)
        else if hd r \<noteq> CHR '':'' \<or> length r = 1 then None
        else if r ! 1 = CHR '':'' then
          (if ell \<noteq> None then None
           else if length r = 2 then Some (v # gs, Some (Suc (length gs)))
           else ipv6_loop (v # gs) (Some (Suc (length gs))) (drop 2 r))
        else ipv6_loop (v # gs) ell (drop 1 r))"
  by pat_completeness auto
termination
  by (relation "measure (\<lambda>(gs, ell, s). length s)") (auto dest!: hex_group_length [OF sym])

declare ipv6_loop.simps [simp del]

fun pack_groups :: "128 word \<Rightarrow> nat list \<Rightarrow> 128 word" where
  "pack_groups acc [] = acc"
| "pack_groups acc (g # gs) = pack_groups (acc * 65536 + word_of_nat g) gs"

definition parse_ipv6 :: "string \<Rightarrow> ip option" where
  "parse_ipv6 inp =
     (case cut inp ''%'' of (s, zone, has_zone) \<Rightarrow>
        if has_zone \<and> zone = [] then None
        else
          let lead = has_prefix s ''::'';
              body = (if lead then drop 2 s else s)
          in if lead \<and> body = [] then Some (V6 0 zone)
             else case ipv6_loop [] (if lead then Some 0 else None) body of
                 None \<Rightarrow> None
               | Some (gs, ell) \<Rightarrow>
                   let groups = rev gs; n = 8 - length groups in
                   (case ell of
                      None \<Rightarrow> if n = 0 then Some (V6 (pack_groups 0 groups) zone) else None
                    | Some e \<Rightarrow> if n = 0 then None
                        else Some (V6 (pack_groups 0
                               (take e groups @ replicate n 0 @ drop e groups)) zone)))"

text \<open>\<open>netip.ParseAddr\<close> looks for the first dot, colon or percent sign.\<close>

definition parse_addr :: "string \<Rightarrow> ip option" where
  "parse_addr s = (case find (\<lambda>c. c = CHR ''.'' \<or> c = CHR '':'' \<or> c = CHR ''%'') s of
      None \<Rightarrow> None
    | Some c \<Rightarrow>
        if c = CHR ''.'' then map_option V4 (parse_ipv4 s)
        else if c = CHR '':'' then parse_ipv6 s
        else None)"

fun is4 :: "ip \<Rightarrow> bool" where
  "is4 (V4 _) = True"
| "is4 _ = False"

fun unmap :: "ip \<Rightarrow> ip" where
  "unmap (V6 w z) = (if drop_bit 32 w = 65535 then V4 (ucast w) else V6 w z)"
| "unmap a = a"

definition loopback4 :: "32 word \<Rightarrow> bool" where
  "loopback4 w \<longleftrightarrow> drop_bit 24 w = 127"

fun is_loopback :: "ip \<Rightarrow> bool" where
  "is_loopback NoIP = False"
| "is_loopback (V4 w) = loopback4 w"
| "is_loopback (V6 w z) = (case unmap (V6 w z) of V4 v \<Rightarrow> loopback4 v | _ \<Rightarrow> w = 1)"

fun is_unspecified :: "ip \<Rightarrow> bool" where
  "is_unspecified NoIP = False"
| "is_unspecified (V4 w) = (w = 0)"
| "is_unspecified (V6 w z) = (w = 0 \<and> z = [])"

fun is_global_unicast :: "ip \<Rightarrow> bool" where
  "is_global_unicast NoIP = False"
| "is_global_unicast (V4 w) = (w \<noteq> 0 \<and> w \<noteq> 0xFFFFFFFF \<and> \<not> loopback4 w
     \<and> drop_bit 28 w \<noteq> 14 \<and> drop_bit 16 w \<noteq> 0xA9FE)"
| "is_global_unicast (V6 w z) =
     (case unmap (V6 w z) of
        V4 v \<Rightarrow> \<not> loopback4 v \<and> drop_bit 28 v \<noteq> 14 \<and> drop_bit 16 v \<noteq> 0xA9FE
      | _ \<Rightarrow> \<not> (w = 0 \<and> z = []) \<and> w \<noteq> 1 \<and> drop_bit 120 w \<noteq> 0xFF \<and> drop_bit 118 w \<noteq> 0x3FA)"

subsection \<open>Printing\<close>

definition ipv4_str :: "32 word \<Rightarrow> string" where
  "ipv4_str w = join ''.'' (map (\<lambda>k. nat_str (unat (take_bit 8 (drop_bit k w)))) [24, 16, 8, 0])"

definition hex_digit :: "nat \<Rightarrow> char" where
  "hex_digit n = (if n < 10 then char_of (48 + n) else char_of (87 + n))"

fun hex_str :: "nat \<Rightarrow> string" where
  "hex_str n = (if n < 16 then [hex_digit n] else hex_str (n div 16) @ [hex_digit (n mod 16)])"

declare hex_str.simps [simp del]

definition groups_of :: "128 word \<Rightarrow> nat list" where
  "groups_of w = map (\<lambda>k. unat (drop_bit k w) mod 65536) [112, 96, 80, 64, 48, 32, 16, 0]"

text \<open>The first longest run of at least two zero groups, as start and length.\<close>

definition zero_run :: "nat list \<Rightarrow> nat \<Rightarrow> nat" where
  "zero_run gs i = length (takeWhile (\<lambda>g. g = 0) (drop i gs))"

definition best_run :: "nat list \<Rightarrow> nat \<times> nat" where
  "best_run gs = foldl (\<lambda>(st, l) i. if zero_run gs i \<ge> 2 \<and> zero_run gs i > l then (i, zero_run gs i) else (st, l))
     (0, 0) [0..<8]"

definition ipv6_str :: "128 word \<Rightarrow> string \<Rightarrow> string" where
  "ipv6_str w z =
     (let gs = groups_of w; (st, l) = best_run gs;
          body = (if l = 0 then join '':'' (map hex_str gs)
                  else join '':'' (map hex_str (take st gs)) @ ''::''
                       @ join '':'' (map hex_str (drop (st + l) gs)))
      in body @ (if z = [] then [] else ''%'' @ z))"

text \<open>\<open>Addr.String\<close> of an address that has been unmapped.\<close>

fun addr_str :: "ip \<Rightarrow> string" where
  "addr_str NoIP = ''invalid IP''"
| "addr_str (V4 w) = ipv4_str w"
| "addr_str (V6 w z) = ipv6_str w z"

section \<open>Prefixes\<close>

definition parse_bits :: "nat \<Rightarrow> string \<Rightarrow> nat option" where
  "parse_bits mx s =
     (if 1 < length s \<and> \<not> (CHR ''1'' \<le> hd s \<and> hd s \<le> CHR ''9'') then None
      else case atoi s of (n, good) \<Rightarrow>
        if good \<and> 0 \<le> n \<and> n \<le> int mx then Some (nat n) else None)"

text \<open>\<open>netip.ParsePrefix\<close>, the IPv4 answers only: the callers reject every other prefix.\<close>

definition parse_prefix4 :: "string \<Rightarrow> (32 word \<times> nat) option" where
  "parse_prefix4 s = (case last_index CHR ''/'' s of
      None \<Rightarrow> None
    | Some i \<Rightarrow> (case (parse_addr (take i s), parse_bits 32 (drop (Suc i) s)) of
          (Some (V4 w), Some b) \<Rightarrow> Some (w, b)
        | _ \<Rightarrow> None))"

definition masked :: "32 word \<times> nat \<Rightarrow> 32 word \<times> nat" where
  "masked p = (push_bit (32 - snd p) (drop_bit (32 - snd p) (fst p)), snd p)"

fun prefix_contains :: "32 word \<times> nat \<Rightarrow> ip \<Rightarrow> bool" where
  "prefix_contains (w, b) (V4 a) = (drop_bit (32 - b) (w XOR a) = 0)"
| "prefix_contains _ _ = False"

section \<open>Splitting host and port\<close>

definition split_host_port :: "string \<Rightarrow> (string \<times> string) option" where
  "split_host_port hp = (case last_index CHR '':'' hp of
      None \<Rightarrow> None
    | Some i \<Rightarrow>
        if has_prefix hp ''['' then
          (case str_index hp '']'' of
             None \<Rightarrow> None
           | Some e \<Rightarrow>
               if Suc e \<noteq> i then None
               else if CHR ''['' \<in> set (drop 1 hp) then None
               else if CHR '']'' \<in> set (drop (Suc e) hp) then None
               else Some (take (e - 1) (drop 1 hp), drop (Suc i) hp))
        else if CHR '':'' \<in> set (take i hp) then None
        else if CHR ''['' \<in> set hp \<or> CHR '']'' \<in> set hp then None
        else Some (take i hp, drop (Suc i) hp))"

definition parse_port16 :: "string \<Rightarrow> nat option" where
  "parse_port16 s =
     (if s = [] \<or> \<not> list_all is_digit s \<or> 65535 < digits_val 0 s then None else Some (digits_val 0 s))"

definition parse_addr_port :: "string \<Rightarrow> (ip \<times> nat) option" where
  "parse_addr_port s = (case last_index CHR '':'' s of
      None \<Rightarrow> None
    | Some i \<Rightarrow>
        let host = take i s; port = drop (Suc i) s in
        if host = [] \<or> port = [] then None
        else let br = (hd host = CHR ''['') in
          if br \<and> (length host < 2 \<or> last host \<noteq> CHR '']'') then None
          else case (parse_addr (if br then butlast (tl host) else host), parse_port16 port) of
              (Some a, Some p) \<Rightarrow> if br = is4 a then None else Some (a, p)
            | _ \<Rightarrow> None)"

section \<open>Big-endian integers\<close>

type_synonym byte = "8 word"

definition be16 :: "byte \<Rightarrow> byte \<Rightarrow> nat" where
  "be16 a b = unat a * 256 + unat b"

fun be_bytes :: "nat \<Rightarrow> nat \<Rightarrow> byte list" where
  "be_bytes 0 m = []"
| "be_bytes (Suc n) m = be_bytes n (m div 256) @ [word_of_nat m]"

definition be_nat :: "byte list \<Rightarrow> nat" where
  "be_nat bs = foldl (\<lambda>a b. a * 256 + unat b) 0 bs"

lemma length_be_bytes [simp]: "length (be_bytes n m) = n"
  by (induction n arbitrary: m) auto

lemma be_nat_be_bytes: "be_nat (be_bytes n m) = m mod 256 ^ n"
proof (induction n arbitrary: m)
  case (Suc n)
  have "be_nat (be_bytes (Suc n) m) = (m div 256 mod 256 ^ n) * 256 + m mod 256"
    using Suc [of "m div 256"] by (simp add: be_nat_def unat_of_nat)
  also have "\<dots> = m mod 256 ^ Suc n"
    using mod_mult2_eq [of m 256 "256 ^ n"] by simp
  finally show ?case .
qed (simp add: be_nat_def)

lemma be_bytes_2: "be_bytes 2 m = [word_of_nat (m div 256), word_of_nat m]"
  by (simp add: numeral_2_eq_2)

lemma be16_bytes: "m < 65536 \<Longrightarrow> be16 (word_of_nat (m div 256)) (word_of_nat m) = m"
  by (simp add: be16_def unat_of_nat)

section \<open>Lemmas\<close>

lemma is4_iff: "is4 a \<longleftrightarrow> (\<exists>w. a = V4 w)"
  by (cases a) auto

lemma unmap_idem [simp]: "unmap (unmap a) = unmap a"
  by (cases a) auto

lemma drop_bit_masked: "drop_bit k (push_bit k (drop_bit k w)) = drop_bit k (w :: 'a::len word)"
  by (rule bit_word_eqI) (auto simp: bit_simps dest: bit_imp_le_length)

lemma masked_contains: "prefix_contains (masked (w, b)) (V4 a) = prefix_contains (w, b) (V4 a)"
  by (simp add: masked_def drop_bit_masked)

lemma prefix_contains_self: "prefix_contains (w, b) (V4 w)"
  by simp

lemma prefix_contains_32: "prefix_contains (w, 32) (V4 a) \<longleftrightarrow> a = w"
  by (auto simp: bit_eq_iff bit_simps)

end
