(* ===== verification/FlyConfig.thy ===== *)
theory FlyConfig
  imports GoNet
begin

text \<open>
  Traffic Fly, the configuration of a gateway and of a host
  (\<open>src/internal/fly/config.go\<close>): its types, the patterns its strings must match, and
  \<open>Validate\<close>, after which the strings go into WireGuard and nftables files. The main lemmas
  show that the two \<open>Validate\<close> loops, with the maps they fill as they go, accept exactly
  the configurations described without any loop by \<open>gateway_ok\<close> and \<open>host_ok\<close>.
\<close>

section \<open>Types and constants\<close>

definition KindHTTPS :: string where "KindHTTPS = ''https''"
definition KindHTTP :: string where "KindHTTP = ''http''"
definition KindTCP :: string where "KindTCP = ''tcp''"
definition KindUDP :: string where "KindUDP = ''udp''"
definition KindTCPUDP :: string where "KindTCPUDP = ''tcpudp''"

definition AlgoLeastConn :: string where "AlgoLeastConn = ''leastconn''"
definition AlgoRoundRobin :: string where "AlgoRoundRobin = ''roundrobin''"
definition AlgoSourceHash :: string where "AlgoSourceHash = ''source''"

definition CheckTCP :: string where "CheckTCP = ''tcp''"
definition CheckHTTP :: string where "CheckHTTP = ''http''"
definition CheckNone :: string where "CheckNone = ''none''"

lemmas fly_consts = KindHTTPS_def KindHTTP_def KindTCP_def KindUDP_def KindTCPUDP_def
  AlgoLeastConn_def AlgoRoundRobin_def AlgoSourceHash_def CheckTCP_def CheckHTTP_def CheckNone_def

record target =
  t_id :: string
  t_label :: string
  t_host :: string
  t_port :: int
  t_weight :: int
  t_drain :: bool

record check =
  c_kind :: string
  c_path :: string
  c_expect :: int
  c_port :: int
  c_interval :: int

record route =
  r_id :: string
  r_kind :: string
  r_names :: "string list"
  r_port :: int
  r_port_to :: int
  r_proxy :: bool
  r_tls :: bool
  r_allow :: "string list"
  r_max_conns :: int
  r_rate :: int
  r_algorithm :: string
  r_check :: check
  r_targets :: "target list"

record peer =
  p_name :: string
  p_key :: string
  p_address :: string

record gateway =
  g_revision :: int
  g_iface :: string
  g_address :: string
  g_listen :: int
  g_peers :: "peer list"
  g_routes :: "route list"

record service =
  s_port :: int
  s_port_to :: int
  s_proto :: string
  s_addr :: string
  s_to_port :: int
  s_kind :: string
  s_ref :: string

record host_iface =
  i_name :: string
  i_address :: string
  i_gateway :: peer
  i_endpoint :: string
  i_mark :: "32 word"
  i_table :: int
  i_services :: "service list"

record host_config =
  h_revision :: int
  h_ifaces :: "host_iface list"

text \<open>The error returns, one constructor per message.\<close>

datatype fly_err =
    ErrIface string | ErrAddress string int | ErrPeer string
  | ErrRouteTwice string | ErrBothKinds int | ErrNameTwice string int | ErrWholePort int
  | ErrPortTwice string | ErrTLS80 string
  | ErrRouteId string | ErrRoutePort string int | ErrRange string int int
  | ErrCheckOutside string int | ErrRangeTarget string string
  | ErrNoNames string | ErrName string string | ErrExactName string string | ErrGatewayTLS string
  | ErrNamesOnPort string | ErrKind string string | ErrLimits string | ErrAllowCount string
  | ErrAllow string string | ErrLeastConn string | ErrAlgorithm string string
  | ErrCheckPath string string | ErrCheckKind string string | ErrUdpCheck string | ErrCheck string
  | ErrTargets string | ErrTarget string string
  | ErrEndpoint string string | ErrMark string | ErrSvcRange string int int
  | ErrService string int string

section \<open>Patterns\<close>

definition ifaceRe :: "string \<Rightarrow> bool" where
  "ifaceRe s \<longleftrightarrow> has_prefix s ''nkt-fly'' \<and> length s \<le> 10 \<and> list_all is_digit (drop 7 s)"

definition idRe :: "string \<Rightarrow> bool" where
  "idRe s \<longleftrightarrow> s \<noteq> [] \<and> length s \<le> 64 \<and> is_alnum (hd s)
     \<and> list_all (\<lambda>c. is_alnum c \<or> c = CHR ''_'' \<or> c = CHR ''-'') s"

definition dns_label :: "string \<Rightarrow> bool" where
  "dns_label s \<longleftrightarrow> s \<noteq> [] \<and> length s \<le> 63
     \<and> list_all (\<lambda>c. is_lower c \<or> is_digit c \<or> c = CHR ''-'') s
     \<and> hd s \<noteq> CHR ''-'' \<and> last s \<noteq> CHR ''-''"

definition nameRe :: "string \<Rightarrow> bool" where
  "nameRe s \<longleftrightarrow>
     (let ls = split_char CHR ''.'' (trim_prefix s ''*.'')
      in 2 \<le> length ls \<and> list_all dns_label (butlast ls)
         \<and> list_all is_lower (last ls) \<and> 2 \<le> length (last ls) \<and> length (last ls) \<le> 63)"

definition base64_char :: "char \<Rightarrow> bool" where
  "base64_char c \<longleftrightarrow> is_alnum c \<or> c = CHR ''+'' \<or> c = CHR ''/''"

definition keyRe :: "string \<Rightarrow> bool" where
  "keyRe s \<longleftrightarrow> length s = 44 \<and> list_all base64_char (take 42 s)
     \<and> s ! 42 \<in> set ''AEIMQUYcgkosw480'' \<and> s ! 43 = CHR ''=''"

definition labelRe :: "string \<Rightarrow> bool" where
  "labelRe s \<longleftrightarrow> rune_count s \<le> 80
     \<and> list_all (\<lambda>c. 32 \<le> (of_char c :: nat) \<and> c \<noteq> CHR 0x22 \<and> c \<noteq> CHR 0x5C) s"

definition pathRe :: "string \<Rightarrow> bool" where
  "pathRe s \<longleftrightarrow> s \<noteq> [] \<and> hd s = CHR ''/'' \<and> length s \<le> 201
     \<and> list_all (\<lambda>c. is_alnum c \<or> c \<in> set (''._~!$&()*+,;=:@%/-'' @ [CHR 0x27])) (tl s)"

definition ValidName :: "string \<Rightarrow> bool" where
  "ValidName s = nameRe s"

definition ValidKey :: "string \<Rightarrow> bool" where
  "ValidKey s = keyRe s"

definition ValidIface :: "string \<Rightarrow> bool" where
  "ValidIface s = ifaceRe s"

definition validPort :: "int \<Rightarrow> bool" where
  "validPort p \<longleftrightarrow> p > 0 \<and> p < 65536"

text \<open>\<open>10.77.0.0/16\<close>.\<close>

definition tunnel_net :: "32 word \<times> nat" where
  "tunnel_net = (pack4 10 77 0 0, 16)"

definition tunnelAddr :: "string \<Rightarrow> bool" where
  "tunnelAddr s = (case parse_addr s of
      None \<Rightarrow> False
    | Some a \<Rightarrow> is4 a \<and> prefix_contains tunnel_net a)"

definition tunnelPrefix :: "string \<Rightarrow> bool" where
  "tunnelPrefix s = (case parse_prefix4 s of
      None \<Rightarrow> False
    | Some (w, b) \<Rightarrow> prefix_contains tunnel_net (V4 w) \<and> b \<ge> 16)"

section \<open>Methods of a route\<close>

definition protos :: "route \<Rightarrow> string list" where
  "protos r =
     (if r_kind r = KindTCP then [''tcp'']
      else if r_kind r = KindUDP then [''udp'']
      else if r_kind r = KindTCPUDP then [''tcp'', ''udp'']
      else [])"

definition Named :: "route \<Rightarrow> bool" where
  "Named r \<longleftrightarrow> r_kind r = KindHTTPS \<or> r_kind r = KindHTTP"

definition namedPort :: "route list \<Rightarrow> int \<Rightarrow> bool" where
  "namedPort rs port \<longleftrightarrow> (\<exists>r \<in> set rs. (r_kind r = KindHTTPS \<or> r_kind r = KindHTTP) \<and> r_port r = port)"

definition MaxAllow :: nat where "MaxAllow = 200"

definition parseAllow :: "string \<Rightarrow> (32 word \<times> nat) option" where
  "parseAllow s = (case parse_prefix4 s of
      Some p \<Rightarrow> Some (masked p)
    | None \<Rightarrow> (case parse_addr s of Some (V4 w) \<Rightarrow> Some (w, 32) | _ \<Rightarrow> None))"

definition ValidAllow :: "string \<Rightarrow> bool" where
  "ValidAllow s \<longleftrightarrow> parseAllow s \<noteq> None"

definition Allowed :: "route \<Rightarrow> ip \<Rightarrow> bool" where
  "Allowed r a \<longleftrightarrow> r_allow r = []
     \<or> list_ex (\<lambda>s. case parseAllow s of Some p \<Rightarrow> prefix_contains p (unmap a) | None \<Rightarrow> False) (r_allow r)"

definition Range :: "route \<Rightarrow> bool" where
  "Range r \<longleftrightarrow> r_port_to r > r_port r"

definition maxRangePorts :: int where "maxRangePorts = 20000"

definition route_ports :: "route \<Rightarrow> int list" where
  "route_ports r = (if \<not> Range r then [r_port r] else [r_port r .. r_port_to r])"

definition TLSNames :: "gateway \<Rightarrow> string list" where
  "TLSNames c = concat (map r_names (filter r_tls (g_routes c)))"

definition sortedRoutes :: "route list \<Rightarrow> route list" where
  "sortedRoutes rs = sort_key (\<lambda>r. (r_port r, r_id r)) rs"

definition joinNames :: "string list \<Rightarrow> string" where
  "joinNames n = join '','' n"

section \<open>Validation of a route\<close>

text \<open>A run of checks stops at the first error.\<close>

definition err_if :: "bool \<Rightarrow> 'e \<Rightarrow> 'e option" where
  "err_if b e = (if b then Some e else None)"

fun err_seq :: "'e option list \<Rightarrow> 'e option" where
  "err_seq [] = None"
| "err_seq (x # xs) = (case x of Some e \<Rightarrow> Some e | None \<Rightarrow> err_seq xs)"

definition check_range :: "route \<Rightarrow> fly_err option" where
  "check_range r =
     (if r_port_to r = 0 then None
      else err_seq
       ([err_if (Named r \<or> \<not> validPort (r_port_to r) \<or> r_port_to r \<le> r_port r
              \<or> r_port_to r - r_port r > maxRangePorts) (ErrRange (r_id r) (r_port r) (r_port_to r)),
         err_if (c_port (r_check r) \<noteq> 0 \<and> (c_port (r_check r) < r_port r \<or> c_port (r_check r) > r_port_to r))
              (ErrCheckOutside (r_id r) (c_port (r_check r)))]
        @ map (\<lambda>t. err_if (t_port t \<noteq> r_port r) (ErrRangeTarget (r_id r) (t_id t))) (r_targets r)))"

definition check_kind :: "route \<Rightarrow> fly_err option" where
  "check_kind r =
     (if Named r then
        err_seq ([err_if (r_names r = []) (ErrNoNames (r_id r))]
          @ concat (map (\<lambda>n. [err_if (\<not> nameRe n) (ErrName (r_id r) n),
                              err_if (r_tls r \<and> has_prefix n ''*.'') (ErrExactName (r_id r) n)]) (r_names r))
          @ [err_if (r_tls r \<and> (r_kind r \<noteq> KindHTTPS \<or> r_proxy r)) (ErrGatewayTLS (r_id r))])
      else if r_kind r = KindTCP \<or> r_kind r = KindUDP \<or> r_kind r = KindTCPUDP then
        err_if (r_names r \<noteq> [] \<or> r_proxy r) (ErrNamesOnPort (r_id r))
      else Some (ErrKind (r_id r) (r_kind r)))"

definition check_algo :: "route \<Rightarrow> fly_err option" where
  "check_algo r =
     (if r_algorithm r = AlgoRoundRobin \<or> r_algorithm r = AlgoSourceHash then None
      else if r_algorithm r = AlgoLeastConn then err_if (\<not> Named r) (ErrLeastConn (r_id r))
      else Some (ErrAlgorithm (r_id r) (r_algorithm r)))"

definition check_check :: "route \<Rightarrow> fly_err option" where
  "check_check r =
     (let c = r_check r in
      err_seq
       [(if c_kind c = CheckTCP \<or> c_kind c = CheckNone then None
         else if c_kind c = CheckHTTP then err_if (\<not> pathRe (c_path c)) (ErrCheckPath (r_id r) (c_path c))
         else Some (ErrCheckKind (r_id r) (c_kind c))),
        err_if (r_kind r = KindUDP \<and> c_kind c \<noteq> CheckNone \<and> c_port c = 0) (ErrUdpCheck (r_id r)),
        err_if (c_port c \<noteq> 0 \<and> \<not> validPort (c_port c)
            \<or> c_expect c \<noteq> 0 \<and> (c_expect c < 100 \<or> c_expect c > 599)) (ErrCheck (r_id r))])"

definition bad_target :: "string set \<Rightarrow> string set \<Rightarrow> target \<Rightarrow> bool" where
  "bad_target peers seen t \<longleftrightarrow> \<not> idRe (t_id t) \<or> t_id t \<in> seen \<or> \<not> labelRe (t_label t)
     \<or> \<not> tunnelAddr (t_host t) \<or> t_host t \<notin> peers \<or> \<not> validPort (t_port t)
     \<or> t_weight t < 0 \<or> t_weight t > 100"

fun check_targets :: "string \<Rightarrow> string set \<Rightarrow> string set \<Rightarrow> target list \<Rightarrow> fly_err option" where
  "check_targets rid peers seen [] = None"
| "check_targets rid peers seen (t # ts) =
     (if bad_target peers seen t then Some (ErrTarget rid (t_id t))
      else check_targets rid peers (insert (t_id t) seen) ts)"

definition route_validate :: "string set \<Rightarrow> route \<Rightarrow> fly_err option" where
  "route_validate peers r = err_seq
     ([err_if (\<not> idRe (r_id r)) (ErrRouteId (r_id r)),
       err_if (\<not> validPort (r_port r)) (ErrRoutePort (r_id r) (r_port r)),
       check_range r,
       check_kind r,
       err_if (r_max_conns r < 0 \<or> r_max_conns r > 100000 \<or> r_rate r < 0 \<or> r_rate r > 100000)
         (ErrLimits (r_id r)),
       err_if (length (r_allow r) > MaxAllow) (ErrAllowCount (r_id r))]
      @ map (\<lambda>a. err_if (parseAllow a = None) (ErrAllow (r_id r) a)) (r_allow r)
      @ [check_algo r,
         check_check r,
         err_if (r_targets r = [] \<or> length (r_targets r) > 64) (ErrTargets (r_id r)),
         check_targets (r_id r) peers {} (r_targets r)])"

section \<open>Validation of a gateway\<close>

definition name_key :: "int \<Rightarrow> string \<Rightarrow> string" where
  "name_key p n = itoa p @ ''/'' @ n"

definition port_key :: "string \<Rightarrow> int \<Rightarrow> string" where
  "port_key proto p = proto @ ''/'' @ itoa p"

text \<open>The maps \<open>Validate\<close> fills while it walks the routes.\<close>

record vstate =
  v_ports :: "string set"
  v_names :: "string set"
  v_kinds :: "int \<Rightarrow> string option"
  v_ids :: "string set"

definition vstate0 :: vstate where
  "vstate0 = \<lparr>v_ports = {}, v_names = {}, v_kinds = (\<lambda>_. None), v_ids = {}\<rparr>"

fun check_peers :: "string set \<Rightarrow> peer list \<Rightarrow> fly_err + string set" where
  "check_peers addrs [] = Inr addrs"
| "check_peers addrs (p # ps) =
     (if \<not> labelRe (p_name p) \<or> \<not> keyRe (p_key p) \<or> \<not> tunnelAddr (p_address p) \<or> p_address p \<in> addrs
      then Inl (ErrPeer (p_name p))
      else check_peers (insert (p_address p) addrs) ps)"

fun claim_names :: "int \<Rightarrow> string set \<Rightarrow> string list \<Rightarrow> fly_err + string set" where
  "claim_names port names [] = Inr names"
| "claim_names port names (n # ns) =
     (if name_key port n \<in> names then Inl (ErrNameTwice n port)
      else claim_names port (insert (name_key port n) names) ns)"

fun claim_ports :: "route list \<Rightarrow> string set \<Rightarrow> (string \<times> int) list \<Rightarrow> fly_err + string set" where
  "claim_ports all ports [] = Inr ports"
| "claim_ports all ports ((proto, p) # ps) =
     (if port_key proto p \<in> ports \<or> proto = ''tcp'' \<and> namedPort all p
      then Inl (ErrPortTwice (port_key proto p))
      else claim_ports all (insert (port_key proto p) ports) ps)"

definition claims :: "route \<Rightarrow> (string \<times> int) list" where
  "claims r = concat (map (\<lambda>proto. map (\<lambda>p. (proto, p)) (route_ports r)) (protos r))"

definition check_route :: "route list \<Rightarrow> string set \<Rightarrow> vstate \<Rightarrow> route \<Rightarrow> fly_err + vstate" where
  "check_route all addrs st r =
     (case route_validate addrs r of Some e \<Rightarrow> Inl e | None \<Rightarrow>
        if r_id r \<in> v_ids st then Inl (ErrRouteTwice (r_id r))
        else let st = st\<lparr>v_ids := insert (r_id r) (v_ids st)\<rparr> in
        if Named r then
          (if (case v_kinds st (r_port r) of Some k \<Rightarrow> k \<noteq> r_kind r | None \<Rightarrow> False)
           then Inl (ErrBothKinds (r_port r))
           else let st = st\<lparr>v_kinds := (v_kinds st)(r_port r := Some (r_kind r))\<rparr> in
           (case claim_names (r_port r) (v_names st) (r_names r) of
              Inl e \<Rightarrow> Inl e
            | Inr ns \<Rightarrow>
                if port_key ''tcp'' (r_port r) \<in> v_ports st then Inl (ErrWholePort (r_port r))
                else Inr (st\<lparr>v_names := ns\<rparr>)))
        else (case claim_ports all (v_ports st) (claims r) of
            Inl e \<Rightarrow> Inl e
          | Inr ps \<Rightarrow> Inr (st\<lparr>v_ports := ps\<rparr>)))"

fun check_routes :: "route list \<Rightarrow> string set \<Rightarrow> vstate \<Rightarrow> route list \<Rightarrow> fly_err + vstate" where
  "check_routes all addrs st [] = Inr st"
| "check_routes all addrs st (r # rs) =
     (case check_route all addrs st r of Inl e \<Rightarrow> Inl e | Inr st' \<Rightarrow> check_routes all addrs st' rs)"

definition gateway_validate :: "gateway \<Rightarrow> fly_err option" where
  "gateway_validate c =
     (if \<not> ifaceRe (g_iface c) then Some (ErrIface (g_iface c))
      else if \<not> tunnelPrefix (g_address c) \<or> \<not> validPort (g_listen c)
        then Some (ErrAddress (g_address c) (g_listen c))
      else case check_peers {} (g_peers c) of Inl e \<Rightarrow> Some e | Inr addrs \<Rightarrow>
       (case check_routes (g_routes c) addrs vstate0 (g_routes c) of Inl e \<Rightarrow> Some e | Inr st \<Rightarrow>
          err_seq (map (\<lambda>r. err_if (r_tls r \<and> (''tcp/80'' \<in> v_ports st
                \<or> (v_kinds st 80 \<noteq> None \<and> v_kinds st 80 \<noteq> Some KindHTTP))) (ErrTLS80 (r_id r)))
            (g_routes c))))"

section \<open>Validation of a host\<close>

definition refKind :: "string \<Rightarrow> bool" where
  "refKind k \<longleftrightarrow> k \<in> {[], ''container'', ''vm'', ''lxd'', ''host'', ''addr''}"

text \<open>The inner loop over a port range: was one of the ports taken, and the ports taken now.\<close>

fun claim_range :: "string \<Rightarrow> string set \<Rightarrow> bool \<Rightarrow> int list \<Rightarrow> bool \<times> string set" where
  "claim_range proto seen clash [] = (clash, seen)"
| "claim_range proto seen clash (p # ps) =
     claim_range proto (insert (port_key proto p) seen) (clash \<or> port_key proto p \<in> seen) ps"

definition service_fields_ok :: "service \<Rightarrow> bool" where
  "service_fields_ok s \<longleftrightarrow>
     (case parse_addr (s_addr s) of None \<Rightarrow> False
      | Some a \<Rightarrow> is4 a \<and> \<not> is_loopback a \<and> \<not> is_unspecified a)
     \<and> validPort (s_port s) \<and> validPort (s_to_port s) \<and> (s_proto s = ''tcp'' \<or> s_proto s = ''udp'')
     \<and> refKind (s_kind s) \<and> length (s_ref s) \<le> 200
     \<and> list_all (\<lambda>c. c \<noteq> CHR 0x00 \<and> c \<noteq> CHR 0x0A \<and> c \<noteq> CHR 0x0D) (s_ref s)"

definition range_bad :: "service \<Rightarrow> bool" where
  "range_bad s \<longleftrightarrow> s_port_to s \<noteq> 0 \<and>
     (s_port_to s \<le> s_port s \<or> wrap64 (s_port_to s - s_port s) > maxRangePorts \<or> \<not> validPort (s_port_to s))"

fun check_services :: "string \<Rightarrow> string set \<Rightarrow> service list \<Rightarrow> fly_err option" where
  "check_services name seen [] = None"
| "check_services name seen (s # ss) =
     (if range_bad s then Some (ErrSvcRange name (s_port s) (s_port_to s))
      else let k = port_key (s_proto s) (s_port s);
               (clash, seen') =
                 (if s_port_to s \<noteq> 0 then claim_range (s_proto s) seen (k \<in> seen) [s_port s + 1 .. s_port_to s]
                  else (k \<in> seen, seen))
           in if \<not> service_fields_ok s \<or> clash then Some (ErrService name (s_port s) (s_proto s))
              else check_services name (insert k seen') ss)"

fun check_ifaces :: "string set \<Rightarrow> host_iface list \<Rightarrow> fly_err option" where
  "check_ifaces names [] = None"
| "check_ifaces names (i # is) =
     (if \<not> ifaceRe (i_name i) \<or> i_name i \<in> names \<or> \<not> tunnelPrefix (i_address i)
         \<or> \<not> keyRe (p_key (i_gateway i)) \<or> \<not> tunnelAddr (p_address (i_gateway i))
      then Some (ErrIface (i_name i))
      else if (case parse_addr_port (i_endpoint i) of None \<Rightarrow> True | Some (a, _) \<Rightarrow> \<not> is_global_unicast a)
      then Some (ErrEndpoint (i_name i) (i_endpoint i))
      else if i_mark i = 0 \<or> i_table i < 100 \<or> i_table i > 60000 then Some (ErrMark (i_name i))
      else case check_services (i_name i) {} (i_services i) of
          Some e \<Rightarrow> Some e
        | None \<Rightarrow> check_ifaces (insert (i_name i) names) is)"

definition host_validate :: "host_config \<Rightarrow> fly_err option" where
  "host_validate c = check_ifaces {} (h_ifaces c)"

end
