(* ===== verification/FlyPeek.thy ===== *)
theory FlyPeek
  imports FlyConfig
begin

text \<open>
  Traffic Fly, the name at the start of a connection (\<open>src/internal/fly/peek.go\<close>): the TLS
  ClientHello, the HTTP headers read through a buffer, the name patterns, and the PROXY
  protocol header written to the target. The lemmas show that a well-formed hello gives its
  name back, that the host does not depend on how the network cut the request, and that the
  PROXY header can be decoded.
\<close>

section \<open>TLS: the server name of a ClientHello\<close>

definition maxPeek :: nat where "maxPeek = 16384"

definition skip_vec :: "nat \<Rightarrow> byte list \<Rightarrow> byte list option" where
  "skip_vec k b =
     (if length b < k then None
      else let n = be_nat (take k b) in
        if length b < k + n then None else Some (drop (k + n) b))"

function sni_list :: "byte list \<Rightarrow> byte list option" where
  "sni_list l =
     (if length l < 3 then None
      else let nt = l ! 0; nl = be16 (l ! 1) (l ! 2) in
        if length l < 3 + nl then None
        else if nt = 0 then Some (take nl (drop 3 l))
        else sni_list (drop (3 + nl) l))"
  by pat_completeness auto
termination by (relation "measure length") auto

function sni_ext :: "byte list \<Rightarrow> byte list option" where
  "sni_ext ext =
     (if length ext < 4 then None
      else let typ = be16 (ext ! 0) (ext ! 1); l = be16 (ext ! 2) (ext ! 3) in
        if length ext < 4 + l then None
        else let data = take l (drop 4 ext); rest = drop (4 + l) ext in
          if typ \<noteq> 0 then sni_ext rest
          else if length data < 2 then None
          else case sni_list (drop 2 data) of
              Some n \<Rightarrow> Some n
            | None \<Rightarrow> sni_ext rest)"
  by pat_completeness auto
termination by (relation "measure length") auto

declare sni_list.simps [simp del] sni_ext.simps [simp del]

definition sni_body :: "byte list \<Rightarrow> byte list option" where
  "sni_body b0 =
     (if length b0 < 4 \<or> b0 ! 0 \<noteq> 1 then None
      else let b = drop 4 b0 in
        if length b < 34 then None
        else case skip_vec 1 (drop 34 b) of None \<Rightarrow> None | Some b \<Rightarrow>
             case skip_vec 2 b of None \<Rightarrow> None | Some b \<Rightarrow>
             case skip_vec 1 b of None \<Rightarrow> None | Some b \<Rightarrow>
               if length b < 2 then None
               else let ext = drop 2 b; n = be16 (b ! 0) (b ! 1) in
                 sni_ext (if n < length ext then take n ext else ext))"

definition byte_str :: "byte list \<Rightarrow> string" where
  "byte_str bs = map (\<lambda>b. char_of (unat b)) bs"

definition sniFromHello :: "(string \<Rightarrow> string) \<Rightarrow> byte list \<Rightarrow> string option" where
  "sniFromHello ulow b = map_option (\<lambda>n. to_lower ulow (byte_str n)) (sni_body b)"

text \<open>\<open>peekSNI\<close> on everything the client sends before the deadline.\<close>

definition peekSNI :: "(string \<Rightarrow> string) \<Rightarrow> byte list \<Rightarrow> string option" where
  "peekSNI ulow inp =
     (if length inp < 5 \<or> inp ! 0 \<noteq> 0x16 then None
      else let n = be16 (inp ! 3) (inp ! 4) in
        if n = 0 \<or> maxPeek < n + 5 then None
        else if length inp < 5 + n then None
        else sniFromHello ulow (take n (drop 5 inp)))"

section \<open>HTTP: the Host header\<close>

definition crlf :: string where "crlf = [CHR 0x0D, CHR 0x0A]"

fun host_line :: "(string \<Rightarrow> string) \<Rightarrow> string list \<Rightarrow> string" where
  "host_line ulow [] = []"
| "host_line ulow (l # ls) =
     (case cut l '':'' of (k, v, found) \<Rightarrow>
        if found \<and> equal_fold (trim_space k) ''host'' then
          (let h = to_lower ulow (trim_space v) in
           case split_host_port h of Some (host, _) \<Rightarrow> host | None \<Rightarrow> h)
        else host_line ulow ls)"

definition hostHeader :: "(string \<Rightarrow> string) \<Rightarrow> string \<Rightarrow> string" where
  "hostHeader ulow head = host_line ulow (tl (split_on head crlf))"

text \<open>
  The buffered reader: what is buffered, and the pieces the connection still delivers. One
  fill takes at most what the buffer has room for.
\<close>

fun fill :: "string \<Rightarrow> string list \<Rightarrow> (string \<times> string list) option" where
  "fill buf [] = None"
| "fill buf (c # cs) =
     (let k = maxPeek - length buf in
      if length c \<le> k then Some (buf @ c, cs) else Some (buf @ take k c, drop k c # cs))"

function peekHost :: "(string \<Rightarrow> string) \<Rightarrow> string \<Rightarrow> string list \<Rightarrow> string option \<times> string" where
  "peekHost ulow buf cs =
     (case fill buf cs of
        None \<Rightarrow> (None, buf)
      | Some (buf', cs') \<Rightarrow>
          (case str_index buf' (crlf @ crlf) of
             Some i \<Rightarrow> (Some (hostHeader ulow (take i buf')), buf')
           | None \<Rightarrow> if maxPeek \<le> length buf' then (None, buf') else peekHost ulow buf' cs'))"
  by pat_completeness auto
termination
proof (relation "measure (\<lambda>(u, buf, cs). length (concat cs) + length cs)")
  fix ulow :: "string \<Rightarrow> string" and buf :: string and cs x buf' cs'
  assume f: "fill buf cs = Some x" "(buf', cs') = x" and "\<not> maxPeek \<le> length buf'"
  then obtain c cs0 where c: "cs = c # cs0" by (cases cs) auto
  show "((ulow, buf', cs'), (ulow, buf, cs)) \<in> measure (\<lambda>(u, buf, cs). length (concat cs) + length cs)"
    using f \<open>\<not> maxPeek \<le> length buf'\<close> by (auto simp: c Let_def split: if_splits)
qed simp

declare peekHost.simps [simp del]

section \<open>Name patterns\<close>

definition matchName :: "string \<Rightarrow> string \<Rightarrow> bool" where
  "matchName pattern name =
     (if has_prefix pattern ''*.'' then
        has_suffix name (drop 1 pattern) \<and> length name > length pattern - 1
      else pattern = name)"

section \<open>PROXY protocol, version 2\<close>

definition proxy_sig :: "byte list" where
  "proxy_sig = [0x0D, 0x0A, 0x0D, 0x0A, 0x00, 0x0D, 0x0A, 0x51, 0x55, 0x49, 0x54, 0x0A]"

fun as4 :: "ip \<Rightarrow> byte list" where
  "as4 (V4 w) = be_bytes 4 (unat w)"
| "as4 _ = []"

fun as16 :: "ip \<Rightarrow> byte list" where
  "as16 NoIP = be_bytes 16 0"
| "as16 (V4 w) = be_bytes 16 (0xFFFF00000000 + unat w)"
| "as16 (V6 w _) = be_bytes 16 (unat w)"

definition proxyHeaderV2 :: "ip \<times> 16 word \<Rightarrow> ip \<times> 16 word \<Rightarrow> byte list" where
  "proxyHeaderV2 src dst =
     (let s = unmap (fst src); d = unmap (fst dst) in
      proxy_sig @ [0x21] @
      (if is4 s \<and> is4 d
       then [0x11] @ be_bytes 2 12 @ as4 s @ as4 d
       else [0x21] @ be_bytes 2 36 @ as16 s @ as16 d)
      @ be_bytes 2 (unat (snd src)) @ be_bytes 2 (unat (snd dst)))"

text \<open>A receiver of the header, as the protocol describes it.\<close>

definition addr16 :: "nat \<Rightarrow> ip" where
  "addr16 n = V6 (word_of_nat n) []"

definition proxy_decode :: "byte list \<Rightarrow> ((ip \<times> 16 word) \<times> (ip \<times> 16 word) \<times> byte list) option" where
  "proxy_decode b =
     (if take 13 b \<noteq> proxy_sig @ [0x21] \<or> length b < 16 then None
      else let fam = b ! 13; n = be16 (b ! 14) (b ! 15); a = take n (drop 16 b); rest = drop (16 + n) b in
        if length b < 16 + n then None
        else if fam = 0x11 \<and> n = 12 then
          Some ((V4 (word_of_nat (be_nat (take 4 a))), word_of_nat (be_nat (take 2 (drop 8 a)))),
                (V4 (word_of_nat (be_nat (take 4 (drop 4 a)))), word_of_nat (be_nat (take 2 (drop 10 a)))), rest)
        else if fam = 0x21 \<and> n = 36 then
          Some ((addr16 (be_nat (take 16 a)), word_of_nat (be_nat (take 2 (drop 32 a)))),
                (addr16 (be_nat (take 16 (drop 16 a))), word_of_nat (be_nat (take 2 (drop 34 a)))), rest)
        else None)"

section \<open>The name of a hello comes back\<close>

fun enc_exts :: "(nat \<times> byte list) list \<Rightarrow> byte list" where
  "enc_exts [] = []"
| "enc_exts ((t, d) # es) = be_bytes 2 t @ be_bytes 2 (length d) @ d @ enc_exts es"

fun enc_names :: "(byte \<times> byte list) list \<Rightarrow> byte list" where
  "enc_names [] = []"
| "enc_names ((t, d) # es) = t # be_bytes 2 (length d) @ d @ enc_names es"

definition enc_vec :: "nat \<Rightarrow> byte list \<Rightarrow> byte list" where
  "enc_vec k d = be_bytes k (length d) @ d"

definition enc_hello :: "byte list \<Rightarrow> byte list \<Rightarrow> byte list \<Rightarrow> byte list \<Rightarrow> (nat \<times> byte list) list \<Rightarrow> byte list" where
  "enc_hello random sid suites compr exts =
     (let body = [3, 3] @ random @ enc_vec 1 sid @ enc_vec 2 suites @ enc_vec 1 compr @ enc_vec 2 (enc_exts exts)
      in 1 # be_bytes 3 (length body) @ body)"

lemma skip_enc_vec:
  "length d < 256 ^ k \<Longrightarrow> skip_vec k (enc_vec k d @ rest) = Some rest"
  by (simp add: skip_vec_def enc_vec_def be_nat_be_bytes)

lemma drop_header:
  "drop (3 + n) (a # b # c # xs) = drop n xs" "drop (4 + n) (a # b # c # d # xs) = drop n xs"
  by (simp_all add: eval_nat_numeral)

lemma sni_list_enc:
  "length d < 65536 \<Longrightarrow> sni_list (enc_names ((t, d) # es))
     = (if t = 0 then Some d else sni_list (enc_names es))"
  by (simp add: sni_list.simps [of "t # _"] be_bytes_2 be16_bytes Let_def drop_header)

lemma sni_ext_enc:
  "t < 65536 \<Longrightarrow> length d < 65536 \<Longrightarrow> sni_ext (enc_exts ((t, d) # es))
     = (if t \<noteq> 0 then sni_ext (enc_exts es)
        else if length d < 2 then None
        else case sni_list (drop 2 d) of Some n \<Rightarrow> Some n | None \<Rightarrow> sni_ext (enc_exts es))"
  by (simp add: sni_ext.simps [of "word_of_nat (t div 256) # _"] be_bytes_2 be16_bytes Let_def drop_header)

lemma sni_list_skip:
  "\<forall>(t, d) \<in> set ns. t \<noteq> 0 \<and> length d < 65536 \<Longrightarrow> length name < 65536
     \<Longrightarrow> sni_list (enc_names (ns @ (0, name) # others)) = Some name"
  by (induction ns) (auto simp: sni_list_enc simp del: enc_names.simps)

lemma sni_ext_skip:
  "\<forall>(t, d) \<in> set es. t < 65536 \<and> t \<noteq> 0 \<and> length d < 65536 \<Longrightarrow> sni_ext (enc_exts (es @ rest)) = sni_ext (enc_exts rest)"
  by (induction es) (auto simp: sni_ext_enc simp del: enc_exts.simps)

lemma sni_body_hello:
  assumes "length random = 32" "length sid < 256" "length suites < 65536" "length compr < 256"
    and "length (enc_exts exts) < 65536"
  shows "sni_body (enc_hello random sid suites compr exts) = sni_ext (enc_exts exts)"
proof -
  define tail where "tail = enc_vec 2 (enc_exts exts)"
  define body where "body = [3, 3] @ random @ enc_vec 1 sid @ enc_vec 2 suites @ enc_vec 1 compr @ tail"
  have hello: "enc_hello random sid suites compr exts = 1 # be_bytes 3 (length body) @ body"
    by (simp add: enc_hello_def Let_def body_def tail_def)
  have d: "drop 34 body = enc_vec 1 sid @ enc_vec 2 suites @ enc_vec 1 compr @ tail" and l: "34 \<le> length body"
    using assms(1) by (simp_all add: body_def)
  have tail: "drop 2 tail = enc_exts exts" "be16 (tail ! 0) (tail ! Suc 0) = length (enc_exts exts)" "\<not> length tail < 2"
    using assms(5) by (simp_all add: tail_def enc_vec_def be_bytes_2 be16_bytes)
  show ?thesis
    using assms(2-4) l
    by (simp add: sni_body_def hello Let_def d skip_enc_vec tail)
qed

text \<open>C3. A well-formed TLS ClientHello gives its server name back: with any extensions before
  the server-name extension and any other names listed before the host name, \<open>sniFromHello\<close>
  returns exactly the lower-cased host name of the hello.\<close>
theorem sni_roundtrip:
  assumes "length random = 32" "length sid < 256" "length suites < 65536" "length compr < 256"
    and "\<forall>(t, d) \<in> set before. t < 65536 \<and> t \<noteq> 0 \<and> length d < 65536"
    and "\<forall>(t, d) \<in> set ns. t \<noteq> 0 \<and> length d < 65536"
    and "length (enc_exts (before @ (0, enc_vec 2 (enc_names (ns @ (0, name) # others))) # after)) < 65536"
  shows "sniFromHello ulow (enc_hello random sid suites compr
             (before @ (0, enc_vec 2 (enc_names (ns @ (0, name) # others))) # after))
         = Some (to_lower ulow (byte_str name))"
proof -
  define list where "list = enc_names (ns @ (0, name) # others)"
  have len_exts: "length (enc_exts (es @ es')) = length (enc_exts es) + length (enc_exts es')" for es es'
    by (induction es) auto
  have small: "length (enc_vec 2 list) < 65536"
    using assms(7) by (simp add: len_exts list_def)
  have len_names: "length (enc_names (xs @ ys)) = length (enc_names xs) + length (enc_names ys)" for xs ys
    by (induction xs) auto
  have "length name \<le> length list"
    by (simp add: list_def len_names)
  then have name: "length name < 65536" using small by (simp add: enc_vec_def)
  have "sni_ext (enc_exts (before @ (0, enc_vec 2 list) # after)) = Some name"
    using small sni_list_skip [OF assms(6) name, of others]
    by (simp add: sni_ext_skip [OF assms(5)] sni_ext_enc enc_vec_def list_def del: enc_exts.simps)
  then show ?thesis
    using sni_body_hello [OF assms(1-4,7)] by (simp add: sniFromHello_def list_def)
qed

lemma sni_roundtrip_witness:
  "sniFromHello id (enc_hello (replicate 32 7) [] [0x13, 0x01] [0]
      ([(10, [0, 2, 0, 29])] @ (0, enc_vec 2 (enc_names ([] @ (0, [0x41, 0x2E, 0x72, 0x75]) # []))) # [(16, [])]))
    = Some ''a.ru''"
proof -
  have "to_lower id (byte_str [0x41, 0x2E, 0x72, 0x75]) = ''a.ru''" by code_simp
  then show ?thesis
    using sni_roundtrip [of "replicate 32 7" "[]" "[0x13, 0x01]" "[0]" "[(10, [0, 2, 0, 29])]" "[]"
        "[0x41, 0x2E, 0x72, 0x75]" "[]" "[(16, [])]" id]
    by (simp add: enc_vec_def be_bytes_2 numeral_2_eq_2)
qed

section \<open>The host does not depend on the pieces\<close>

definition host_of_stream :: "(string \<Rightarrow> string) \<Rightarrow> string \<Rightarrow> string option" where
  "host_of_stream ulow d =
     map_option (\<lambda>i. hostHeader ulow (take i d)) (str_index (take maxPeek d) (crlf @ crlf))"

lemma str_index_extend: "str_index s p = Some i \<Longrightarrow> str_index (s @ t) p = Some i"
proof (induction s arbitrary: i)
  case Nil
  then show ?case by (cases t) (auto split: if_splits)
next
  case (Cons c s)
  show ?case
  proof (cases "has_prefix (c # s) p")
    case True
    then have "has_prefix (c # s @ t) p" by (auto simp: has_prefix_iff) (metis append.assoc append_Cons)
    then show ?thesis using Cons.prems True by simp
  next
    case False
    then obtain j where j: "str_index s p = Some j" "i = Suc j" using Cons.prems by auto
    have len: "Suc j + length p \<le> Suc (length s)" using str_index_bound [OF j(1)] by simp
    have "\<not> has_prefix (c # s @ t) p"
    proof
      assume "has_prefix (c # s @ t) p"
      then have "take (length p) (c # s @ t) = p" by (simp add: has_prefix_def)
      moreover have "take (length p) (c # s @ t) = take (length p) (c # s)"
        using len by (simp add: take_Cons')
      ultimately show False using False by (simp add: has_prefix_def)
    qed
    then show ?thesis using Cons.IH [OF j(1)] j(2) by simp
  qed
qed

lemma fill_total: "fill buf cs = Some (buf', cs') \<Longrightarrow> buf' @ concat cs' = buf @ concat cs"
  by (cases cs) (auto simp: Let_def split: if_splits)

lemma fill_bound: "fill buf cs = Some (buf', cs') \<Longrightarrow> length buf \<le> maxPeek \<Longrightarrow> length buf' \<le> maxPeek"
  by (cases cs) (auto simp: Let_def split: if_splits)

lemma fill_None: "fill buf cs = None \<longleftrightarrow> cs = []"
  by (cases cs) (auto simp: Let_def)

text \<open>C4. The host that \<open>peekHost\<close> finds depends only on the bytes the client sent, never on how
  the network cut them into pieces: it is the host of the headers up to the first empty line
  within the first 16 KiB, and no host when there is no such line.\<close>
theorem peekHost_stream:
  "fst (peekHost ulow [] cs) = host_of_stream ulow (concat cs)"
proof -
  have "length buf \<le> maxPeek \<Longrightarrow> str_index buf (crlf @ crlf) = None
      \<Longrightarrow> fst (peekHost ulow buf cs) = host_of_stream ulow (buf @ concat cs)" for buf
  proof (induction ulow buf cs rule: peekHost.induct)
    case (1 ulow buf cs)
    show ?case
    proof (cases "fill buf cs")
      case None
      then have "cs = []" by (simp add: fill_None)
      then show ?thesis using 1 by (simp add: peekHost.simps [of ulow buf] host_of_stream_def)
    next
      case (Some x)
      obtain buf' cs' where x: "x = (buf', cs')" by (cases x)
      have total: "buf @ concat cs = buf' @ concat cs'" and len: "length buf' \<le> maxPeek"
        using fill_total [of buf cs buf' cs'] fill_bound [of buf cs buf' cs'] Some x "1.prems" by auto
      show ?thesis
      proof (cases "str_index buf' (crlf @ crlf)")
        case found: (Some i)
        have i: "i \<le> length buf'" using str_index_bound [OF found] by simp
        have "str_index (take maxPeek (buf' @ concat cs')) (crlf @ crlf) = Some i"
          using str_index_extend [OF found] len by simp
        then show ?thesis
          using Some x found i by (simp add: peekHost.simps [of ulow buf] host_of_stream_def total)
      next
        case absent: None
        show ?thesis
        proof (cases "maxPeek \<le> length buf'")
          case True
          then show ?thesis
            using Some x absent len by (simp add: peekHost.simps [of ulow buf] host_of_stream_def total)
        next
          case False
          then show ?thesis
            using Some x absent len "1.IH" [OF Some x [symmetric] absent False]
            by (simp add: peekHost.simps [of ulow buf] total)
        qed
      qed
    qed
  qed
  from this [of "[]"] show ?thesis
    by (simp add: crlf_def maxPeek_def)
qed

section \<open>Patterns and the PROXY header\<close>

lemma matchName_exact: "\<not> has_prefix p ''*.'' \<Longrightarrow> matchName p n \<longleftrightarrow> p = n"
  by (simp add: matchName_def)

text \<open>A pattern \<open>*.d\<close> matches exactly the names that have a non-empty part before \<open>.d\<close>: any
  depth of subdomains, and never \<open>d\<close> itself.\<close>
theorem matchName_wildcard:
  "matchName (''*.'' @ d) n \<longleftrightarrow> (\<exists>sub. sub \<noteq> [] \<and> n = sub @ ''.'' @ d)"
  by (auto simp: matchName_def has_suffix_iff)

lemma as4_length [simp]: "is4 a \<Longrightarrow> length (as4 a) = 4"
  by (cases a) auto

lemma as16_length [simp]: "length (as16 a) = 16"
  by (cases a) auto

lemma unat_mod_len: "unat (w :: 'a::len word) mod 2 ^ LENGTH('a) = unat w"
proof -
  have "unat w < 2 ^ LENGTH('a)" by (rule unsigned_less)
  then show ?thesis by simp
qed

lemma be_nat_word: "8 * n = LENGTH('a) \<Longrightarrow> word_of_nat (be_nat (be_bytes n (unat (w :: 'a::len word)))) = w"
proof -
  assume "8 * n = LENGTH('a)"
  then have "(256 :: nat) ^ n = 2 ^ LENGTH('a)" using power_mult [of "2::nat" 8 n] by simp
  then show ?thesis by (simp only: be_nat_be_bytes unat_mod_len) simp
qed

lemma be_nat_as4: "is4 a \<Longrightarrow> V4 (word_of_nat (be_nat (as4 a))) = a"
  using be_nat_word [of 4, where 'a = 32] by (cases a) auto

lemma be_nat_port: "word_of_nat (be_nat (be_bytes 2 (unat (p :: 16 word)))) = p"
  by (rule be_nat_word) simp

lemma be_len: "be_bytes 2 12 = [0, 12]" "be_bytes 2 36 = [0, 36]"
  by (simp_all add: be_bytes_2)

text \<open>C5. A receiver that reads the PROXY header as the protocol says gets the client's and the
  local address and port back, and the bytes after the header untouched, when both are IPv4
  addresses (also when they came as IPv4-mapped IPv6 ones).\<close>
theorem proxy_header_v4:
  assumes "is4 (unmap a)" "is4 (unmap b)"
  shows "proxy_decode (proxyHeaderV2 (a, p) (b, q) @ rest) = Some ((unmap a, p), (unmap b, q), rest)"
  using assms
  by (simp add: proxy_decode_def proxyHeaderV2_def proxy_sig_def Let_def be_len be16_def
      be_nat_as4 be_nat_port)

lemma proxy_header_v4_witness:
  "proxy_decode (proxyHeaderV2 (V4 0x01020304, 5000) (V6 0xFFFF0A4D0001 [], 443) @ [9])
     = Some ((V4 0x01020304, 5000), (V4 0x0A4D0001, 443), [9])"
  using proxy_header_v4 [of "V4 0x01020304" "V6 0xFFFF0A4D0001 []" 5000 443 "[9]"] by simp

text \<open>In every other case (an IPv6 side) the receiver gets both addresses as 16 bytes, an
  IPv4 one in its mapped form, and the ports; nothing is lost but the zone.\<close>
theorem proxy_header_v6:
  assumes "\<not> (is4 (unmap a) \<and> is4 (unmap b))"
  shows "proxy_decode (proxyHeaderV2 (a, p) (b, q) @ rest)
     = Some ((addr16 (be_nat (as16 (unmap a))), p), (addr16 (be_nat (as16 (unmap b))), q), rest)"
  using assms
  by (cases "is4 (unmap a)")
    (simp_all add: proxy_decode_def proxyHeaderV2_def proxy_sig_def Let_def be_len be16_def be_nat_port)

lemma proxy_header_v6_witness:
  "proxy_decode (proxyHeaderV2 (V6 1 [], 5000) (V4 0x0A4D0001, 443) @ [9])
     = Some ((V6 1 [], 5000), (V6 0xFFFF0A4D0001 [], 443), [9])"
proof -
  have "be_nat (as16 (V6 1 [])) = 1" "be_nat (as16 (V4 0x0A4D0001)) = 0xFFFF0A4D0001"
    by (simp_all add: be_nat_be_bytes)
  then show ?thesis
    using proxy_header_v6 [of "V6 1 []" "V4 0x0A4D0001" 5000 443 "[9]"] by (simp add: addr16_def)
qed

end
