(* ===== verification/FlyValidate.thy ===== *)
theory FlyValidate
  imports FlyConfig
begin

text \<open>
  What \<open>Validate\<close> accepts (\<open>src/internal/fly/config.go\<close>). The loops with their maps are
  shown to compute the declarative conditions \<open>gateway_ok\<close> and \<open>host_ok\<close>; the router and the
  rule generators rest on these.
\<close>

section \<open>What a validated gateway satisfies\<close>

definition peer_ok :: "peer \<Rightarrow> bool" where
  "peer_ok p \<longleftrightarrow> labelRe (p_name p) \<and> keyRe (p_key p) \<and> tunnelAddr (p_address p)"

definition kernel_claims :: "route list \<Rightarrow> (string \<times> int) list" where
  "kernel_claims rs = concat (map claims (filter (\<lambda>r. \<not> Named r) rs))"

definition name_claims :: "route list \<Rightarrow> (int \<times> string) list" where
  "name_claims rs = concat (map (\<lambda>r. map (Pair (r_port r)) (r_names r)) (filter Named rs))"

definition clash :: "route \<Rightarrow> route \<Rightarrow> bool" where
  "clash r r' \<longleftrightarrow> Named r \<and> Named r' \<and> r_port r = r_port r' \<and> r_kind r \<noteq> r_kind r'"

definition kinds_agree :: "route list \<Rightarrow> bool" where
  "kinds_agree rs \<longleftrightarrow> (\<forall>r \<in> set rs. \<forall>r' \<in> set rs. \<not> clash r r')"

text \<open>
  The routes of a gateway fit together: each valid alone, identifiers unique, a name claimed
  once per port, a named port speaking one protocol, a kernel port claimed once and never a
  TCP port that the name router listens on.
\<close>

definition routes_ok :: "route list \<Rightarrow> string set \<Rightarrow> route list \<Rightarrow> bool" where
  "routes_ok all addrs rs \<longleftrightarrow>
     (\<forall>r \<in> set rs. route_validate addrs r = None)
     \<and> distinct (map r_id rs)
     \<and> distinct (name_claims rs)
     \<and> kinds_agree rs
     \<and> distinct (kernel_claims rs)
     \<and> (\<forall>p. (''tcp'', p) \<in> set (kernel_claims rs) \<longrightarrow> \<not> namedPort all p)"

definition gateway_ok :: "gateway \<Rightarrow> bool" where
  "gateway_ok c \<longleftrightarrow>
     ifaceRe (g_iface c) \<and> tunnelPrefix (g_address c) \<and> validPort (g_listen c)
     \<and> list_all peer_ok (g_peers c) \<and> distinct (map p_address (g_peers c))
     \<and> routes_ok (g_routes c) (p_address ` set (g_peers c)) (g_routes c)
     \<and> ((\<exists>r \<in> set (g_routes c). r_tls r) \<longrightarrow>
          (''tcp'', 80) \<notin> set (kernel_claims (g_routes c))
          \<and> (\<forall>r \<in> set (g_routes c). Named r \<longrightarrow> r_port r = 80 \<longrightarrow> r_kind r = KindHTTP))"

subsection \<open>The keys of the maps are injective\<close>

lemma slash_notin_itoa [simp]: "CHR ''/'' \<notin> set (itoa i)"
  using nat_str_digits [of "nat i"] nat_str_digits [of "nat (- i)"] digit_not_sign
  by (auto simp: itoa_def list_all_iff)

lemma cut_slash_inj:
  assumes "CHR ''/'' \<notin> set a" "CHR ''/'' \<notin> set b" "a @ CHR ''/'' # x = b @ CHR ''/'' # y"
  shows "a = b \<and> x = y"
proof -
  have "(a, x, True) = cut (a @ CHR ''/'' # x) ''/''" by (rule cut_char [OF assms(1), symmetric])
  also have "\<dots> = cut (b @ CHR ''/'' # y) ''/''" by (simp only: assms(3))
  also have "\<dots> = (b, y, True)" by (rule cut_char [OF assms(2)])
  finally show ?thesis by simp
qed

lemma name_key_inj [simp]: "name_key p n = name_key q m \<longleftrightarrow> p = q \<and> n = m"
  using cut_slash_inj [of "itoa p" "itoa q" n m] by (auto simp: name_key_def)

lemma port_key_inj:
  "CHR ''/'' \<notin> set a \<Longrightarrow> CHR ''/'' \<notin> set b \<Longrightarrow> port_key a p = port_key b q \<longleftrightarrow> a = b \<and> p = q"
  using cut_slash_inj [of a b "itoa p" "itoa q"] by (auto simp: port_key_def)

lemma protos_cases: "x \<in> set (protos r) \<Longrightarrow> x = ''tcp'' \<or> x = ''udp''"
  by (auto simp: protos_def split: if_splits)

lemma claims_proto: "(x, p) \<in> set (claims r) \<Longrightarrow> x = ''tcp'' \<or> x = ''udp''"
  by (auto simp: claims_def dest: protos_cases)

lemma kernel_claims_proto: "(x, p) \<in> set (kernel_claims rs) \<Longrightarrow> x = ''tcp'' \<or> x = ''udp''"
  by (auto simp: kernel_claims_def dest: claims_proto)

definition tcp_udp :: "(string \<times> int) set" where
  "tcp_udp = {(x, p). x = ''tcp'' \<or> x = ''udp''}"

definition pkey :: "string \<times> int \<Rightarrow> string" where
  "pkey x = port_key (fst x) (snd x)"

lemma inj_on_pkey: "inj_on pkey tcp_udp"
  by (rule inj_onI) (auto simp: pkey_def tcp_udp_def port_key_inj)

lemma claims_in: "set (claims r) \<subseteq> tcp_udp"
  using claims_proto by (fastforce simp: tcp_udp_def)

lemma kernel_claims_in: "set (kernel_claims rs) \<subseteq> tcp_udp"
  using kernel_claims_proto by (fastforce simp: tcp_udp_def)

lemma pkey_mem: "A \<subseteq> tcp_udp \<Longrightarrow> x \<in> tcp_udp \<Longrightarrow> pkey x \<in> pkey ` A \<longleftrightarrow> x \<in> A"
  by (rule inj_on_image_mem_iff [OF inj_on_pkey])

subsection \<open>The loops, one by one\<close>

lemma check_peers_Inr:
  "check_peers addrs ps = Inr addrs' \<longleftrightarrow>
     list_all peer_ok ps \<and> distinct (map p_address ps) \<and> set (map p_address ps) \<inter> addrs = {}
     \<and> addrs' = addrs \<union> p_address ` set ps"
proof (induction ps arbitrary: addrs)
  case (Cons p ps)
  show ?case
  proof (cases "peer_ok p \<and> p_address p \<notin> addrs")
    case True
    then have "check_peers addrs (p # ps) = check_peers (insert (p_address p) addrs) ps"
      by (simp add: peer_ok_def)
    then show ?thesis using True Cons.IH [of "insert (p_address p) addrs"] by auto
  next
    case False
    then show ?thesis by (auto simp: peer_ok_def)
  qed
qed auto

lemma claim_names_Inr:
  "claim_names port names ns = Inr names' \<longleftrightarrow>
     distinct ns \<and> name_key port ` set ns \<inter> names = {} \<and> names' = names \<union> name_key port ` set ns"
  by (induction port names ns rule: claim_names.induct) auto

lemma claim_ports_Inr:
  "set ps \<subseteq> tcp_udp \<Longrightarrow> claim_ports all ports ps = Inr ports' \<longleftrightarrow>
     distinct ps \<and> pkey ` set ps \<inter> ports = {} \<and> (\<forall>p. (''tcp'', p) \<in> set ps \<longrightarrow> \<not> namedPort all p)
     \<and> ports' = ports \<union> pkey ` set ps"
proof (induction all ports ps rule: claim_ports.induct)
  case (2 all ports proto p ps)
  have head: "port_key proto p = pkey (proto, p)" by (simp add: pkey_def)
  have new: "pkey (proto, p) \<in> pkey ` set ps \<longleftrightarrow> (proto, p) \<in> set ps"
    using "2.prems" by (intro pkey_mem) auto
  show ?case
    using 2 new by (auto simp: head)
qed auto

lemma claim_names_Inl:
  "claim_names port names ns = Inl e \<Longrightarrow> distinct ns \<Longrightarrow> name_key port ` set ns \<inter> names \<noteq> {}"
  using claim_names_Inr [of port names ns "names \<union> name_key port ` set ns"] by auto

lemma claim_ports_Inl:
  "claim_ports all ports ps = Inl e \<Longrightarrow> set ps \<subseteq> tcp_udp \<Longrightarrow> distinct ps
     \<Longrightarrow> \<forall>p. (''tcp'', p) \<in> set ps \<longrightarrow> \<not> namedPort all p \<Longrightarrow> pkey ` set ps \<inter> ports \<noteq> {}"
  using claim_ports_Inr [of ps all ports "ports \<union> pkey ` set ps"] by auto

lemma err_seq_None: "err_seq xs = None \<longleftrightarrow> (\<forall>x \<in> set xs. x = None)"
  by (induction xs) (auto split: option.splits)

lemma err_if_None [simp]: "err_if b e = None \<longleftrightarrow> \<not> b"
  by (simp add: err_if_def)

subsection \<open>The whole walk\<close>

definition vstate_of :: "route list \<Rightarrow> vstate" where
  "vstate_of rs = \<lparr>v_ports = pkey ` set (kernel_claims rs),
     v_names = (\<lambda>(p, n). name_key p n) ` set (name_claims rs),
     v_kinds = (\<lambda>p. map_option r_kind (find (\<lambda>r. Named r \<and> r_port r = p) rs)),
     v_ids = set (map r_id rs)\<rparr>"

lemma vstate_of_Nil: "vstate_of [] = vstate0"
  by (simp add: vstate_of_def vstate0_def kernel_claims_def name_claims_def)

lemma find_snoc: "find P (xs @ [x]) = (case find P xs of Some y \<Rightarrow> Some y | None \<Rightarrow> if P x then Some x else None)"
  by (induction xs) auto

lemma kernel_claims_snoc: "kernel_claims (rs @ [r]) = kernel_claims rs @ (if Named r then [] else claims r)"
  by (simp add: kernel_claims_def)

lemma name_claims_snoc:
  "name_claims (rs @ [r]) = name_claims rs @ (if Named r then map (Pair (r_port r)) (r_names r) else [])"
  by (simp add: name_claims_def)

lemma find_Some_prop: "find P xs = Some x \<Longrightarrow> x \<in> set xs \<and> P x"
  by (induction xs) (auto split: if_splits)

lemma find_None_prop: "find P xs = None \<Longrightarrow> x \<in> set xs \<Longrightarrow> \<not> P x"
  by (induction xs) (auto split: if_splits)

lemma tcp_key_free:
  assumes "routes_ok all addrs rs" "namedPort all p"
  shows "port_key ''tcp'' p \<notin> pkey ` set (kernel_claims rs)"
proof -
  have "(''tcp'', p) \<notin> set (kernel_claims rs)"
    using assms by (auto simp: routes_ok_def)
  moreover have "pkey (''tcp'', p) \<in> pkey ` set (kernel_claims rs) \<longleftrightarrow> (''tcp'', p) \<in> set (kernel_claims rs)"
    by (rule pkey_mem [OF kernel_claims_in]) (simp add: tcp_udp_def)
  ultimately show ?thesis by (simp add: pkey_def)
qed

lemma named_in: "r \<in> set all \<Longrightarrow> Named r \<Longrightarrow> namedPort all (r_port r)"
  by (auto simp: namedPort_def Named_def)

lemma name_disjoint:
  "name_key port ` set ns \<inter> (\<lambda>(p, n). name_key p n) ` A = {} \<longleftrightarrow> (\<forall>n \<in> set ns. (port, n) \<notin> A)"
  by auto

lemma clash_sym: "clash r r' \<longleftrightarrow> clash r' r"
  by (auto simp: clash_def)

lemma clash_irrefl [simp]: "\<not> clash r r"
  by (simp add: clash_def)

lemma kinds_agree_snoc:
  "kinds_agree (rs @ [r]) \<longleftrightarrow> kinds_agree rs \<and> \<not> (\<exists>x \<in> set rs. clash x r)"
  using clash_sym unfolding kinds_agree_def by auto

lemma kind_agrees:
  assumes "kinds_agree rs" "Named r"
  shows "(case map_option r_kind (find (\<lambda>x. Named x \<and> r_port x = r_port r) rs) of Some k \<Rightarrow> k \<noteq> r_kind r | None \<Rightarrow> False)
     \<longleftrightarrow> (\<exists>x \<in> set rs. clash x r)"
proof (cases "find (\<lambda>x. Named x \<and> r_port x = r_port r) rs")
  case None
  then have "\<not> clash x r" if "x \<in> set rs" for x
    using that by (auto simp: clash_def dest: find_None_prop)
  with None show ?thesis by auto
next
  case (Some y)
  then have y: "y \<in> set rs" "Named y" "r_port y = r_port r" by (auto dest: find_Some_prop)
  have nc: "\<not> clash x y" if "x \<in> set rs" for x
    using that y(1) assms(1) unfolding kinds_agree_def by blast
  have "r_kind y = r_kind r \<Longrightarrow> \<not> clash x r" if "x \<in> set rs" for x
    using nc [OF that] y(2,3) unfolding clash_def by argo
  moreover have "r_kind y \<noteq> r_kind r \<Longrightarrow> clash y r"
    using y assms by (simp add: clash_def)
  ultimately show ?thesis using Some y by auto
qed

text \<open>One route, after a prefix that passed.\<close>

definition route_fits :: "route list \<Rightarrow> string set \<Rightarrow> route list \<Rightarrow> route \<Rightarrow> bool" where
  "route_fits all addrs rs r \<longleftrightarrow> route_validate addrs r = None \<and> r_id r \<notin> set (map r_id rs)
     \<and> (if Named r
        then \<not> (\<exists>x \<in> set rs. clash x r)
             \<and> distinct (r_names r) \<and> (\<forall>n \<in> set (r_names r). (r_port r, n) \<notin> set (name_claims rs))
        else distinct (claims r) \<and> set (claims r) \<inter> set (kernel_claims rs) = {}
             \<and> (\<forall>p. (''tcp'', p) \<in> set (claims r) \<longrightarrow> \<not> namedPort all p))"

lemma distinct_map_Pair: "distinct (map (Pair a) xs) = distinct xs"
  by (simp add: distinct_map inj_on_def)

lemma routes_ok_snoc: "routes_ok all addrs (rs @ [r]) \<longleftrightarrow> routes_ok all addrs rs \<and> route_fits all addrs rs r"
proof -
  have K: "distinct (kernel_claims (rs @ [r])) \<longleftrightarrow> distinct (kernel_claims rs)
      \<and> (\<not> Named r \<longrightarrow> distinct (claims r) \<and> set (claims r) \<inter> set (kernel_claims rs) = {})"
    by (auto simp: kernel_claims_snoc)
  have N: "distinct (name_claims (rs @ [r])) \<longleftrightarrow> distinct (name_claims rs)
      \<and> (Named r \<longrightarrow> distinct (r_names r) \<and> (\<forall>n \<in> set (r_names r). (r_port r, n) \<notin> set (name_claims rs)))"
    by (auto simp: name_claims_snoc distinct_map_Pair)
  have T: "(\<forall>p. (''tcp'', p) \<in> set (kernel_claims (rs @ [r])) \<longrightarrow> \<not> namedPort all p)
      \<longleftrightarrow> (\<forall>p. (''tcp'', p) \<in> set (kernel_claims rs) \<longrightarrow> \<not> namedPort all p)
        \<and> (\<not> Named r \<longrightarrow> (\<forall>p. (''tcp'', p) \<in> set (claims r) \<longrightarrow> \<not> namedPort all p))"
    by (auto simp: kernel_claims_snoc)
  have D: "distinct (map r_id (rs @ [r])) \<longleftrightarrow> distinct (map r_id rs) \<and> r_id r \<notin> set (map r_id rs)"
    by simp
  have V: "(\<forall>x \<in> set (rs @ [r]). route_validate addrs x = None)
      \<longleftrightarrow> (\<forall>x \<in> set rs. route_validate addrs x = None) \<and> route_validate addrs r = None"
    by auto
  have C: "\<not> Named r \<Longrightarrow> \<not> (\<exists>x \<in> set rs. clash x r)"
    by (auto simp: clash_def)
  show ?thesis
  proof (cases "Named r")
    case True
    then show ?thesis
      unfolding routes_ok_def route_fits_def K N T D V kinds_agree_snoc
      by (simp only: simp_thms if_True) argo
  next
    case False
    then show ?thesis
      unfolding routes_ok_def route_fits_def K N T D V kinds_agree_snoc
      using C by (simp only: simp_thms if_False) argo
  qed
qed

lemma pkey_disjoint:
  "pkey ` set (claims r) \<inter> pkey ` set (kernel_claims rs) = {} \<longleftrightarrow> set (claims r) \<inter> set (kernel_claims rs) = {}"
  using inj_on_image_Int [OF inj_on_pkey claims_in kernel_claims_in, of r rs] by auto

lemma vstate_of_snoc:
  "vstate_of (rs @ [r]) = (if Named r
     then (vstate_of rs)\<lparr>v_ids := insert (r_id r) (v_ids (vstate_of rs)),
        v_kinds := (\<lambda>p. case v_kinds (vstate_of rs) p of Some k \<Rightarrow> Some k
                    | None \<Rightarrow> if p = r_port r then Some (r_kind r) else None),
        v_names := v_names (vstate_of rs) \<union> name_key (r_port r) ` set (r_names r)\<rparr>
     else (vstate_of rs)\<lparr>v_ids := insert (r_id r) (v_ids (vstate_of rs)),
        v_ports := v_ports (vstate_of rs) \<union> pkey ` set (claims r)\<rparr>)"
  by (auto simp: vstate_of_def kernel_claims_snoc name_claims_snoc find_snoc fun_eq_iff image_Un image_image
      split: option.splits)

lemma kinds_update:
  assumes "\<not> (\<exists>x \<in> set rs. clash x r)" "Named r"
  shows "(\<lambda>p. case v_kinds (vstate_of rs) p of Some k \<Rightarrow> Some k
              | None \<Rightarrow> if p = r_port r then Some (r_kind r) else None)
     = (v_kinds (vstate_of rs))(r_port r := Some (r_kind r))"
  using assms by (auto simp: vstate_of_def clash_def fun_eq_iff split: option.splits dest!: find_Some_prop)

lemma check_route_Inr:
  assumes "routes_ok all addrs rs" "r \<in> set all"
  shows "check_route all addrs (vstate_of rs) r = Inr st \<longleftrightarrow> route_fits all addrs rs r \<and> st = vstate_of (rs @ [r])"
proof (cases "Named r")
  case True
  have agree: "kinds_agree rs" using assms(1) by (simp add: routes_ok_def)
  have free: "port_key ''tcp'' (r_port r) \<notin> v_ports (vstate_of rs)"
    using tcp_key_free [OF assms(1) named_in [OF assms(2) True]] by (simp add: vstate_of_def)
  have kinds: "(case v_kinds (vstate_of rs) (r_port r) of Some k \<Rightarrow> k \<noteq> r_kind r | None \<Rightarrow> False)
      \<longleftrightarrow> (\<exists>x \<in> set rs. clash x r)"
    using kind_agrees [OF agree True] by (simp add: vstate_of_def)
  have names: "name_key (r_port r) ` set (r_names r) \<inter> v_names (vstate_of rs) = {}
      \<longleftrightarrow> (\<forall>n \<in> set (r_names r). (r_port r, n) \<notin> set (name_claims rs))"
    by (simp add: vstate_of_def name_disjoint)
  have ids: "v_ids (vstate_of rs) = set (map r_id rs)"
    by (simp add: vstate_of_def)
  show ?thesis
    using True free kinds names ids kinds_update [OF _ True, of rs]
    by (auto simp: check_route_def route_fits_def vstate_of_snoc Let_def claim_names_Inr
        split: option.splits sum.splits dest: claim_names_Inl)
next
  case False
  have ids: "v_ids (vstate_of rs) = set (map r_id rs)"
    and ports: "v_ports (vstate_of rs) = pkey ` set (kernel_claims rs)"
    by (simp_all add: vstate_of_def)
  show ?thesis
    using False ids ports pkey_disjoint [of r rs]
    by (auto simp: check_route_def route_fits_def vstate_of_snoc Let_def claim_ports_Inr [OF claims_in]
        split: option.splits sum.splits dest!: claim_ports_Inl [OF _ claims_in])
qed

lemma check_routes_snoc:
  "check_routes all addrs st (rs @ [r])
     = (case check_routes all addrs st rs of Inl e \<Rightarrow> Inl e | Inr st' \<Rightarrow> check_route all addrs st' r)"
  by (induction rs arbitrary: st) (auto split: sum.splits)

lemma check_routes_Inr:
  "set rs \<subseteq> set all \<Longrightarrow>
     check_routes all addrs vstate0 rs = Inr st \<longleftrightarrow> routes_ok all addrs rs \<and> st = vstate_of rs"
proof (induction rs arbitrary: st rule: rev_induct)
  case Nil
  show ?case
    by (auto simp: vstate_of_Nil routes_ok_def kinds_agree_def name_claims_def kernel_claims_def)
next
  case (snoc r rs)
  then have IH: "check_routes all addrs vstate0 rs = Inr st' \<longleftrightarrow> routes_ok all addrs rs \<and> st' = vstate_of rs" for st'
    by simp
  show ?case
  proof (cases "routes_ok all addrs rs")
    case True
    then have "check_routes all addrs vstate0 rs = Inr (vstate_of rs)" using IH by simp
    then show ?thesis
      using True snoc.prems by (simp add: check_routes_snoc check_route_Inr routes_ok_snoc)
  next
    case False
    then obtain e where "check_routes all addrs vstate0 rs = Inl e"
      using IH by (cases "check_routes all addrs vstate0 rs") auto
    then show ?thesis using False by (simp add: check_routes_snoc routes_ok_snoc)
  qed
qed

lemma v_kinds_at:
  assumes "kinds_agree rs"
  shows "(v_kinds (vstate_of rs) p \<noteq> None \<and> v_kinds (vstate_of rs) p \<noteq> Some k)
     \<longleftrightarrow> \<not> (\<forall>r \<in> set rs. Named r \<longrightarrow> r_port r = p \<longrightarrow> r_kind r = k)"
proof (cases "find (\<lambda>r. Named r \<and> r_port r = p) rs")
  case None
  then have "\<not> (Named r \<and> r_port r = p)" if "r \<in> set rs" for r
    using that by (auto dest: find_None_prop)
  then show ?thesis using None by (auto simp: vstate_of_def)
next
  case (Some y)
  then have y: "y \<in> set rs" "Named y" "r_port y = p" by (auto dest: find_Some_prop)
  then have "\<not> clash x y" if "x \<in> set rs" for x
    using assms that by (simp add: kinds_agree_def)
  then have same: "x \<in> set rs \<Longrightarrow> Named x \<Longrightarrow> r_port x = p \<Longrightarrow> r_kind x = k \<longleftrightarrow> r_kind y = k" for x
    using y(2,3) unfolding clash_def by metis
  show ?thesis
  proof (cases "r_kind y = k")
    case True
    then show ?thesis using Some same by (simp add: vstate_of_def)
  next
    case False
    then show ?thesis using Some y by (auto simp: vstate_of_def)
  qed
qed

lemma tcp80_key: "''tcp/80'' \<in> v_ports (vstate_of rs) \<longleftrightarrow> (''tcp'', 80) \<in> set (kernel_claims rs)"
proof -
  have "''tcp/80'' = pkey (''tcp'', 80)"
    by code_simp
  then show ?thesis
    using pkey_mem [OF kernel_claims_in, of "(''tcp'', 80)" rs] by (simp add: vstate_of_def tcp_udp_def)
qed

lemma gateway_ok_iff: "gateway_validate c = None \<longleftrightarrow> gateway_ok c"
proof (cases "list_all peer_ok (g_peers c) \<and> distinct (map p_address (g_peers c))")
  case False
  then have "\<nexists>a. check_peers {} (g_peers c) = Inr a" by (simp add: check_peers_Inr)
  then obtain e where "check_peers {} (g_peers c) = Inl e" by (cases "check_peers {} (g_peers c)") auto
  with False show ?thesis by (auto simp: gateway_validate_def gateway_ok_def)
next
  case peers: True
  define addrs where "addrs = p_address ` set (g_peers c)"
  have P: "check_peers {} (g_peers c) = Inr addrs"
    using peers by (simp add: check_peers_Inr addrs_def)
  show ?thesis
  proof (cases "routes_ok (g_routes c) addrs (g_routes c)")
    case True
    then have R: "check_routes (g_routes c) addrs vstate0 (g_routes c) = Inr (vstate_of (g_routes c))"
      by (simp add: check_routes_Inr)
    have agree: "kinds_agree (g_routes c)" using True by (simp add: routes_ok_def)
    show ?thesis
      using peers True v_kinds_at [OF agree, of 80 KindHTTP] tcp80_key [of "g_routes c"]
      by (auto simp: gateway_validate_def gateway_ok_def P R err_seq_None addrs_def [symmetric])
  next
    case False
    then obtain e where "check_routes (g_routes c) addrs vstate0 (g_routes c) = Inl e"
      using check_routes_Inr [of "g_routes c" "g_routes c" addrs]
      by (cases "check_routes (g_routes c) addrs vstate0 (g_routes c)") auto
    with False show ?thesis by (auto simp: gateway_validate_def gateway_ok_def P addrs_def)
  qed
qed

text \<open>C1. A gateway configuration passes \<open>Validate\<close>, which walks peers and routes once and
  remembers addresses, ports, names, kinds and identifiers in maps, exactly when it satisfies the
  loop-free conditions of \<open>gateway_ok\<close>: valid parts, no peer address, identifier, name on a port
  or kernel port claimed twice, one protocol per named port, no TCP port shared with the name
  router, and port 80 left to HTTP when some route takes its certificate on the gateway.\<close>
theorem gateway_validate_iff: "gateway_validate c = None \<longleftrightarrow> gateway_ok c"
  by (rule gateway_ok_iff)

section \<open>What a validated host satisfies\<close>

definition service_claims :: "service \<Rightarrow> (string \<times> int) list" where
  "service_claims s = map (Pair (s_proto s)) (s_port s # (if s_port_to s \<noteq> 0 then [s_port s + 1 .. s_port_to s] else []))"

definition service_ok :: "service \<Rightarrow> bool" where
  "service_ok s \<longleftrightarrow> \<not> range_bad s \<and> service_fields_ok s"

definition iface_ok :: "host_iface \<Rightarrow> bool" where
  "iface_ok i \<longleftrightarrow> ifaceRe (i_name i) \<and> tunnelPrefix (i_address i)
     \<and> keyRe (p_key (i_gateway i)) \<and> tunnelAddr (p_address (i_gateway i))
     \<and> (\<exists>a p. parse_addr_port (i_endpoint i) = Some (a, p) \<and> is_global_unicast a)
     \<and> i_mark i \<noteq> 0 \<and> 100 \<le> i_table i \<and> i_table i \<le> 60000
     \<and> list_all service_ok (i_services i)
     \<and> distinct (concat (map service_claims (i_services i)))"

definition host_ok :: "host_config \<Rightarrow> bool" where
  "host_ok c \<longleftrightarrow> list_all iface_ok (h_ifaces c) \<and> distinct (map i_name (h_ifaces c))"

lemma service_claims_in: "service_fields_ok s \<Longrightarrow> set (service_claims s) \<subseteq> tcp_udp"
  by (auto simp: service_fields_ok_def service_claims_def tcp_udp_def)

lemma distinct_service_claims: "distinct (service_claims s)"
  by (auto simp: service_claims_def distinct_map inj_on_def)

lemma claim_range_eq:
  "distinct ps \<Longrightarrow> CHR ''/'' \<notin> set proto \<Longrightarrow> claim_range proto seen c ps
     = (c \<or> (\<exists>p \<in> set ps. port_key proto p \<in> seen), seen \<union> port_key proto ` set ps)"
  by (induction proto seen c ps rule: claim_range.induct) (auto simp: port_key_inj)

lemma pkey_service_claims:
  "pkey ` set (service_claims s) = insert (port_key (s_proto s) (s_port s))
     (port_key (s_proto s) ` set (if s_port_to s \<noteq> 0 then [s_port s + 1 .. s_port_to s] else []))"
  by (simp add: service_claims_def pkey_def image_image)

lemma claim_service:
  assumes "service_fields_ok s"
  shows "(if s_port_to s \<noteq> 0
          then claim_range (s_proto s) seen (port_key (s_proto s) (s_port s) \<in> seen) [s_port s + 1 .. s_port_to s]
          else (port_key (s_proto s) (s_port s) \<in> seen, seen))
       = (pkey ` set (service_claims s) \<inter> seen \<noteq> {}, seen \<union> pkey ` set (tl (service_claims s)))"
proof -
  have proto: "CHR ''/'' \<notin> set (s_proto s)"
    using assms by (auto simp: service_fields_ok_def)
  have tl: "pkey ` set (tl (service_claims s))
      = port_key (s_proto s) ` set (if s_port_to s \<noteq> 0 then [s_port s + 1 .. s_port_to s] else [])"
    by (simp add: service_claims_def pkey_def image_image)
  have ins: "insert k (f ` A) \<inter> seen \<noteq> {} \<longleftrightarrow> k \<in> seen \<or> (\<exists>p \<in> A. f p \<in> seen)"
    for k and f :: "int \<Rightarrow> string" and A by blast
  show ?thesis
  proof (cases "s_port_to s = 0")
    case True
    then show ?thesis unfolding pkey_service_claims tl by simp
  next
    case False
    then have "(if s_port_to s \<noteq> 0 then [s_port s + 1 .. s_port_to s] else []) = [s_port s + 1 .. s_port_to s]"
      by simp
    then show ?thesis
      unfolding pkey_service_claims tl claim_range_eq [OF distinct_upto proto] ins
      using False by (simp only: simp_thms if_True)
  qed
qed

lemma check_services_step:
  assumes "service_ok s"
  shows "check_services name seen (s # ss) =
     (if pkey ` set (service_claims s) \<inter> seen \<noteq> {} then Some (ErrService name (s_port s) (s_proto s))
      else check_services name (seen \<union> pkey ` set (service_claims s)) ss)"
proof -
  have f: "service_fields_ok s" and r: "\<not> range_bad s" using assms by (auto simp: service_ok_def)
  have ins: "insert (port_key (s_proto s) (s_port s)) (seen \<union> pkey ` set (tl (service_claims s)))
      = seen \<union> pkey ` set (service_claims s)"
    by (auto simp: service_claims_def pkey_def)
  show ?thesis
    using f r by (simp only: check_services.simps Let_def claim_service [OF f] split_conv ins simp_thms if_False)
qed

lemma check_services_None:
  "S \<subseteq> tcp_udp \<Longrightarrow> check_services name (pkey ` S) ss = None \<longleftrightarrow>
     list_all service_ok ss \<and> distinct (concat (map service_claims ss))
     \<and> set (concat (map service_claims ss)) \<inter> S = {}"
proof (induction ss arbitrary: S)
  case (Cons s ss)
  show ?case
  proof (cases "service_ok s")
    case False
    then have "check_services name (pkey ` S) (s # ss) \<noteq> None"
      by (auto simp: service_ok_def Let_def split: prod.splits)
    with False show ?thesis by auto
  next
    case True
    then have inn: "set (service_claims s) \<subseteq> tcp_udp" by (auto simp: service_ok_def dest: service_claims_in)
    then have U: "S \<union> set (service_claims s) \<subseteq> tcp_udp" using Cons.prems by simp
    have dis: "pkey ` set (service_claims s) \<inter> pkey ` S = {} \<longleftrightarrow> set (service_claims s) \<inter> S = {}"
      using inj_on_image_Int [OF inj_on_pkey inn Cons.prems] by auto
    have step: "check_services name (pkey ` S) (s # ss) = (if set (service_claims s) \<inter> S \<noteq> {}
        then Some (ErrService name (s_port s) (s_proto s))
        else check_services name (pkey ` (S \<union> set (service_claims s))) ss)"
      unfolding check_services_step [OF True] dis by (simp only: image_Un)
    show ?thesis
    proof (cases "set (service_claims s) \<inter> S = {}")
      case dj: True
      then have "check_services name (pkey ` S) (s # ss) = None \<longleftrightarrow> check_services name (pkey ` (S \<union> set (service_claims s))) ss = None"
        unfolding step by (simp only: simp_thms if_False)
      also note Cons.IH [OF U]
      finally show ?thesis using True distinct_service_claims [of s] dj by auto
    next
      case False
      then have "check_services name (pkey ` S) (s # ss) \<noteq> None"
        unfolding step by (simp only: simp_thms if_True option.distinct)
      with False show ?thesis by auto
    qed
  qed
qed simp

lemma check_ifaces_None:
  "check_ifaces names is = None \<longleftrightarrow>
     list_all iface_ok is \<and> distinct (map i_name is) \<and> set (map i_name is) \<inter> names = {}"
proof (induction "is" arbitrary: names)
  case (Cons i "is")
  have S: "check_services (i_name i) {} (i_services i) = None \<longleftrightarrow>
      list_all service_ok (i_services i) \<and> distinct (concat (map service_claims (i_services i)))"
    using check_services_None [of "{}" "i_name i" "i_services i"] by simp
  show ?case
  proof (cases "iface_ok i \<and> i_name i \<notin> names")
    case True
    then have "check_ifaces names (i # is) = check_ifaces (insert (i_name i) names) is"
      using S by (auto simp: iface_ok_def)
    then show ?thesis using True Cons.IH [of "insert (i_name i) names"] by auto
  next
    case False
    then have "check_ifaces names (i # is) \<noteq> None"
      using S by (auto simp: iface_ok_def split: option.splits)
    then show ?thesis using False by auto
  qed
qed simp

text \<open>C2. A host configuration passes \<open>Validate\<close> exactly when every interface and service is
  valid alone, interface names are unique, and within an interface no protocol and port is
  published twice, the ports inside ranges included.\<close>
theorem host_validate_iff: "host_validate c = None \<longleftrightarrow> host_ok c"
  by (simp add: host_validate_def host_ok_def check_ifaces_None)

end
