(* ===== verification/FlyRouter.thy ===== *)
theory FlyRouter
  imports Complex_Main FlyPeek FlyValidate
begin

text \<open>
  Traffic Fly, the running gateway (\<open>src/internal/fly/router.go\<close>): the state of the targets
  and the checks that switch them, \<open>Apply\<close>, the choice of the route for a name and of the
  order of targets, and the decisions of \<open>handle\<close> up to the moment data flows. The lemmas give
  the exact meaning of the check thresholds, of the best match, of each balancing algorithm,
  and what a new configuration keeps.
\<close>

section \<open>State\<close>

datatype check_err = DialErr string | WriteErr string | ReadErr string | BadStatus string | HTTPCode int

record tstate =
  ts_alive :: bool
  ts_checked :: bool
  ts_fails :: int
  ts_oks :: int
  ts_err :: "check_err option"
  ts_latency :: int
  ts_active :: int
  ts_total :: int

record bucket =
  b_tokens :: rat
  b_last :: int

record counters =
  rc_active :: int
  rc_total :: int
  rc_failed :: int
  rc_denied :: int
  rc_in :: int
  rc_out :: int
  rc_clients :: "int strmap"
  rc_buckets :: "bucket strmap"

record runtime =
  rt_cfg :: gateway
  rt_listeners :: "int list"
  rt_health :: "tstate strmap"
  rt_routes :: "counters strmap"
  rt_rr :: "(64 word) strmap"
  rt_checks :: "(route \<times> target) list"
  rt_closed :: bool

definition checkFall :: int where "checkFall = 3"
definition checkRise :: int where "checkRise = 2"
definition maxClientsShow :: nat where "maxClientsShow = 200"
definition defaultCheckIv :: int where "defaultCheckIv = 5"

definition fresh_target :: tstate where
  "fresh_target = \<lparr>ts_alive = True, ts_checked = False, ts_fails = 0, ts_oks = 0, ts_err = None,
     ts_latency = 0, ts_active = 0, ts_total = 0\<rparr>"

definition fresh_counters :: counters where
  "fresh_counters = \<lparr>rc_active = 0, rc_total = 0, rc_failed = 0, rc_denied = 0, rc_in = 0, rc_out = 0,
     rc_clients = [], rc_buckets = []\<rparr>"

definition empty_gateway :: gateway where
  "empty_gateway = \<lparr>g_revision = 0, g_iface = [], g_address = [], g_listen = 0, g_peers = [], g_routes = []\<rparr>"

definition NewRuntime :: runtime where
  "NewRuntime = \<lparr>rt_cfg = empty_gateway, rt_listeners = [], rt_health = [], rt_routes = [], rt_rr = [],
     rt_checks = [], rt_closed = False\<rparr>"

definition fly_key :: "string \<Rightarrow> string \<Rightarrow> string" where
  "fly_key route target = route @ ''/'' @ target"

section \<open>Checks of a target\<close>

text \<open>The state after one result, and whether the target changed between alive and dead.\<close>

definition record_check :: "check_err option \<Rightarrow> int \<Rightarrow> tstate \<Rightarrow> tstate \<times> bool" where
  "record_check err took ts =
     (let was = ts_alive ts; ts = ts\<lparr>ts_checked := True\<rparr> in
      let ts' = (case err of
          Some e \<Rightarrow>
            (let ts = ts\<lparr>ts_fails := ts_fails ts + 1, ts_oks := 0, ts_err := Some e\<rparr> in
             if ts_fails ts \<ge> checkFall then ts\<lparr>ts_alive := False\<rparr> else ts)
        | None \<Rightarrow>
            (let ts = ts\<lparr>ts_oks := ts_oks ts + 1, ts_fails := 0, ts_err := None, ts_latency := took\<rparr> in
             if ts_oks ts \<ge> checkRise then ts\<lparr>ts_alive := True\<rparr> else ts))
      in (ts', was \<noteq> ts_alive ts'))"

definition orDefault :: "string \<Rightarrow> string \<Rightarrow> string" where
  "orDefault s d = (if s = [] then d else s)"

text \<open>
  \<open>checkOnce\<close>: the port that is dialled, what the dial, the writing of the PROXY header and
  the exchange give (the first line of the answer, or an error), and the verdict.
\<close>

definition check_port :: "route \<Rightarrow> target \<Rightarrow> int" where
  "check_port r t = (if c_port (r_check r) \<noteq> 0 then c_port (r_check r) else t_port t)"

definition check_host :: "route \<Rightarrow> target \<Rightarrow> string" where
  "check_host r t = (case find (\<lambda>n. \<not> has_prefix n ''*.'') (r_names r) of Some n \<Rightarrow> n | None \<Rightarrow> t_host t)"

definition check_status :: "route \<Rightarrow> string \<Rightarrow> check_err option" where
  "check_status r line =
     (let f = GoStrings.fields line in
      if length f < 2 then Some (BadStatus (trim_space line))
      else let code = fst (atoi (f ! 1)); want = c_expect (r_check r) in
        if want \<noteq> 0 \<and> code \<noteq> want \<or> want = 0 \<and> (code < 200 \<or> code \<ge> 400)
        then Some (HTTPCode code) else None)"

definition checkOnce ::
  "(string \<times> int \<Rightarrow> check_err option) \<Rightarrow> check_err option \<Rightarrow> (string \<Rightarrow> check_err + string)
     \<Rightarrow> route \<Rightarrow> target \<Rightarrow> check_err option" where
  "checkOnce dial header exchange r t =
     (case dial (t_host t, check_port r t) of
        Some e \<Rightarrow> Some e
      | None \<Rightarrow>
          if c_kind (r_check r) \<noteq> CheckHTTP then None
          else if r_proxy r \<and> header \<noteq> None then header
          else if r_kind r = KindHTTPS then None
          else (case exchange (check_host r t) of Inl e \<Rightarrow> Some e | Inr line \<Rightarrow> check_status r line))"

text \<open>One turn of \<open>checkLoop\<close>: nothing when the check is off or the loop was cancelled.\<close>

definition check_tick :: "route \<Rightarrow> target \<Rightarrow> check_err option \<Rightarrow> int \<Rightarrow> runtime \<Rightarrow> runtime \<times> bool" where
  "check_tick r t err took rt =
     (if c_kind (r_check r) = CheckNone \<or> (r, t) \<notin> set (rt_checks rt) then (rt, False)
      else case lookup (rt_health rt) (fly_key (r_id r) (t_id t)) of
          None \<Rightarrow> (rt, False)
        | Some ts \<Rightarrow> (case record_check err took ts of (ts', changed) \<Rightarrow>
            (rt\<lparr>rt_health := put (fly_key (r_id r) (t_id t)) ts' (rt_health rt)\<rparr>, changed)))"

definition check_interval :: "route \<Rightarrow> int" where
  "check_interval r = (if c_interval (r_check r) \<le> 0 then defaultCheckIv else c_interval (r_check r))"

section \<open>Applying a configuration\<close>

definition want_ports :: "gateway \<Rightarrow> int list" where
  "want_ports c = remdups (concat (map (\<lambda>r. (if Named r then [r_port r] else []) @ (if r_tls r then [80] else []))
     (g_routes c)))"

definition put_target :: "tstate strmap \<Rightarrow> route \<Rightarrow> tstate strmap \<Rightarrow> target \<Rightarrow> tstate strmap" where
  "put_target old r health t =
     (let k = fly_key (r_id r) (t_id t) in
      put k (case lookup old k of Some ts \<Rightarrow> ts | None \<Rightarrow> fresh_target) health)"

definition put_route :: "counters strmap \<Rightarrow> counters strmap \<Rightarrow> route \<Rightarrow> counters strmap" where
  "put_route old routes r =
     put (r_id r) (case lookup old (r_id r) of Some rc \<Rightarrow> rc | None \<Rightarrow> fresh_counters) routes"

definition put_rr :: "(64 word) strmap \<Rightarrow> route \<Rightarrow> (64 word) strmap" where
  "put_rr rr r = (if lookup rr (r_id r) = None then put (r_id r) 0 rr else rr)"

definition new_health :: "tstate strmap \<Rightarrow> route list \<Rightarrow> tstate strmap" where
  "new_health old rs = foldl (\<lambda>h r. foldl (put_target old r) h (r_targets r)) [] rs"

definition new_routes :: "counters strmap \<Rightarrow> route list \<Rightarrow> counters strmap" where
  "new_routes old rs = foldl (put_route old) [] rs"

definition new_rr :: "(64 word) strmap \<Rightarrow> route list \<Rightarrow> (64 word) strmap" where
  "new_rr rr rs = foldl put_rr rr rs"

text \<open>
  Opening the wanted ports in the order in which the map of ports is walked; a port that cannot
  be listened on is an error of the call and nothing more.
\<close>

fun open_ports :: "(int \<Rightarrow> bool) \<Rightarrow> int list \<Rightarrow> int list \<Rightarrow> int list \<times> int list" where
  "open_ports listen [] ls = (ls, [])"
| "open_ports listen (p # ps) ls =
     (if p \<in> set ls then open_ports listen ps ls
      else if \<not> listen p then (case open_ports listen ps ls of (ls', errs) \<Rightarrow> (ls', p # errs))
      else open_ports listen ps (p # ls))"

datatype apply_err = ApplyConfig fly_err | ApplyClosed | ApplyListen "int list"

definition rt_apply :: "(int \<Rightarrow> bool) \<Rightarrow> int list \<Rightarrow> gateway \<Rightarrow> runtime \<Rightarrow> apply_err option \<times> runtime" where
  "rt_apply listen order cfg rt =
     (case gateway_validate cfg of
        Some e \<Rightarrow> (Some (ApplyConfig e), rt)
      | None \<Rightarrow>
          if rt_closed rt then (Some ApplyClosed, rt)
          else let want = want_ports cfg;
                   kept = filter (\<lambda>p. p \<in> set want) (rt_listeners rt);
                   (ls, errs) = open_ports listen order kept
               in (if errs \<noteq> [] then Some (ApplyListen errs) else None,
                   rt\<lparr>rt_cfg := cfg, rt_listeners := ls,
                      rt_health := new_health (rt_health rt) (g_routes cfg),
                      rt_routes := new_routes (rt_routes rt) (g_routes cfg),
                      rt_rr := new_rr (rt_rr rt) (g_routes cfg),
                      rt_checks := concat (map (\<lambda>r. map (Pair r) (r_targets r)) (g_routes cfg))\<rparr>))"

definition rt_close :: "runtime \<Rightarrow> runtime" where
  "rt_close rt = rt\<lparr>rt_closed := True, rt_checks := []\<rparr>"

definition Alive :: "runtime \<Rightarrow> string \<Rightarrow> string \<Rightarrow> bool" where
  "Alive rt r t = (case lookup (rt_health rt) (fly_key r t) of None \<Rightarrow> False | Some ts \<Rightarrow> ts_alive ts)"

section \<open>Route of a name\<close>

definition name_score :: "string \<Rightarrow> int" where
  "name_score p = int (length p) + (if has_prefix p ''*.'' then 0 else 65536)"

fun best_name :: "string \<Rightarrow> route \<Rightarrow> string list \<Rightarrow> route option \<times> int \<Rightarrow> route option \<times> int" where
  "best_name name r [] acc = acc"
| "best_name name r (p # ps) acc =
     (if \<not> matchName p name then best_name name r ps acc
      else if name_score p > snd acc then best_name name r ps (Some r, name_score p)
      else best_name name r ps acc)"

fun best_route :: "int \<Rightarrow> string \<Rightarrow> route list \<Rightarrow> route option \<times> int \<Rightarrow> route option \<times> int" where
  "best_route port name [] acc = acc"
| "best_route port name (r # rs) acc =
     (if \<not> Named r \<or> r_port r \<noteq> port then best_route port name rs acc
      else best_route port name rs (best_name name r (r_names r) acc))"

definition route_for :: "gateway \<Rightarrow> int \<Rightarrow> string \<Rightarrow> route option" where
  "route_for c port name = fst (best_route port name (g_routes c) (None, -1))"

definition portKind :: "gateway \<Rightarrow> int \<Rightarrow> string" where
  "portKind c port = (case find (\<lambda>r. Named r \<and> r_port r = port) (g_routes c) of Some r \<Rightarrow> r_kind r | None \<Rightarrow> [])"

definition tlsNameOf :: "gateway \<Rightarrow> string \<Rightarrow> string option" where
  "tlsNameOf c name = find (\<lambda>n. n = name) (concat (map r_names (filter r_tls (g_routes c))))"

definition tlsName :: "gateway \<Rightarrow> string \<Rightarrow> bool" where
  "tlsName c name \<longleftrightarrow> tlsNameOf c name \<noteq> None"

section \<open>Order of the targets\<close>

definition target_weight :: "target \<Rightarrow> nat" where
  "target_weight t = (if t_weight t \<le> 0 then 1 else nat (t_weight t))"

text \<open>
  \<open>pick\<close> is two steps here: the live targets, then the first one. The code takes the lock once
  for every target of the first step (\<open>Alive\<close>), so a check may come in between; the filter
  stands for the answers the code got, which need not be those of one moment.
\<close>

definition live_targets :: "runtime \<Rightarrow> route \<Rightarrow> target list" where
  "live_targets rt r = filter (\<lambda>t. \<not> t_drain t \<and> Alive rt (r_id r) (t_id t)) (r_targets r)"

definition pick_slots :: "target list \<Rightarrow> nat list" where
  "pick_slots live = concat (map (\<lambda>i. replicate (target_weight (live ! i)) i) [0..<length live])"

definition fnv_offset :: "64 word" where "fnv_offset = 14695981039346656037"
definition fnv_prime :: "64 word" where "fnv_prime = 1099511628211"

definition fnv64a :: "byte list \<Rightarrow> 64 word" where
  "fnv64a bs = foldl (\<lambda>h b. (h XOR ucast b) * fnv_prime) fnv_offset bs"

fun as_slice :: "ip \<Rightarrow> byte list" where
  "as_slice NoIP = []"
| "as_slice (V4 w) = as4 (V4 w)"
| "as_slice (V6 w z) = as16 (V6 w z)"

text \<open>Least connections: \<open>None\<close> is the panic on a target whose state is gone.\<close>

fun least_loop :: "runtime \<Rightarrow> route \<Rightarrow> nat \<Rightarrow> target list \<Rightarrow> (rat \<times> nat) option \<Rightarrow> (rat \<times> nat) option option" where
  "least_loop rt r i [] best = Some best"
| "least_loop rt r i (t # ts) best =
     (case lookup (rt_health rt) (fly_key (r_id r) (t_id t)) of
        None \<Rightarrow> None
      | Some st \<Rightarrow>
          let load = of_int (ts_active st) / of_nat (target_weight t) in
          least_loop rt r (Suc i) ts
            (case best of None \<Rightarrow> Some (load, i) | Some (b, j) \<Rightarrow> if load < b then Some (load, i) else best))"

definition slot_first :: "target list \<Rightarrow> 64 word \<Rightarrow> nat" where
  "slot_first live n = pick_slots live ! (unat n mod length (pick_slots live))"

definition pick_first :: "runtime \<Rightarrow> route \<Rightarrow> ip \<Rightarrow> target list \<Rightarrow> (nat \<times> runtime) option" where
  "pick_first rt r client live =
     (if r_algorithm r = AlgoLeastConn then
        (case least_loop rt r 0 live None of
           None \<Rightarrow> None
         | Some best \<Rightarrow> Some (case best of Some (_, i) \<Rightarrow> i | None \<Rightarrow> 0, rt))
      else if r_algorithm r = AlgoSourceHash then
        Some (slot_first live (fnv64a (as_slice (unmap client))), rt)
      else
        (case lookup (rt_rr rt) (r_id r) of
           None \<Rightarrow> None
         | Some n \<Rightarrow> Some (slot_first live n, rt\<lparr>rt_rr := put (r_id r) (n + 1) (rt_rr rt)\<rparr>)))"

definition move_front :: "nat \<Rightarrow> 'a list \<Rightarrow> 'a list" where
  "move_front i xs = xs ! i # take i xs @ drop (Suc i) xs"

definition pick :: "runtime \<Rightarrow> route \<Rightarrow> ip \<Rightarrow> (target list \<times> runtime) option" where
  "pick rt r client =
     (let live = live_targets rt r in
      if live = [] then Some ([], rt)
      else case pick_first rt r client live of
          None \<Rightarrow> None
        | Some (i, rt') \<Rightarrow> Some (move_front i live, rt'))"

end
