(* ===== verification/FlyRouting.thy ===== *)
theory FlyRouting
  imports FlyRouter "HOL-Library.Multiset"
begin

text \<open>
  What the running gateway guarantees: the check thresholds as a statement about the history of
  a target, the best match among the names of a port, the balancing algorithms, and what a new
  configuration keeps of the old state.
\<close>

section \<open>The thresholds of the checks\<close>

type_synonym outcome = "check_err option \<times> int"

definition run_checks :: "outcome list \<Rightarrow> tstate" where
  "run_checks h = foldl (\<lambda>ts (e, took). fst (record_check e took ts)) fresh_target h"

definition failed :: "outcome \<Rightarrow> bool" where
  "failed x \<longleftrightarrow> fst x \<noteq> None"

definition down_since :: "bool list \<Rightarrow> bool" where
  "down_since bs \<longleftrightarrow> (\<exists>a b. bs = a @ [True, True, True] @ b \<and> \<not> sublist [False, False] b)"

definition ends_with :: "bool \<Rightarrow> bool list \<Rightarrow> nat" where
  "ends_with v bs = length (takeWhile (\<lambda>x. x = v) (rev bs))"

lemma ends_with_snoc [simp]: "ends_with v (bs @ [x]) = (if x = v then Suc (ends_with v bs) else 0)"
  by (simp add: ends_with_def)

lemma ends_with_pos: "0 < ends_with v bs \<longleftrightarrow> (\<exists>b. bs = b @ [v])"
  by (cases bs rule: rev_cases) (auto simp: ends_with_def)

lemma ends_with_2: "2 \<le> ends_with v bs \<longleftrightarrow> (\<exists>b. bs = b @ [v, v])"
proof (cases bs rule: rev_cases)
  case (snoc b x)
  then have "2 \<le> ends_with v bs \<longleftrightarrow> x = v \<and> 0 < ends_with v b" by (auto simp: Suc_le_eq)
  then show ?thesis using snoc ends_with_pos [of v b] by auto
qed (simp add: ends_with_def)

lemma down_since_fail:
  "down_since (bs @ [True]) \<longleftrightarrow> down_since bs \<or> (\<exists>b. bs = b @ [True, True])"
proof
  assume "down_since (bs @ [True])"
  then obtain a b where ab: "bs @ [True] = a @ [True, True, True] @ b" "\<not> sublist [False, False] b"
    by (auto simp: down_since_def)
  show "down_since bs \<or> (\<exists>b. bs = b @ [True, True])"
  proof (cases b rule: rev_cases)
    case Nil
    then show ?thesis using ab(1) by simp
  next
    case (snoc b' x)
    then have "bs = a @ [True, True, True] @ b'" "\<not> sublist [False, False] b'"
      using ab by (auto simp: sublist_snoc)
    then show ?thesis by (auto simp: down_since_def)
  qed
next
  assume "down_since bs \<or> (\<exists>b. bs = b @ [True, True])"
  then show "down_since (bs @ [True])"
  proof
    assume "down_since bs"
    then obtain a b where "bs = a @ [True, True, True] @ b" "\<not> sublist [False, False] b"
      by (auto simp: down_since_def)
    then have "bs @ [True] = a @ [True, True, True] @ (b @ [True])" "\<not> sublist [False, False] (b @ [True])"
      by (auto simp: sublist_snoc)
    then show ?thesis unfolding down_since_def by blast
  next
    assume "\<exists>b. bs = b @ [True, True]"
    then obtain b where "bs @ [True] = b @ [True, True, True] @ []" by auto
    moreover have "\<not> sublist [False, False] []" by simp
    ultimately show ?thesis unfolding down_since_def by blast
  qed
qed

lemma down_since_ok:
  "down_since (bs @ [False]) \<longleftrightarrow> down_since bs \<and> \<not> (\<exists>b. bs = b @ [False])"
proof
  assume "down_since (bs @ [False])"
  then obtain a b where ab: "bs @ [False] = a @ [True, True, True] @ b" "\<not> sublist [False, False] b"
    by (auto simp: down_since_def)
  then obtain b' where b: "b = b' @ [False]"
    by (cases b rule: rev_cases) auto
  then have bs: "bs = a @ [True, True, True] @ b'" and sub: "\<not> sublist [False, False] b'"
    and last: "\<not> suffix [False, False] (b' @ [False])"
    using ab by (auto simp: sublist_snoc)
  have noF: "b' \<noteq> c @ [False]" for c
    using last by (auto simp: suffix_def)
  have "\<not> (\<exists>c. bs = c @ [False])"
  proof
    assume "\<exists>c. bs = c @ [False]"
    then obtain c where "a @ [True, True, True] @ b' = c @ [False]" using bs by auto
    then show False using noF by (cases b' rule: rev_cases) auto
  qed
  then show "down_since bs \<and> \<not> (\<exists>b. bs = b @ [False])"
    using bs sub by (auto simp: down_since_def)
next
  assume "down_since bs \<and> \<not> (\<exists>b. bs = b @ [False])"
  then obtain a b where ab: "bs = a @ [True, True, True] @ b" "\<not> sublist [False, False] b"
    and last: "\<not> (\<exists>b. bs = b @ [False])"
    by (auto simp: down_since_def)
  have "\<not> suffix [False, False] (b @ [False])"
  proof
    assume "suffix [False, False] (b @ [False])"
    then obtain c where "b = c @ [False]" by (auto simp: suffix_def)
    then show False using ab(1) last by auto
  qed
  then have "bs @ [False] = a @ [True, True, True] @ (b @ [False])" "\<not> sublist [False, False] (b @ [False])"
    using ab by (auto simp: sublist_snoc)
  then show "down_since (bs @ [False])" unfolding down_since_def by blast
qed

lemma run_checks_state:
  "ts_fails (run_checks h) = int (ends_with True (map failed h))
   \<and> ts_oks (run_checks h) = int (ends_with False (map failed h))
   \<and> (ts_alive (run_checks h) \<longleftrightarrow> \<not> down_since (map failed h))"
proof (induction h rule: rev_induct)
  case Nil
  show ?case by (simp add: run_checks_def fresh_target_def ends_with_def down_since_def)
next
  case (snoc x h)
  obtain e took where x: "x = (e, took)" by (cases x)
  define bs where "bs = map failed h"
  have step: "run_checks (h @ [x]) = fst (record_check e took (run_checks h))"
    by (simp add: run_checks_def x)
  have IH: "ts_fails (run_checks h) = int (ends_with True bs)" "ts_oks (run_checks h) = int (ends_with False bs)"
    "ts_alive (run_checks h) \<longleftrightarrow> \<not> down_since bs"
    using snoc by (simp_all add: bs_def)
  have m: "map failed (h @ [x]) = bs @ [e \<noteq> None]" by (simp add: bs_def failed_def x)
  have two: "2 \<le> ts_oks (run_checks h) + 1 \<longleftrightarrow> (\<exists>b. bs = b @ [False])"
    using IH(2) ends_with_pos [of False bs] by auto
  have three: "3 \<le> ts_fails (run_checks h) + 1 \<longleftrightarrow> (\<exists>b. bs = b @ [True, True])"
    using IH(1) ends_with_2 [of True bs] by auto
  show ?case
    unfolding step m using IH two three
    by (cases e) (auto simp: record_check_def Let_def checkRise_def checkFall_def down_since_ok down_since_fail)
qed

text \<open>C6. The thresholds mean what they say: after any history of checks a target is dead exactly
  when three consecutive checks failed at some point and no two consecutive checks succeeded
  after them. (\<open>failed\<close> marks a failed check with \<open>True\<close>.)\<close>
theorem alive_iff_history:
  "\<not> ts_alive (run_checks h) \<longleftrightarrow>
     (\<exists>a b. map failed h = a @ [True, True, True] @ b \<and> \<not> sublist [False, False] b)"
  using run_checks_state [of h] by (simp add: down_since_def)

section \<open>The best name\<close>

definition claims_name :: "gateway \<Rightarrow> int \<Rightarrow> string \<Rightarrow> route \<Rightarrow> bool" where
  "claims_name c port p r \<longleftrightarrow> r \<in> set (g_routes c) \<and> Named r \<and> r_port r = port \<and> p \<in> set (r_names r)"

definition cands :: "int \<Rightarrow> string \<Rightarrow> route list \<Rightarrow> (route \<times> string) list" where
  "cands port name rs = concat (map (\<lambda>r. map (Pair r) (filter (\<lambda>p. matchName p name) (r_names r)))
     (filter (\<lambda>r. Named r \<and> r_port r = port) rs))"

definition better :: "route option \<times> int \<Rightarrow> route \<times> string \<Rightarrow> route option \<times> int" where
  "better acc x = (if name_score (snd x) > snd acc then (Some (fst x), name_score (snd x)) else acc)"

lemma best_name_fold: "best_name name r ps acc = foldl better acc (map (Pair r) (filter (\<lambda>p. matchName p name) ps))"
  by (induction name r ps acc rule: best_name.induct) (auto simp: better_def)

lemma best_route_fold: "best_route port name rs acc = foldl better acc (cands port name rs)"
  by (induction port name rs acc rule: best_route.induct) (auto simp: cands_def best_name_fold)

lemma foldl_better:
  assumes "foldl better acc xs = (res, l)"
  shows "snd acc \<le> l \<and> (\<forall>x \<in> set xs. name_score (snd x) \<le> l)
     \<and> ((res, l) = acc \<or> (\<exists>x \<in> set xs. res = Some (fst x) \<and> l = name_score (snd x)))"
  using assms
proof (induction xs arbitrary: acc)
  case (Cons x xs)
  then have "foldl better (better acc x) xs = (res, l)" by simp
  from Cons.IH [OF this] show ?case
    by (auto simp: better_def split: if_splits)
qed auto

lemma name_score_nonneg: "0 \<le> name_score p"
  by (simp add: name_score_def)

lemma in_cands: "(r, p) \<in> set (cands port name (g_routes c)) \<longleftrightarrow> claims_name c port p r \<and> matchName p name"
  by (auto simp: cands_def claims_name_def)

lemma route_for_None: "route_for c port name = None \<longleftrightarrow> (\<forall>p r. claims_name c port p r \<longrightarrow> \<not> matchName p name)"
proof -
  obtain res l where f: "foldl better (None, -1) (cands port name (g_routes c)) = (res, l)"
    by (metis surj_pair)
  have "res = None \<longleftrightarrow> cands port name (g_routes c) = []"
  proof (cases "cands port name (g_routes c)")
    case (Cons x xs)
    then have "name_score (snd x) \<le> l" using foldl_better [OF f] by simp
    then have "l \<noteq> -1" using name_score_nonneg [of "snd x"] by simp
    then show ?thesis using foldl_better [OF f] Cons by auto
  qed (use f in simp)
  also have "\<dots> \<longleftrightarrow> (\<forall>p r. claims_name c port p r \<longrightarrow> \<not> matchName p name)"
    using in_cands [of _ _ port name c] by (metis list.set_intros(1) list.set_cases neq_Nil_conv set_empty surj_pair empty_iff)
  finally show ?thesis by (simp add: route_for_def best_route_fold f)
qed

lemma claims_name_unique:
  assumes "gateway_ok c" "claims_name c port p r" "claims_name c port p r'"
  shows "r = r'"
proof -
  have dist: "distinct (name_claims (g_routes c))"
    using assms(1) by (simp add: gateway_ok_def routes_ok_def)
  have ids: "inj_on r_id (set (g_routes c))"
    using assms(1) by (simp add: gateway_ok_def routes_ok_def distinct_map)
  define f :: "route \<Rightarrow> (int \<times> string) list" where "f = (\<lambda>r. map (Pair (r_port r)) (r_names r))"
  define rs where "rs = filter Named (g_routes c)"
  have in1: "r \<in> set rs" "r' \<in> set rs" using assms(2,3) by (auto simp: rs_def claims_name_def)
  have mem: "(port, p) \<in> set (f r)" "(port, p) \<in> set (f r')"
    using assms(2,3) by (auto simp: f_def claims_name_def)
  have d: "distinct (concat (map f rs))" using dist by (simp add: name_claims_def f_def rs_def)
  have "distinct (concat (map f xs)) \<Longrightarrow> distinct xs \<Longrightarrow> r \<in> set xs \<Longrightarrow> r' \<in> set xs \<Longrightarrow> r = r'" for xs
    using mem by (induction xs) auto
  moreover have "distinct rs"
    using assms(1) by (auto simp: gateway_ok_def routes_ok_def rs_def distinct_map intro: distinct_filter)
  ultimately show ?thesis using d in1 by blast
qed

lemma matchName_exact_eq: "matchName p n \<Longrightarrow> \<not> has_prefix p ''*.'' \<Longrightarrow> p = n"
  by (simp add: matchName_def)

lemma matchName_length: "matchName p n \<Longrightarrow> has_prefix p ''*.'' \<Longrightarrow> length p \<le> length n"
  by (auto simp: matchName_def)

lemma wildcards_same_length:
  assumes "matchName p n" "matchName q n" "has_prefix p ''*.''" "has_prefix q ''*.''" "length p = length q"
  shows "p = q"
proof -
  have "drop 1 p = drop 1 q"
    using assms by (auto simp: matchName_def has_suffix_iff)
  moreover have "hd p = hd q" "p \<noteq> []" "q \<noteq> []" using assms(3,4) by (auto simp: has_prefix_iff)
  ultimately show ?thesis by (cases p; cases q) auto
qed

definition wins :: "gateway \<Rightarrow> int \<Rightarrow> string \<Rightarrow> string \<Rightarrow> bool" where
  "wins c port name p \<longleftrightarrow> (\<forall>p' r'. claims_name c port p' r' \<and> matchName p' name \<and> p' \<noteq> p
      \<longrightarrow> has_prefix p' ''*.'' \<and> (has_prefix p ''*.'' \<longrightarrow> length p' < length p))"

lemma wins_iff_score:
  assumes "length name < 65536" "matchName p name"
  shows "wins c port name p \<longleftrightarrow> (\<forall>p' r'. claims_name c port p' r' \<and> matchName p' name \<longrightarrow> name_score p' \<le> name_score p)"
proof -
  have "(has_prefix p' ''*.'' \<and> (has_prefix p ''*.'' \<longrightarrow> length p' < length p)) \<longleftrightarrow> name_score p' \<le> name_score p"
    if "matchName p' name" "p' \<noteq> p" for p'
    using that assms matchName_exact_eq [of p' name] matchName_exact_eq [of p name]
      matchName_length [of p' name] matchName_length [of p name] wildcards_same_length [of p name p']
    by (cases "has_prefix p ''*.''"; cases "has_prefix p' ''*.''") (auto simp: name_score_def le_less)
  then show ?thesis unfolding wins_def by (metis order_refl)
qed

text \<open>C7. In a validated gateway a name goes to the route that claims its best match on that
  port: an exact name before any pattern, a longer pattern before a shorter one; the best match
  is unique, so the order of the routes does not matter.\<close>
theorem route_for_best:
  assumes "gateway_validate c = None" "length name < 65536"
  shows "route_for c port name = Some r \<longleftrightarrow>
     (\<exists>p. claims_name c port p r \<and> matchName p name \<and> wins c port name p)"
proof -
  have ok: "gateway_ok c" using assms(1) gateway_ok_iff by simp
  obtain res l where f: "foldl better (None, -1) (cands port name (g_routes c)) = (res, l)"
    by (metis surj_pair)
  have rf: "route_for c port name = res" by (simp add: route_for_def best_route_fold f)
  have max: "\<And>p r. claims_name c port p r \<Longrightarrow> matchName p name \<Longrightarrow> name_score p \<le> l"
    using foldl_better [OF f] in_cands [of _ _ port name c] by fastforce
  have hit: "\<exists>p. claims_name c port p x \<and> matchName p name \<and> l = name_score p" if "res = Some x" for x
    using foldl_better [OF f] that in_cands [of _ _ port name c] by fastforce
  show ?thesis
  proof
    assume "route_for c port name = Some r"
    then obtain p where p: "claims_name c port p r" "matchName p name" "l = name_score p"
      using rf hit by auto
    then have "wins c port name p" using max wins_iff_score [OF assms(2) p(2)] by metis
    with p show "\<exists>p. claims_name c port p r \<and> matchName p name \<and> wins c port name p" by blast
  next
    assume "\<exists>p. claims_name c port p r \<and> matchName p name \<and> wins c port name p"
    then obtain p where p: "claims_name c port p r" "matchName p name" "wins c port name p" by blast
    then have "res \<noteq> None" using rf route_for_None [of c port name] by auto
    then obtain x where x: "res = Some x" by blast
    then obtain q where q: "claims_name c port q x" "matchName q name" "l = name_score q" using hit by blast
    then have "wins c port name q" using max wins_iff_score [OF assms(2) q(2)] by metis
    have "q = p"
    proof (rule ccontr)
      assume "q \<noteq> p"
      then show False using p q \<open>wins c port name q\<close> unfolding wins_def
        by (metis less_asym matchName_exact_eq)
    qed
    then show "route_for c port name = Some r"
      using claims_name_unique [OF ok p(1)] q x rf by simp
  qed
qed

end
