(* ===== verification/FlyBalance.thy ===== *)
theory FlyBalance
  imports FlyRouting
begin

text \<open>
  Balancing and reconfiguration of the gateway (\<open>pick\<close> and \<open>Apply\<close> of
  \<open>src/internal/fly/router.go\<close>): the order of the targets is a permutation of the live ones,
  least connections picks a minimum, round robin is exact over a window of the weights, and
  \<open>Apply\<close> keeps the state of everything that stays.
\<close>

section \<open>The slots\<close>

lemma target_weight_pos [simp]: "0 < target_weight t"
  by (simp add: target_weight_def)

lemma pick_slots_bound: "i \<in> set (pick_slots live) \<Longrightarrow> i < length live"
  by (auto simp: pick_slots_def)

lemma pick_slots_targets:
  "map ((!) live) (pick_slots live) = concat (map (\<lambda>t. replicate (target_weight t) t) live)"
proof -
  have "map ((!) live) (pick_slots live) = concat (map (\<lambda>i. replicate (target_weight (live ! i)) (live ! i)) [0..<length live])"
    by (simp add: pick_slots_def map_concat comp_def)
  also have "\<dots> = concat (map (\<lambda>t. replicate (target_weight t) t) (map ((!) live) [0..<length live]))"
    by (simp add: comp_def)
  finally show ?thesis by (simp add: map_nth)
qed

definition total_weight :: "target list \<Rightarrow> nat" where
  "total_weight live = sum_list (map target_weight live)"

lemma length_pick_slots: "length (pick_slots live) = total_weight live"
  using arg_cong [OF pick_slots_targets [of live], of length]
  by (simp add: length_concat comp_def total_weight_def)

lemma total_weight_pos: "live \<noteq> [] \<Longrightarrow> 0 < total_weight live"
  by (cases live) (auto simp: total_weight_def)

lemma slot_first_bound: "live \<noteq> [] \<Longrightarrow> slot_first live n < length live"
  using total_weight_pos [of live]
  by (auto simp: slot_first_def length_pick_slots [symmetric] intro!: pick_slots_bound)

section \<open>A permutation of the live targets\<close>

lemma mset_move_front: "i < length xs \<Longrightarrow> mset (move_front i xs) = mset xs"
  using id_take_nth_drop [of i xs] by (simp add: move_front_def) (metis mset_append mset.simps(2) union_mset_add_mset_right)

lemma least_loop_spec:
  assumes "least_loop rt r i ts best = Some res" "\<And>b j. best = Some (b, j) \<Longrightarrow> j < i"
  shows "(\<exists>l j. res = Some (l, j) \<and> j < i + length ts) \<or> (res = None \<and> best = None \<and> ts = [])"
  using assms
proof (induction rt r i ts best rule: least_loop.induct)
  case (2 rt r i t ts best)
  obtain st where st: "lookup (rt_health rt) (fly_key (r_id r) (t_id t)) = Some st"
    using "2.prems"(1) by (auto split: option.splits)
  define load :: rat where "load = of_int (ts_active st) / of_nat (target_weight t)"
  define best' where "best' = (case best of None \<Rightarrow> Some (load, i)
      | Some (b, j) \<Rightarrow> if load < b then Some (load, i) else best)"
  have step: "least_loop rt r (Suc i) ts best' = Some res"
    using "2.prems"(1) unfolding best'_def load_def by (simp add: st Let_def)
  have "\<And>b j. best' = Some (b, j) \<Longrightarrow> j < Suc i" "best' \<noteq> None"
    using "2.prems"(2) by (auto simp: best'_def split: option.splits if_splits intro: less_SucI)
  with "2.IH" [OF st load_def] step show ?case
    unfolding best'_def by auto
qed auto

lemma pick_first_bound:
  assumes "live \<noteq> []" "pick_first rt r client live = Some (i, rt')"
  shows "i < length live"
proof (cases "r_algorithm r = AlgoLeastConn")
  case True
  then obtain best where b: "least_loop rt r 0 live None = Some best"
      and i: "i = (case best of Some (_, i) \<Rightarrow> i | None \<Rightarrow> 0)"
    using assms(2) by (auto simp: pick_first_def split: option.splits)
  have "\<exists>l j. best = Some (l, j) \<and> j < length live"
    using least_loop_spec [OF b] assms(1) by simp
  then show ?thesis using i by auto
next
  case False
  then show ?thesis
    using assms slot_first_bound [OF assms(1)] by (auto simp: pick_first_def split: if_splits option.splits)
qed

text \<open>C8. Whatever the algorithm, the order that \<open>pick\<close> returns is a rearrangement of exactly
  the targets that are alive and not being drained: none is lost, none is tried twice.\<close>
theorem pick_permutes_live:
  assumes "pick rt r client = Some (order, rt')"
  shows "mset order = mset (live_targets rt r)"
proof (cases "live_targets rt r = []")
  case False
  then obtain i where "pick_first rt r client (live_targets rt r) = Some (i, rt')"
    "order = move_front i (live_targets rt r)"
    using assms by (auto simp: pick_def Let_def split: option.splits)
  then show ?thesis using pick_first_bound [OF False] by (simp add: mset_move_front)
qed (use assms in \<open>simp add: pick_def\<close>)

section \<open>No panic without an Apply in between\<close>

lemma least_loop_total:
  "\<forall>t \<in> set ts. lookup (rt_health rt) (fly_key (r_id r) (t_id t)) \<noteq> None \<Longrightarrow> least_loop rt r i ts best \<noteq> None"
  by (induction rt r i ts best rule: least_loop.induct) (auto simp: Let_def)

lemma live_known: "t \<in> set (live_targets rt r) \<Longrightarrow> lookup (rt_health rt) (fly_key (r_id r) (t_id t)) \<noteq> None"
  by (auto simp: live_targets_def Alive_def split: option.splits)

lemma pick_total:
  assumes "lookup (rt_rr rt) (r_id r) \<noteq> None"
  shows "pick rt r client \<noteq> None"
proof -
  have "least_loop rt r 0 (live_targets rt r) None \<noteq> None"
    using live_known by (intro least_loop_total) blast
  then show ?thesis
    using assms by (cases "r_algorithm r = AlgoLeastConn") (auto simp: pick_def pick_first_def Let_def)
qed

section \<open>Least connections\<close>

definition load_of :: "runtime \<Rightarrow> route \<Rightarrow> target \<Rightarrow> rat" where
  "load_of rt r t = (case lookup (rt_health rt) (fly_key (r_id r) (t_id t)) of
      Some st \<Rightarrow> of_int (ts_active st) / of_nat (target_weight t) | None \<Rightarrow> 0)"

lemma least_loop_min:
  assumes "least_loop rt r i ts best = Some (Some (l, j))"
  shows "(\<forall>t \<in> set ts. l \<le> load_of rt r t) \<and> (\<forall>b k. best = Some (b, k) \<longrightarrow> l \<le> b)
     \<and> (best = Some (l, j) \<or> (i \<le> j \<and> j < i + length ts \<and> l = load_of rt r (ts ! (j - i))))"
  using assms
proof (induction rt r i ts best rule: least_loop.induct)
  case (2 rt r i t ts best)
  obtain st where st: "lookup (rt_health rt) (fly_key (r_id r) (t_id t)) = Some st"
    using "2.prems" by (auto split: option.splits)
  define load where "load = load_of rt r t"
  have load: "load = of_int (ts_active st) / of_nat (target_weight t)"
    by (simp add: load_def load_of_def st)
  define best' where "best' = (case best of None \<Rightarrow> Some (load, i)
      | Some (b, j) \<Rightarrow> if load < b then Some (load, i) else best)"
  have step: "least_loop rt r (Suc i) ts best' = Some (Some (l, j))"
    using "2.prems" unfolding best'_def load by (simp add: st Let_def)
  have IH: "(\<forall>t \<in> set ts. l \<le> load_of rt r t) \<and> (\<forall>b k. best' = Some (b, k) \<longrightarrow> l \<le> b)
     \<and> (best' = Some (l, j) \<or> (Suc i \<le> j \<and> j < Suc i + length ts \<and> l = load_of rt r (ts ! (j - Suc i))))"
    using "2.IH" [OF st load] step unfolding best'_def by blast
  have b: "l \<le> load" "\<And>b k. best = Some (b, k) \<Longrightarrow> l \<le> b"
    using IH by (auto simp: best'_def split: option.splits if_splits)
  have "best = Some (l, j) \<or> (i \<le> j \<and> j < i + length (t # ts) \<and> l = load_of rt r ((t # ts) ! (j - i)))"
  proof (cases "best' = Some (l, j)")
    case True
    then have "best = Some (l, j) \<or> (j = i \<and> l = load)"
      by (auto simp: best'_def split: option.splits if_splits)
    then show ?thesis by (auto simp: load_def)
  next
    case False
    then have *: "Suc i \<le> j" "j < Suc i + length ts" "l = load_of rt r (ts ! (j - Suc i))" using IH by auto
    then have "j - i = Suc (j - Suc i)" by simp
    then show ?thesis using * by simp
  qed
  then show ?case using IH b by (simp add: load_def)
qed auto

text \<open>Under \<open>leastconn\<close> the first target has the least number of active connections per unit
  of weight among the live targets.\<close>
theorem pick_least_loaded:
  assumes "r_algorithm r = AlgoLeastConn" "pick rt r client = Some (t # rest, rt')"
  shows "t \<in> set (live_targets rt r) \<and> (\<forall>u \<in> set (live_targets rt r). load_of rt r t \<le> load_of rt r u)"
proof -
  define live where "live = live_targets rt r"
  have ne: "live \<noteq> []" using assms(2) by (auto simp: pick_def live_def)
  then obtain best where b: "least_loop rt r 0 live None = Some best"
    and o: "t # rest = move_front (case best of Some (_, i) \<Rightarrow> i | None \<Rightarrow> 0) live"
    using assms by (auto simp: pick_def pick_first_def live_def Let_def split: option.splits)
  obtain l j where best: "best = Some (l, j)" using least_loop_spec [OF b] ne by auto
  have m: "\<forall>t \<in> set live. l \<le> load_of rt r t" "j < length live" "l = load_of rt r (live ! j)"
    using least_loop_min [OF b [unfolded best]] by auto
  have "t = live ! j" using o best by (simp add: move_front_def)
  then show ?thesis using m by (simp add: live_def)
qed

section \<open>Round robin\<close>

fun pick_run :: "runtime \<Rightarrow> route \<Rightarrow> ip list \<Rightarrow> target list option" where
  "pick_run rt r [] = Some []"
| "pick_run rt r (c # cs) =
     (case pick rt r c of
        None \<Rightarrow> None
      | Some (order, rt') \<Rightarrow> map_option (Cons (hd order)) (pick_run rt' r cs))"

lemma live_targets_rr [simp]: "live_targets (rt\<lparr>rt_rr := x\<rparr>) r = live_targets rt r"
  by (simp add: live_targets_def Alive_def)

lemma pick_run_rr:
  assumes "r_algorithm r \<noteq> AlgoLeastConn" "r_algorithm r \<noteq> AlgoSourceHash" "live_targets rt r \<noteq> []"
    and "lookup (rt_rr rt) (r_id r) = Some n"
  shows "pick_run rt r cs = Some (map (\<lambda>k. live_targets rt r ! slot_first (live_targets rt r) (n + of_nat k)) [0..<length cs])"
  using assms
proof (induction cs arbitrary: rt n)
  case (Cons c cs)
  define live where "live = live_targets rt r"
  define rt' where "rt' = rt\<lparr>rt_rr := put (r_id r) (n + 1) (rt_rr rt)\<rparr>"
  have p: "pick rt r c = Some (move_front (slot_first live n) live, rt')"
    using Cons.prems by (simp add: pick_def pick_first_def Let_def live_def rt'_def)
  have "live_targets rt' r \<noteq> []" "lookup (rt_rr rt') (r_id r) = Some (n + 1)" and live': "live_targets rt' r = live"
    using Cons.prems by (simp_all add: rt'_def live_def)
  from Cons.IH [OF Cons.prems(1,2) this(1,2)]
  have "pick_run rt' r cs = Some (map (\<lambda>k. live ! slot_first live (n + 1 + of_nat k)) [0..<length cs])"
    by (simp add: live')
  moreover have "map (\<lambda>k. live ! slot_first live (n + of_nat k)) [0..<Suc (length cs)]
      = live ! slot_first live n # map (\<lambda>k. live ! slot_first live (n + 1 + of_nat k)) [0..<length cs]"
    by (subst upt_conv_Cons, simp) (simp add: map_Suc_upt [symmetric] comp_def algebra_simps del: map_Suc_upt upt_Suc)
  ultimately show ?case by (simp add: p move_front_def live_def [symmetric] del: upt_Suc)
qed simp

lemma window_rotates:
  assumes "unat n + length xs \<le> 2 ^ 64" "xs \<noteq> []"
  shows "map (\<lambda>k. xs ! (unat (n + of_nat k :: 64 word) mod length xs)) [0..<length xs] = rotate (unat n) xs"
proof (rule nth_equalityI)
  fix k assume "k < length (map (\<lambda>k. xs ! (unat (n + of_nat k :: 64 word) mod length xs)) [0..<length xs])"
  then have k: "k < length xs" by simp
  then have "unat (n + of_nat k :: 64 word) = unat n + k"
    using assms(1) by (simp add: unat_word_ariths unat_of_nat)
  then show "map (\<lambda>k. xs ! (unat (n + of_nat k :: 64 word) mod length xs)) [0..<length xs] ! k = rotate (unat n) xs ! k"
    using k by (simp add: nth_rotate)
qed simp

lemma count_weights:
  "distinct live \<Longrightarrow> t \<in> set live \<Longrightarrow> count_list (concat (map (\<lambda>t. replicate (target_weight t) t) live)) t = target_weight t"
proof (induction live)
  case (Cons u live)
  have zero: "x \<notin> set xs \<Longrightarrow> count_list (concat (map (\<lambda>t. replicate (target_weight t) t) xs)) x = 0" for x xs
    by (rule count_list_0_iff [THEN iffD2]) auto
  have rep: "count_list (replicate k u) t = (if t = u then k else 0)" for k
    by (induction k) auto
  show ?case using Cons zero [of u live] by (auto simp: rep)
qed simp

lemma count_list_rotate1: "count_list (rotate1 xs) t = count_list xs t"
  by (cases xs) auto

lemma count_list_rotate: "count_list (rotate k xs) t = count_list xs t"
  by (induction k) (auto simp: count_list_rotate1)

text \<open>C9. Round robin is exact: as long as health and configuration stay, any window of as many
  new connections as the weights add up to goes to each live target exactly as often as its
  weight says. (The 64-bit counter must not wrap inside the window.)\<close>
theorem roundrobin_fair:
  assumes "r_algorithm r = AlgoRoundRobin" "lookup (rt_rr rt) (r_id r) = Some n"
    and "live_targets rt r \<noteq> []" "distinct (live_targets rt r)"
    and "length cs = total_weight (live_targets rt r)" "unat n + length cs \<le> 2 ^ 64"
  shows "\<exists>firsts. pick_run rt r cs = Some firsts
     \<and> (\<forall>t \<in> set (live_targets rt r). count_list firsts t = target_weight t)"
proof -
  define live where "live = live_targets rt r"
  define slots where "slots = pick_slots live"
  have len: "length cs = length slots" using assms(5) by (simp add: slots_def length_pick_slots live_def)
  have ne: "slots \<noteq> []" using total_weight_pos [of live] assms(3) length_pick_slots [of live]
    by (auto simp: slots_def live_def)
  have "pick_run rt r cs = Some (map ((!) live) (map (\<lambda>k. slot_first live (n + of_nat k)) [0..<length slots]))"
    using pick_run_rr [OF _ _ assms(3,2), of cs] assms(1) len by (simp add: live_def comp_def fly_consts)
  also have "map (\<lambda>k. slot_first live (n + of_nat k)) [0..<length slots] = rotate (unat n) slots"
    using window_rotates [OF _ ne, of n] assms(6) len by (simp add: slot_first_def slots_def)
  finally have "pick_run rt r cs = Some (rotate (unat n) (map ((!) live) slots))"
    by (simp add: rotate_map)
  then show ?thesis
    using count_weights assms(4) by (simp add: count_list_rotate slots_def pick_slots_targets live_def)
qed

end
