(* ===== verification/FlyAdmit.thy ===== *)
theory FlyAdmit
  imports FlyBalance
begin

text \<open>
  Traffic Fly, what happens to one connection (\<open>admit\<close>, \<open>handle\<close>, \<open>Snapshot\<close> and \<open>topClients\<close>
  of \<open>src/internal/fly/router.go\<close>, \<open>serveTLS\<close> and the redirect of \<open>tls.go\<close>): the allow list, the limits per
  client with their token buckets, the decision up to the copying of data, the counters while
  the connection lives. Time is in nanoseconds; tokens, a \<open>float64\<close> in the code, are rationals.
\<close>

section \<open>Limits per client\<close>

definition maxBuckets :: nat where "maxBuckets = 20000"
definition second_ns :: int where "second_ns = 1000000000"
definition minute_ns :: int where "minute_ns = 60 * second_ns"

definition evict :: "int \<Rightarrow> bucket strmap \<Rightarrow> bucket strmap" where
  "evict now bs = (if length bs \<ge> maxBuckets then keep (\<lambda>_ b. \<not> now - b_last b > minute_ns) bs else bs)"

definition gain :: "int \<Rightarrow> int \<Rightarrow> rat" where
  "gain rate d = of_int d / of_int second_ns * of_int rate"

definition refill :: "int \<Rightarrow> int \<Rightarrow> bucket \<Rightarrow> bucket" where
  "refill rate now b =
     (let tokens = b_tokens b + gain rate (now - b_last b) in
      \<lparr>b_tokens = (if tokens > of_int rate then of_int rate else tokens), b_last = now\<rparr>)"

definition admit_rate :: "int \<Rightarrow> string \<Rightarrow> int \<Rightarrow> bucket strmap \<Rightarrow> bool \<times> bucket strmap" where
  "admit_rate rate ip now bs =
     (let (b, bs) = (case lookup bs ip of
          Some b \<Rightarrow> (b, bs)
        | None \<Rightarrow> (\<lparr>b_tokens = of_int rate, b_last = now\<rparr>, evict now bs));
          b = refill rate now b
      in if b_tokens b < 1 then (False, put ip b bs)
         else (True, put ip (b\<lparr>b_tokens := b_tokens b - 1\<rparr>) bs))"

definition ip_key :: "ip \<Rightarrow> string" where
  "ip_key a = addr_str (unmap a)"

definition clients_of :: "counters \<Rightarrow> string \<Rightarrow> int" where
  "clients_of rc ip = (case lookup (rc_clients rc) ip of Some n \<Rightarrow> n | None \<Rightarrow> 0)"

definition deny :: "counters \<Rightarrow> counters" where
  "deny rc = rc\<lparr>rc_denied := rc_denied rc + 1\<rparr>"

definition admit :: "route \<Rightarrow> ip \<Rightarrow> int \<Rightarrow> counters \<Rightarrow> bool \<times> counters" where
  "admit r a now rc =
     (if \<not> Allowed r a then (False, deny rc)
      else if r_max_conns r = 0 \<and> r_rate r = 0 then (True, rc)
      else let ip = ip_key a in
        if r_max_conns r > 0 \<and> clients_of rc ip \<ge> r_max_conns r then (False, deny rc)
        else if r_rate r > 0 then
          (case admit_rate (r_rate r) ip now (rc_buckets rc) of (ok, bs) \<Rightarrow>
             let rc = rc\<lparr>rc_buckets := bs\<rparr> in if ok then (True, rc) else (False, deny rc))
        else (True, rc))"

section \<open>The life of a connection\<close>

definition inc_client :: "string \<Rightarrow> counters \<Rightarrow> counters" where
  "inc_client ip rc = rc\<lparr>rc_active := rc_active rc + 1, rc_clients := put ip (clients_of rc ip + 1) (rc_clients rc)\<rparr>"

definition dec_client :: "string \<Rightarrow> counters \<Rightarrow> counters" where
  "dec_client ip rc =
     (let n = clients_of rc ip - 1 in
      rc\<lparr>rc_active := rc_active rc - 1,
         rc_clients := (if n \<le> 0 then del ip (rc_clients rc) else put ip n (rc_clients rc))\<rparr>)"

definition upd_counters :: "string \<Rightarrow> (counters \<Rightarrow> counters) \<Rightarrow> runtime \<Rightarrow> runtime" where
  "upd_counters rid f rt = (case lookup (rt_routes rt) rid of
      None \<Rightarrow> rt | Some rc \<Rightarrow> rt\<lparr>rt_routes := put rid (f rc) (rt_routes rt)\<rparr>)"

definition upd_target :: "string \<Rightarrow> (tstate \<Rightarrow> tstate) \<Rightarrow> runtime \<Rightarrow> runtime" where
  "upd_target k f rt = (case lookup (rt_health rt) k of
      None \<Rightarrow> rt | Some ts \<Rightarrow> rt\<lparr>rt_health := put k (f ts) (rt_health rt)\<rparr>)"

datatype verdict =
    VClose
  | VRedirect
  | VMisdirected
  | VDenied
  | VTLS route "target list"
  | VDial route "target list"
  | VFailed
  | VProxy route target "byte list"

text \<open>The dial loop over the first three targets.\<close>

definition dial_first :: "(target \<Rightarrow> bool) \<Rightarrow> target list \<Rightarrow> target option" where
  "dial_first dial order = find dial (take 3 order)"

definition admitted :: "route \<Rightarrow> ip \<Rightarrow> int \<Rightarrow> counters \<Rightarrow> bool \<times> counters" where
  "admitted r a now rc = (if r_tls r then (True, rc) else admit r a now rc)"

text \<open>
  \<open>handle\<close> up to the dial, and from the answer of the dial to the counters. Other connections
  run between the two: the client is looked up in the counters in the first part and counted
  in the second. \<open>None\<close> is a panic.
\<close>

definition handle_admit ::
  "int \<Rightarrow> ip \<Rightarrow> int \<Rightarrow> string option \<Rightarrow> bool \<Rightarrow> runtime \<Rightarrow> (verdict \<times> runtime) option" where
  "handle_admit port client now name acme rt =
     (case name of
        None \<Rightarrow> Some (VClose, rt)
      | Some name \<Rightarrow>
         if name = [] then Some (VClose, rt)
         else let found = route_for (rt_cfg rt) port name in
           if port = 80 \<and> portKind (rt_cfg rt) port \<noteq> KindHTTPS \<and> tlsName (rt_cfg rt) name
              \<and> (found = None \<or> acme)
           then Some (VRedirect, rt)
           else (case found of
              None \<Rightarrow> Some (if portKind (rt_cfg rt) port = KindHTTP then VMisdirected else VClose, rt)
            | Some r \<Rightarrow>
               (case lookup (rt_routes rt) (r_id r) of
                  None \<Rightarrow> Some (VClose, rt)
                | Some rc \<Rightarrow>
                   (case admitted r client now rc of
                      (False, rc') \<Rightarrow> Some (VDenied, upd_counters (r_id r) (\<lambda>_. rc') rt)
                    | (True, rc') \<Rightarrow>
                        (case pick (upd_counters (r_id r) (\<lambda>_. rc'\<lparr>rc_total := rc_total rc' + 1\<rparr>) rt) r client of
                           None \<Rightarrow> None
                         | Some (order, rt') \<Rightarrow>
                            Some (if r_tls r then VTLS r order else VDial r order, rt'))))))"

definition count_failed :: "string \<Rightarrow> runtime \<Rightarrow> runtime" where
  "count_failed rid = upd_counters rid (\<lambda>rc. rc\<lparr>rc_failed := rc_failed rc + 1\<rparr>)"

definition count_open :: "string \<Rightarrow> string \<Rightarrow> string \<Rightarrow> runtime \<Rightarrow> runtime" where
  "count_open rid tid ip rt = upd_counters rid (inc_client ip)
     (upd_target (fly_key rid tid) (\<lambda>ts. ts\<lparr>ts_active := ts_active ts + 1, ts_total := ts_total ts + 1\<rparr>) rt)"

definition handle_dial ::
  "(target \<Rightarrow> bool) \<Rightarrow> (byte list \<Rightarrow> bool) \<Rightarrow> ip \<times> 16 word \<Rightarrow> ip \<times> 16 word \<Rightarrow> route \<Rightarrow> target list \<Rightarrow> runtime
     \<Rightarrow> verdict \<times> runtime" where
  "handle_dial dial write client local r order rt =
     (case dial_first dial order of
        None \<Rightarrow> (VFailed, count_failed (r_id r) rt)
      | Some t \<Rightarrow>
          let header = (if r_proxy r then proxyHeaderV2 client local else []) in
          if lookup (rt_health rt) (fly_key (r_id r) (t_id t)) = None \<or> (r_proxy r \<and> \<not> write header)
          then (VFailed, count_failed (r_id r) rt)
          else (VProxy r t header, count_open (r_id r) (t_id t) (ip_key (fst client)) rt))"

definition handle ::
  "(target \<Rightarrow> bool) \<Rightarrow> (byte list \<Rightarrow> bool) \<Rightarrow> int \<Rightarrow> ip \<times> 16 word \<Rightarrow> ip \<times> 16 word \<Rightarrow> int
     \<Rightarrow> string option \<Rightarrow> bool \<Rightarrow> runtime \<Rightarrow> (verdict \<times> runtime) option" where
  "handle dial write port client local now name acme rt =
     (case handle_admit port (fst client) now name acme rt of
        None \<Rightarrow> None
      | Some (VDial r order, rt') \<Rightarrow> Some (handle_dial dial write client local r order rt')
      | Some (v, rt') \<Rightarrow> Some (v, rt'))"

text \<open>The deferred block at the end of the connection, and the bytes copied each way.\<close>

definition conn_done :: "string \<Rightarrow> string \<Rightarrow> string \<Rightarrow> int \<Rightarrow> int \<Rightarrow> runtime \<Rightarrow> runtime" where
  "conn_done rid tid ip n_in n_out rt =
     upd_counters rid (\<lambda>rc. dec_client ip (rc\<lparr>rc_in := rc_in rc + n_in, rc_out := rc_out rc + n_out\<rparr>))
       (upd_target (fly_key rid tid) (\<lambda>ts. ts\<lparr>ts_active := ts_active ts - 1\<rparr>) rt)"

section \<open>A connection decrypted by the gateway\<close>

text \<open>
  \<open>serveTLS\<close> of \<open>tls.go\<close>, to which \<open>handle\<close> gives the routes with a certificate on the gateway:
  the end of the handshake and the limits, which are checked only now; the counters of an
  accepted client; the dial function of the reverse proxy; the end. No other part of \<open>serveTLS\<close>
  changes the state of the gateway, except that a failed request counts as failed.
\<close>

datatype handshake = NoCertificates | HandshakeFailed | AcmeALPN | Established

definition tls_admit :: "handshake \<Rightarrow> route \<Rightarrow> ip \<Rightarrow> int \<Rightarrow> runtime \<Rightarrow> bool \<times> runtime" where
  "tls_admit hs r client now rt =
     (case hs of
        NoCertificates \<Rightarrow> (False, count_failed (r_id r) rt)
      | HandshakeFailed \<Rightarrow> (False, count_failed (r_id r) rt)
      | AcmeALPN \<Rightarrow> (False, rt)
      | Established \<Rightarrow>
          (case lookup (rt_routes rt) (r_id r) of
             None \<Rightarrow> (False, rt)
           | Some rc \<Rightarrow> (case admit r client now rc of (ok, rc') \<Rightarrow> (ok, upd_counters (r_id r) (\<lambda>_. rc') rt))))"

definition tls_open :: "string \<Rightarrow> string \<Rightarrow> runtime \<Rightarrow> runtime" where
  "tls_open rid ip = upd_counters rid (inc_client ip)"

text \<open>
  The first target that answers serves the later requests of the client too, and is counted
  once. The result is whether a connection came about, the target in use and the state.
\<close>

definition tls_dial :: "(target \<Rightarrow> bool) \<Rightarrow> string \<Rightarrow> target list \<Rightarrow> target option \<Rightarrow> runtime \<Rightarrow> bool \<times> target option \<times> runtime" where
  "tls_dial dial rid order used rt =
     (case used of
        Some t \<Rightarrow> (dial t, Some t, rt)
      | None \<Rightarrow>
          (case dial_first dial order of
             None \<Rightarrow> (False, None, rt)
           | Some t \<Rightarrow>
               if lookup (rt_health rt) (fly_key rid (t_id t)) = None then (True, None, rt)
               else (True, Some t, upd_target (fly_key rid (t_id t))
                       (\<lambda>ts. ts\<lparr>ts_active := ts_active ts + 1, ts_total := ts_total ts + 1\<rparr>) rt)))"

definition tls_done :: "string \<Rightarrow> target option \<Rightarrow> string \<Rightarrow> int \<Rightarrow> int \<Rightarrow> runtime \<Rightarrow> runtime" where
  "tls_done rid used ip n_in n_out rt =
     (let rt = upd_counters rid (\<lambda>rc. dec_client ip (rc\<lparr>rc_in := rc_in rc + n_in, rc_out := rc_out rc + n_out\<rparr>)) rt in
      case used of
        None \<Rightarrow> rt
      | Some t \<Rightarrow> upd_target (fly_key rid (t_id t)) (\<lambda>ts. ts\<lparr>ts_active := ts_active ts - 1\<rparr>) rt)"

section \<open>The redirect on port 80\<close>

record request =
  rq_host :: string
  rq_path :: string
  rq_query :: string

text \<open>A redirect carries the host, the path and the raw query of its https address.\<close>

datatype reply = CheckReply | Misdirected | Redirect string string string | OtherReply string

definition CheckPath80 :: string where "CheckPath80 = ''/.well-known/nkt-fly-check''"

definition acmeRequest :: "string \<Rightarrow> bool" where
  "acmeRequest b \<longleftrightarrow> has_prefix b ''GET /.well-known/acme-challenge/'' \<or> has_prefix b (''GET '' @ CheckPath80 @ '' '')"

definition redirect_reply :: "gateway \<Rightarrow> request \<Rightarrow> reply" where
  "redirect_reply c req =
     (if rq_path req = CheckPath80 then CheckReply
      else let host = (case split_host_port (rq_host req) of Some (h, _) \<Rightarrow> h | None \<Rightarrow> rq_host req) in
        (case tlsNameOf c host of None \<Rightarrow> Misdirected | Some name \<Rightarrow> Redirect name (rq_path req) (rq_query req)))"

text \<open>The handler of the ACME library, when there is one, wraps the redirect and may answer itself.\<close>

definition serveRedirect :: "((request \<Rightarrow> reply) \<Rightarrow> request \<Rightarrow> reply) option \<Rightarrow> gateway \<Rightarrow> request \<Rightarrow> reply" where
  "serveRedirect acme c = (case acme of None \<Rightarrow> redirect_reply c | Some wrap \<Rightarrow> wrap (redirect_reply c))"

section \<open>Statistics\<close>

record client_count =
  cc_ip :: string
  cc_conns :: int

definition topClients :: "int strmap \<Rightarrow> client_count list" where
  "topClients m = take maxClientsShow
     (sort_key (\<lambda>c. (- cc_conns c, cc_ip c)) (map (\<lambda>(ip, n). \<lparr>cc_ip = ip, cc_conns = n\<rparr>) m))"

record target_stats =
  st_id :: string
  st_alive :: bool
  st_checked :: bool
  st_drain :: bool
  st_active :: int
  st_total :: int
  st_err :: "check_err option"
  st_latency_ms :: int

record route_stats =
  rs_id :: string
  rs_active :: int
  rs_total :: int
  rs_failed :: int
  rs_denied :: int
  rs_in :: int
  rs_out :: int
  rs_clients :: nat
  rs_top :: "client_count list"
  rs_targets :: "target_stats list"

definition target_stat :: "runtime \<Rightarrow> route \<Rightarrow> target \<Rightarrow> target_stats option" where
  "target_stat rt r t = (case lookup (rt_health rt) (fly_key (r_id r) (t_id t)) of
      None \<Rightarrow> None
    | Some ts \<Rightarrow> Some \<lparr>st_id = t_id t, st_alive = ts_alive ts, st_checked = ts_checked ts, st_drain = t_drain t,
        st_active = ts_active ts, st_total = ts_total ts, st_err = ts_err ts,
        st_latency_ms = ts_latency ts div 1000000\<rparr>)"

definition route_stat :: "runtime \<Rightarrow> route \<Rightarrow> route_stats" where
  "route_stat rt r =
     (let ts = concat (map (\<lambda>t. case target_stat rt r t of None \<Rightarrow> [] | Some s \<Rightarrow> [s]) (r_targets r)) in
      case lookup (rt_routes rt) (r_id r) of
        None \<Rightarrow> \<lparr>rs_id = r_id r, rs_active = 0, rs_total = 0, rs_failed = 0, rs_denied = 0, rs_in = 0,
          rs_out = 0, rs_clients = 0, rs_top = [], rs_targets = ts\<rparr>
      | Some rc \<Rightarrow> \<lparr>rs_id = r_id r, rs_active = rc_active rc, rs_total = rc_total rc, rs_failed = rc_failed rc,
          rs_denied = rc_denied rc, rs_in = rc_in rc, rs_out = rc_out rc,
          rs_clients = length (rc_clients rc), rs_top = topClients (rc_clients rc), rs_targets = ts\<rparr>)"

definition Snapshot :: "runtime \<Rightarrow> int \<times> route_stats list" where
  "Snapshot rt = (g_revision (rt_cfg rt), map (route_stat rt) (g_routes (rt_cfg rt)))"

section \<open>The token bucket\<close>

text \<open>
  What a client may still use at a given moment. An evicted or a missing bucket is a full one;
  eviction is sound because a bucket idle for a minute has filled up again.
\<close>

definition level :: "int \<Rightarrow> int \<Rightarrow> bucket strmap \<Rightarrow> string \<Rightarrow> rat" where
  "level rate now bs ip = (case lookup bs ip of None \<Rightarrow> of_int rate | Some b \<Rightarrow> b_tokens (refill rate now b))"

definition buckets_ok :: "int \<Rightarrow> int \<Rightarrow> bucket strmap \<Rightarrow> bool" where
  "buckets_ok rate now bs \<longleftrightarrow> wf_map bs \<and>
     (\<forall>ip b. lookup bs ip = Some b \<longrightarrow> b_last b \<le> now \<and> 0 \<le> b_tokens b \<and> b_tokens b \<le> of_int rate)"

lemma gain_add: "gain rate (a - c) = gain rate (a - b) + gain rate (b - c)"
  by (simp add: gain_def second_ns_def field_simps)

lemma gain_nonneg: "0 < rate \<Longrightarrow> 0 \<le> d \<Longrightarrow> 0 \<le> gain rate d"
  by (simp add: gain_def second_ns_def)

lemma gain_zero [simp]: "gain rate 0 = 0"
  by (simp add: gain_def)

lemma gain_minute:
  assumes "0 < rate" "minute_ns < d"
  shows "of_int rate < gain rate d"
proof -
  have "1 < of_int d / (of_int second_ns :: rat)"
    using assms(2) by (simp add: minute_ns_def second_ns_def)
  then have "1 * of_int rate < of_int d / of_int second_ns * (of_int rate :: rat)"
    using assms(1) by (intro mult_strict_right_mono) auto
  then show ?thesis by (simp add: gain_def)
qed

lemma refill_refill:
  assumes "b_last b \<le> now" "now \<le> later" "0 < rate"
  shows "b_tokens (refill rate later (refill rate now b)) = b_tokens (refill rate later b)"
  using gain_add [of rate later "b_last b" now] gain_nonneg [OF assms(3), of "now - b_last b"]
    gain_nonneg [OF assms(3), of "later - now"] assms
  by (simp add: refill_def Let_def)

lemma evicted_full:
  assumes "0 < rate" "0 \<le> b_tokens b" "minute_ns < now - b_last b"
  shows "b_tokens (refill rate now b) = of_int rate"
  using gain_minute [OF assms(1,3)] assms(2) by (simp add: refill_def Let_def)

lemma refill_bounds:
  assumes "0 < rate" "0 \<le> b_tokens b" "b_last b \<le> now"
  shows "0 \<le> b_tokens (refill rate now b) \<and> b_tokens (refill rate now b) \<le> of_int rate"
  using assms gain_nonneg [OF assms(1), of "now - b_last b"] by (simp add: refill_def Let_def)

lemma level_evict:
  assumes "buckets_ok rate now bs" "0 < rate" "now \<le> later"
  shows "level rate later (evict now bs) ip = level rate later bs ip"
proof (cases "lookup bs ip")
  case (Some b)
  have wf: "wf_map bs" using assms(1) by (simp add: buckets_ok_def)
  have "b_tokens (refill rate later b) = of_int rate" if "minute_ns < now - b_last b"
    using that assms Some by (intro evicted_full) (auto simp: buckets_ok_def)
  then show ?thesis using Some wf by (simp add: level_def evict_def lookup_keep)
next
  case None
  then show ?thesis using assms(1) by (simp add: level_def evict_def lookup_keep buckets_ok_def)
qed

lemma buckets_ok_evict: "buckets_ok rate now bs \<Longrightarrow> buckets_ok rate now (evict now bs)"
  by (auto simp: buckets_ok_def evict_def lookup_keep split: option.splits if_splits)

lemma buckets_ok_later: "buckets_ok rate now bs \<Longrightarrow> now \<le> later \<Longrightarrow> buckets_ok rate later bs"
  by (fastforce simp: buckets_ok_def)

lemma refill_last [simp]: "b_last (refill rate now b) = now"
  by (simp add: refill_def Let_def)

lemma refill_fresh: "0 < rate \<Longrightarrow> refill rate now \<lparr>b_tokens = of_int rate, b_last = now\<rparr> = \<lparr>b_tokens = of_int rate, b_last = now\<rparr>"
  by (simp add: refill_def Let_def)

definition drain :: "int \<Rightarrow> int \<Rightarrow> int \<Rightarrow> rat \<Rightarrow> rat" where
  "drain rate now later x = b_tokens (refill rate later \<lparr>b_tokens = x, b_last = now\<rparr>)"

text \<open>One decision in terms of the level alone, and the levels afterwards.\<close>

lemma admit_rate_level:
  assumes "buckets_ok rate now bs" "0 < rate" "admit_rate rate ip now bs = (ok, bs')"
  shows "ok \<longleftrightarrow> 1 \<le> level rate now bs ip"
    and "buckets_ok rate now bs'"
    and "now \<le> later \<Longrightarrow> level rate later bs' ip' =
       (if ip' = ip then drain rate now later (level rate now bs ip - (if ok then 1 else 0))
        else level rate later bs ip')"
proof -
  define b where "b = (case lookup bs ip of Some b \<Rightarrow> refill rate now b | None \<Rightarrow> \<lparr>b_tokens = of_int rate, b_last = now\<rparr>)"
  define bs1 where "bs1 = (case lookup bs ip of Some b \<Rightarrow> bs | None \<Rightarrow> evict now bs)"
  have lev: "b_tokens b = level rate now bs ip" and last: "b_last b = now"
    by (simp_all add: b_def level_def split: option.splits)
  have res: "ok = (\<not> b_tokens b < 1)" "bs' = put ip (b\<lparr>b_tokens := b_tokens b - (if ok then 1 else 0)\<rparr>) bs1"
    using assms(2,3) by (auto simp: admit_rate_def Let_def b_def bs1_def refill_fresh split: option.splits if_splits)
  show "ok \<longleftrightarrow> 1 \<le> level rate now bs ip" using res(1) lev by auto
  have ok1: "buckets_ok rate now bs1"
    using assms(1) buckets_ok_evict by (auto simp: bs1_def split: option.splits)
  have bounds: "0 \<le> b_tokens b \<and> b_tokens b \<le> of_int rate"
    using refill_bounds [OF assms(2)] assms(1,2) by (auto simp: b_def buckets_ok_def split: option.splits)
  show "buckets_ok rate now bs'"
    using ok1 bounds last res by (auto simp: buckets_ok_def)
  have b_eta: "b\<lparr>b_tokens := x\<rparr> = \<lparr>b_tokens = x, b_last = now\<rparr>" for x
    using last by (cases b) simp
  show "level rate later bs' ip' =
       (if ip' = ip then drain rate now later (level rate now bs ip - (if ok then 1 else 0))
        else level rate later bs ip')" if "now \<le> later"
  proof (cases "ip' = ip")
    case True
    then show ?thesis by (simp add: res(2) level_def [of rate later "put ip _ bs1"] b_eta drain_def lev)
  next
    case False
    then have "level rate later bs' ip' = level rate later bs1 ip'"
      by (simp add: res(2) level_def)
    also have "\<dots> = level rate later bs ip'"
      using level_evict [OF assms(1,2) that] by (auto simp: bs1_def split: option.splits)
    finally show ?thesis using False by simp
  qed
qed

lemma level_grows:
  assumes "buckets_ok rate now bs" "0 < rate" "now \<le> later"
  shows "level rate later bs ip \<le> level rate now bs ip + gain rate (later - now)"
proof (cases "lookup bs ip")
  case None
  then show ?thesis using gain_nonneg [OF assms(2), of "later - now"] assms(3) by (simp add: level_def)
next
  case (Some b)
  have "b_tokens (refill rate later (refill rate now b)) \<le> b_tokens (refill rate now b)
      + gain rate (later - now)"
    by (subst refill_def) (simp add: Let_def)
  then show ?thesis
    using assms Some refill_refill [of b now later rate] by (simp add: level_def buckets_ok_def)
qed

section \<open>A client cannot exceed its rate\<close>

text \<open>A run of attempts (address and time) against one route, and how many of a client passed.\<close>

fun rate_run :: "int \<Rightarrow> (string \<times> int) list \<Rightarrow> bucket strmap \<Rightarrow> string \<Rightarrow> nat \<times> bucket strmap" where
  "rate_run rate [] bs who = (0, bs)"
| "rate_run rate ((ip, now) # es) bs who =
     (case admit_rate rate ip now bs of (ok, bs1) \<Rightarrow>
      (case rate_run rate es bs1 who of (n, bs2) \<Rightarrow> ((if ok \<and> ip = who then 1 else 0) + n, bs2)))"

lemma drain_le:
  assumes "0 < rate" "now \<le> later"
  shows "drain rate now later x \<le> x + gain rate (later - now)"
  by (simp add: drain_def refill_def Let_def)

lemma drain_same: "x \<le> of_int rate \<Longrightarrow> drain rate now now x = x"
  by (simp add: drain_def refill_def Let_def)

lemma level_le_rate: "buckets_ok rate now bs \<Longrightarrow> 0 < rate \<Longrightarrow> level rate now bs ip \<le> of_int rate"
  by (auto simp: level_def refill_def Let_def split: option.splits)

lemma rate_run_potential:
  assumes "0 < rate" "buckets_ok rate t0 bs" "sorted (t0 # map snd es)"
  shows "of_nat (fst (rate_run rate es bs who))
     \<le> level rate t0 bs who + gain rate (last (t0 # map snd es) - t0)"
  using assms(2,3)
proof (induction es arbitrary: t0 bs)
  case Nil
  then have "0 \<le> level rate t0 bs who"
    using refill_bounds [OF assms(1)] assms(1) by (auto simp: level_def buckets_ok_def split: option.splits)
  then show ?case by simp
next
  case (Cons e es)
  obtain ip now where e: "e = (ip, now)" by (cases e)
  obtain ok bs1 where a: "admit_rate rate ip now bs = (ok, bs1)" by (cases "admit_rate rate ip now bs")
  have le: "t0 \<le> now" and srt: "sorted (now # map snd es)" using Cons.prems(2) by (auto simp: e)
  have ok0: "buckets_ok rate now bs" using buckets_ok_later [OF Cons.prems(1) le] .
  note lv = admit_rate_level [OF ok0 assms(1) a]
  define hit where "hit = (ok \<and> ip = who)"
  have IH: "of_nat (fst (rate_run rate es bs1 who))
      \<le> level rate now bs1 who + gain rate (last (now # map snd es) - now)"
    by (rule Cons.IH [OF lv(2) srt])
  have "level rate now bs1 who + of_nat (if hit then 1 else 0) = level rate now bs who"
  proof -
    have "level rate now bs ip - (if ok then 1 else 0) \<le> of_int rate"
      using level_le_rate [OF ok0 assms(1), of ip] by auto
    then show ?thesis using lv(3) [of now who] by (auto simp: hit_def drain_same)
  qed
  moreover have "level rate now bs who \<le> level rate t0 bs who + gain rate (now - t0)"
    by (rule level_grows [OF Cons.prems(1) assms(1) le])
  moreover have "gain rate (last (t0 # map snd (e # es)) - t0)
      = gain rate (now - t0)
        + gain rate (last (now # map snd es) - now)"
    using gain_add [of rate "last (now # map snd es)" t0 now] by (simp add: e)
  moreover have "fst (rate_run rate (e # es) bs who) = (if hit then 1 else 0) + fst (rate_run rate es bs1 who)"
    by (simp add: e a hit_def split: prod.splits)
  ultimately show ?case
    using IH by (simp only: of_nat_add)
qed

text \<open>C10. The rate limit holds against any interleaving of clients: between two moments no
  client gets more than its rate times the elapsed seconds plus one burst of the rate, whatever
  buckets were evicted in between.\<close>
theorem rate_limit_bound:
  assumes "0 < rate" "sorted (t0 # map snd es)" "buckets_ok rate t0 bs"
  shows "of_nat (fst (rate_run rate es bs who))
     \<le> (of_int rate :: rat) + gain rate (last (t0 # map snd es) - t0)"
  using rate_run_potential [OF assms(1,3,2), of who] level_le_rate [OF assms(3,1), of who] by linarith

text \<open>Forgetting the buckets that were idle for a minute is invisible: every later decision,
  for every client, is the one that would have been taken with all buckets kept.\<close>
theorem evict_transparent:
  assumes "buckets_ok rate now bs" "0 < rate" "now \<le> later"
  shows "fst (admit_rate rate ip later (evict now bs)) = fst (admit_rate rate ip later bs)"
proof -
  have "buckets_ok rate later (evict now bs)" "buckets_ok rate later bs"
    using assms buckets_ok_later buckets_ok_evict by blast+
  then show ?thesis
    using admit_rate_level(1) [OF _ assms(2)] level_evict [OF assms] by (metis prod.collapse)
qed

end
