(* ===== verification/FlyRuntime.thy ===== *)
theory FlyRuntime
  imports FlyAdmit
begin

text \<open>
  The gateway as a whole: what \<open>Apply\<close> keeps, the invariant under which \<open>pick\<close> cannot panic,
  and the connections of many clients at once between two configurations, as a step relation
  with its invariant: the counters are the connections that are open, and the limit of
  connections per client holds up to the handlers that were admitted and are still dialling.
\<close>

section \<open>Apply\<close>

lemma lookup_foldl_put_target:
  "lookup (foldl (put_target old r) h ts) k
     = (if k \<in> (\<lambda>t. fly_key (r_id r) (t_id t)) ` set ts
        then Some (case lookup old k of Some s \<Rightarrow> s | None \<Rightarrow> fresh_target) else lookup h k)"
  by (induction ts arbitrary: h) (auto simp: put_target_def Let_def)

lemma lookup_new_health:
  "lookup (new_health old rs) k
     = (if \<exists>r \<in> set rs. \<exists>t \<in> set (r_targets r). k = fly_key (r_id r) (t_id t)
        then Some (case lookup old k of Some s \<Rightarrow> s | None \<Rightarrow> fresh_target) else None)"
proof -
  have "lookup (foldl (\<lambda>h r. foldl (put_target old r) h (r_targets r)) h rs) k
     = (if \<exists>r \<in> set rs. \<exists>t \<in> set (r_targets r). k = fly_key (r_id r) (t_id t)
        then Some (case lookup old k of Some s \<Rightarrow> s | None \<Rightarrow> fresh_target) else lookup h k)" for h
    by (induction rs arbitrary: h) (auto simp: lookup_foldl_put_target image_iff)
  then show ?thesis by (simp add: new_health_def)
qed

lemma lookup_new_routes:
  "lookup (new_routes old rs) k
     = (if k \<in> r_id ` set rs then Some (case lookup old k of Some c \<Rightarrow> c | None \<Rightarrow> fresh_counters) else None)"
proof -
  have "lookup (foldl (put_route old) m rs) k
     = (if k \<in> r_id ` set rs then Some (case lookup old k of Some c \<Rightarrow> c | None \<Rightarrow> fresh_counters) else lookup m k)" for m
    by (induction rs arbitrary: m) (auto simp: put_route_def)
  then show ?thesis by (simp add: new_routes_def)
qed

lemma lookup_new_rr:
  "lookup (new_rr rr rs) k
     = (case lookup rr k of Some n \<Rightarrow> Some n | None \<Rightarrow> if k \<in> r_id ` set rs then Some 0 else None)"
  unfolding new_rr_def by (induction rs arbitrary: rr) (auto simp: put_rr_def split: option.splits)

lemma open_ports_spec:
  "open_ports listen ps ls = (ls', errs) \<Longrightarrow>
     set ls' = set ls \<union> {p \<in> set ps. listen p} \<and> set errs = {p \<in> set ps. p \<notin> set ls \<and> \<not> listen p}"
proof (induction listen ps ls arbitrary: ls' errs rule: open_ports.induct)
  case (2 listen p ps ls)
  consider "p \<in> set ls" | "p \<notin> set ls" "\<not> listen p" | "p \<notin> set ls" "listen p" by blast
  then show ?case
  proof cases
    case 1
    then have "open_ports listen ps ls = (ls', errs)" using "2.prems" by simp
    from "2.IH"(1) [OF 1 this] show ?thesis using 1 by auto
  next
    case 2
    then obtain es where es: "open_ports listen ps ls = (ls', es)" "errs = p # es"
      using "2.prems" by (auto split: prod.splits)
    from "2.IH"(2) [OF 2(1,2) es(1)] show ?thesis using 2 es(2) by auto
  next
    case 3
    then have "open_ports listen ps (p # ls) = (ls', errs)" using "2.prems" by simp
    moreover have "\<not> \<not> listen p" using 3 by simp
    ultimately have "set ls' = set (p # ls) \<union> {p \<in> set ps. listen p}
        \<and> set errs = {q \<in> set ps. q \<notin> set (p # ls) \<and> \<not> listen q}"
      using "2.IH"(3) [OF 3(1)] by blast
    then show ?thesis using 3 by auto
  qed
qed simp

text \<open>C11. A valid configuration is taken over as a whole even when ports fail to open. Every
  target and route that stays keeps its state, every new one starts fresh (a new target counts
  as alive), and the states of other targets and the counters of other routes are dropped.
  Round-robin positions are not: they survive even for routes that went away.\<close>
theorem apply_keeps:
  assumes "gateway_validate cfg = None" "\<not> rt_closed rt" "rt_apply listen order cfg rt = (e, rt')"
  shows "rt_cfg rt' = cfg
    \<and> (\<forall>k. lookup (rt_health rt') k =
        (if \<exists>r \<in> set (g_routes cfg). \<exists>t \<in> set (r_targets r). k = fly_key (r_id r) (t_id t)
         then Some (case lookup (rt_health rt) k of Some s \<Rightarrow> s | None \<Rightarrow> fresh_target) else None))
    \<and> (\<forall>k. lookup (rt_routes rt') k =
        (if k \<in> r_id ` set (g_routes cfg)
         then Some (case lookup (rt_routes rt) k of Some c \<Rightarrow> c | None \<Rightarrow> fresh_counters) else None))
    \<and> (\<forall>k. lookup (rt_rr rt') k = (case lookup (rt_rr rt) k of Some n \<Rightarrow> Some n
         | None \<Rightarrow> if k \<in> r_id ` set (g_routes cfg) then Some 0 else None))"
proof -
  obtain ls errs where o: "open_ports listen order (filter (\<lambda>p. p \<in> set (want_ports cfg)) (rt_listeners rt)) = (ls, errs)"
    by (metis surj_pair)
  have rt': "rt' = rt\<lparr>rt_cfg := cfg, rt_listeners := ls,
                      rt_health := new_health (rt_health rt) (g_routes cfg),
                      rt_routes := new_routes (rt_routes rt) (g_routes cfg),
                      rt_rr := new_rr (rt_rr rt) (g_routes cfg),
                      rt_checks := concat (map (\<lambda>r. map (Pair r) (r_targets r)) (g_routes cfg))\<rparr>"
    using assms o by (simp add: rt_apply_def Let_def)
  show ?thesis
    unfolding rt' by (simp add: lookup_new_health lookup_new_routes lookup_new_rr)
qed

text \<open>After \<open>Apply\<close> the gateway listens exactly on the wanted ports that were open already or
  could be opened, in whatever order the map of ports was walked; the call reports an error
  exactly when a wanted port is not listened on.\<close>
theorem apply_listeners:
  assumes "gateway_validate cfg = None" "\<not> rt_closed rt" "set order = set (want_ports cfg)"
    and "rt_apply listen order cfg rt = (e, rt')"
  shows "set (rt_listeners rt') = {p \<in> set (want_ports cfg). p \<in> set (rt_listeners rt) \<or> listen p}
     \<and> (e = None \<longleftrightarrow> set (rt_listeners rt') = set (want_ports cfg))"
proof -
  define kept where "kept = filter (\<lambda>p. p \<in> set (want_ports cfg)) (rt_listeners rt)"
  obtain ls errs where o: "open_ports listen order kept = (ls, errs)" by (metis surj_pair)
  have "rt_listeners rt' = ls \<and> e = (if errs \<noteq> [] then Some (ApplyListen errs) else None)"
    using assms(1,2,4) o by (auto simp: rt_apply_def Let_def kept_def)
  then have ls: "rt_listeners rt' = ls" "e = None \<longleftrightarrow> errs = []" by simp_all
  have "set ls = set kept \<union> {p \<in> set order. listen p}" "set errs = {p \<in> set order. p \<notin> set kept \<and> \<not> listen p}"
    using open_ports_spec [OF o] by auto
  moreover have "errs = [] \<longleftrightarrow> set errs = {}" by simp
  ultimately show ?thesis unfolding ls assms(3) by (auto simp: kept_def)
qed

section \<open>Connections at once\<close>

text \<open>
  An open connection is one whose bytes are passed on to a target (\<open>handle\<close>), or one the
  gateway decrypts (\<open>serveTLS\<close>), which dials on the first request and remembers the target.
\<close>

datatype conn = Passed string string string | Decrypted string string "target list" "target option"

fun conn_rid :: "conn \<Rightarrow> string" where
  "conn_rid (Passed rid tid ip) = rid"
| "conn_rid (Decrypted rid ip order used) = rid"

fun conn_ip :: "conn \<Rightarrow> string" where
  "conn_ip (Passed rid tid ip) = ip"
| "conn_ip (Decrypted rid ip order used) = ip"

text \<open>
  The handlers in flight: in the TLS handshake, admitted and not counted yet, and those with an
  open connection.
\<close>

type_synonym handler = "route \<times> (ip \<times> 16 word) \<times> target list"

record conn_sys =
  cs_rt :: runtime
  cs_tls :: "handler list"
  cs_wait :: "handler list"
  cs_open :: "conn list"

definition waiting_of :: "string \<Rightarrow> string \<Rightarrow> conn_sys \<Rightarrow> nat" where
  "waiting_of rid ip s = length (filter (\<lambda>(r, c, _). r_id r = rid \<and> ip_key (fst c) = ip) (cs_wait s))"

definition open_of :: "string \<Rightarrow> string \<Rightarrow> conn_sys \<Rightarrow> nat" where
  "open_of rid ip s = length (filter (\<lambda>c. conn_rid c = rid \<and> conn_ip c = ip) (cs_open s))"

text \<open>
  One step of the gateway between two configurations: a connection is admitted, refused or, on
  a route with a certificate on the gateway, goes to its handshake and is admitted after it; a
  handler finishes its dial or, after a handshake, is counted at once; the reverse proxy of a
  decrypted connection dials or fails a request; a connection ends; a check reports. \<open>w\<close> bounds
  how many handlers of one client and route may be between admission and being counted.
\<close>

inductive conn_step :: "nat \<Rightarrow> conn_sys \<Rightarrow> conn_sys \<Rightarrow> bool" for w :: nat where
  Admit: "handle_admit port (fst client) now name acme (cs_rt s) = Some (VDial r order, rt')
     \<Longrightarrow> waiting_of (r_id r) (ip_key (fst client)) s < w
     \<Longrightarrow> conn_step w s (s\<lparr>cs_rt := rt', cs_wait := (r, client, order) # cs_wait s\<rparr>)"
| Shake: "handle_admit port (fst client) now name acme (cs_rt s) = Some (VTLS r order, rt')
     \<Longrightarrow> conn_step w s (s\<lparr>cs_rt := rt', cs_tls := (r, client, order) # cs_tls s\<rparr>)"
| Refuse: "handle_admit port a now name acme (cs_rt s) = Some (v, rt')
     \<Longrightarrow> (\<nexists>r order. v = VDial r order \<or> v = VTLS r order)
     \<Longrightarrow> conn_step w s (s\<lparr>cs_rt := rt'\<rparr>)"
| TLSAdmit: "(r, client, order) \<in> set (cs_tls s)
     \<Longrightarrow> tls_admit hs r (fst client) now (cs_rt s) = (True, rt')
     \<Longrightarrow> waiting_of (r_id r) (ip_key (fst client)) s < w
     \<Longrightarrow> conn_step w s (s\<lparr>cs_rt := rt', cs_tls := remove1 (r, client, order) (cs_tls s), cs_wait := (r, client, order) # cs_wait s\<rparr>)"
| TLSRefuse: "(r, client, order) \<in> set (cs_tls s)
     \<Longrightarrow> tls_admit hs r (fst client) now (cs_rt s) = (False, rt')
     \<Longrightarrow> conn_step w s (s\<lparr>cs_rt := rt', cs_tls := remove1 (r, client, order) (cs_tls s)\<rparr>)"
| Open: "(r, client, order) \<in> set (cs_wait s) \<Longrightarrow> \<not> r_tls r
     \<Longrightarrow> handle_dial dial write client local r order (cs_rt s) = (VProxy r t h, rt')
     \<Longrightarrow> conn_step w s (s\<lparr>cs_rt := rt', cs_wait := remove1 (r, client, order) (cs_wait s),
            cs_open := Passed (r_id r) (t_id t) (ip_key (fst client)) # cs_open s\<rparr>)"
| Fail: "(r, client, order) \<in> set (cs_wait s) \<Longrightarrow> \<not> r_tls r
     \<Longrightarrow> handle_dial dial write client local r order (cs_rt s) = (VFailed, rt')
     \<Longrightarrow> conn_step w s (s\<lparr>cs_rt := rt', cs_wait := remove1 (r, client, order) (cs_wait s)\<rparr>)"
| TLSOpen: "(r, client, order) \<in> set (cs_wait s) \<Longrightarrow> r_tls r
     \<Longrightarrow> conn_step w s (s\<lparr>cs_rt := tls_open (r_id r) (ip_key (fst client)) (cs_rt s),
            cs_wait := remove1 (r, client, order) (cs_wait s),
            cs_open := Decrypted (r_id r) (ip_key (fst client)) order None # cs_open s\<rparr>)"
| TLSDial: "Decrypted rid ip order used \<in> set (cs_open s)
     \<Longrightarrow> tls_dial dial rid order used (cs_rt s) = (ok, used', rt')
     \<Longrightarrow> conn_step w s (s\<lparr>cs_rt := rt',
            cs_open := Decrypted rid ip order used' # remove1 (Decrypted rid ip order used) (cs_open s)\<rparr>)"
| TLSFail: "Decrypted rid ip order used \<in> set (cs_open s)
     \<Longrightarrow> conn_step w s (s\<lparr>cs_rt := count_failed rid (cs_rt s)\<rparr>)"
| Done: "Passed rid tid ip \<in> set (cs_open s)
     \<Longrightarrow> conn_step w s (s\<lparr>cs_rt := conn_done rid tid ip n_in n_out (cs_rt s),
            cs_open := remove1 (Passed rid tid ip) (cs_open s)\<rparr>)"
| TLSDone: "Decrypted rid ip order used \<in> set (cs_open s)
     \<Longrightarrow> conn_step w s (s\<lparr>cs_rt := tls_done rid used ip n_in n_out (cs_rt s),
            cs_open := remove1 (Decrypted rid ip order used) (cs_open s)\<rparr>)"
| Tick: "conn_step w s (s\<lparr>cs_rt := fst (check_tick r t err took (cs_rt s))\<rparr>)"

inductive_cases conn_stepE: "conn_step w s s'"

definition quiet :: "conn_sys \<Rightarrow> bool" where
  "quiet s \<longleftrightarrow> gateway_validate (rt_cfg (cs_rt s)) = None \<and> cs_tls s = [] \<and> cs_wait s = [] \<and> cs_open s = []
     \<and> (\<forall>rid rc. lookup (rt_routes (cs_rt s)) rid = Some rc \<longrightarrow> rc_clients rc = [])"

definition counted :: "conn_sys \<Rightarrow> bool" where
  "counted s \<longleftrightarrow> (\<forall>rid rc ip. lookup (rt_routes (cs_rt s)) rid = Some rc \<longrightarrow>
      wf_map (rc_clients rc) \<and> lookup (rc_clients rc) ip = (if open_of rid ip s = 0 then None else Some (int (open_of rid ip s))))"

text \<open>A handler at work belongs to a route of the configuration, whose counters exist.\<close>

definition at_route :: "runtime \<Rightarrow> handler \<Rightarrow> bool" where
  "at_route rt h \<longleftrightarrow> fst h \<in> set (g_routes (rt_cfg rt)) \<and> lookup (rt_routes rt) (r_id (fst h)) \<noteq> None"

definition limited :: "nat \<Rightarrow> conn_sys \<Rightarrow> bool" where
  "limited w s \<longleftrightarrow> gateway_validate (rt_cfg (cs_rt s)) = None
     \<and> (\<forall>h \<in> set (cs_tls s) \<union> set (cs_wait s). at_route (cs_rt s) h)
     \<and> (\<forall>r \<in> set (g_routes (rt_cfg (cs_rt s))). \<forall>ip. 0 < r_max_conns r \<longrightarrow>
          int (open_of (r_id r) ip s) + int (waiting_of (r_id r) ip s) < r_max_conns r + int w)"

definition conn_inv :: "nat \<Rightarrow> conn_sys \<Rightarrow> bool" where
  "conn_inv w s \<longleftrightarrow> counted s \<and> limited w s"

subsection \<open>What the operations leave alone\<close>

lemma upd_counters_simps [fly_simps]:
  "rt_cfg (upd_counters rid f rt) = rt_cfg rt" "rt_health (upd_counters rid f rt) = rt_health rt"
  "rt_rr (upd_counters rid f rt) = rt_rr rt"
  "lookup (rt_routes (upd_counters rid f rt)) k = (if k = rid then map_option f (lookup (rt_routes rt) rid) else lookup (rt_routes rt) k)"
  by (auto simp: upd_counters_def split: option.splits)

lemma upd_target_simps [fly_simps]:
  "rt_cfg (upd_target k f rt) = rt_cfg rt" "rt_routes (upd_target k f rt) = rt_routes rt" "rt_rr (upd_target k f rt) = rt_rr rt"
  by (auto simp: upd_target_def split: option.splits)

lemma pick_frame: "pick rt r c = Some (o1, rt') \<Longrightarrow> rt_cfg rt' = rt_cfg rt \<and> rt_routes rt' = rt_routes rt"
  by (auto simp: pick_def pick_first_def Let_def split: option.splits if_splits)

lemma check_tick_frame [fly_simps]:
  "rt_cfg (fst (check_tick r t err took rt)) = rt_cfg rt" "rt_routes (fst (check_tick r t err took rt)) = rt_routes rt"
  by (auto simp: check_tick_def split: option.splits prod.splits)

lemma admit_clients: "admit r a now rc = (ok, rc') \<Longrightarrow> rc_clients rc' = rc_clients rc"
  by (auto simp: admit_def deny_def Let_def split: if_splits prod.splits)

lemma admit_limit:
  "admit r a now rc = (True, rc') \<Longrightarrow> 0 < r_max_conns r \<Longrightarrow> clients_of rc (ip_key a) < r_max_conns r"
  by (auto simp: admit_def Let_def split: if_splits prod.splits)

lemma admitted_clients: "admitted r a now rc = (ok, rc') \<Longrightarrow> rc_clients rc' = rc_clients rc"
  by (auto simp: admitted_def dest: admit_clients split: if_splits)

text \<open>The first half of a handler: the counters of clients are only read.\<close>

lemma handle_admit_frame:
  assumes "handle_admit port a now name acme rt = Some (v, rt')"
  shows "rt_cfg rt' = rt_cfg rt
    \<and> (\<forall>k. map_option rc_clients (lookup (rt_routes rt') k) = map_option rc_clients (lookup (rt_routes rt) k))"
proof (cases "v \<in> {VClose, VRedirect, VMisdirected} \<and> rt' = rt")
  case False
  then obtain r rc ok rc' where r: "lookup (rt_routes rt) (r_id r) = Some rc" "admitted r a now rc = (ok, rc')"
    and res: "(\<not> ok \<and> rt' = upd_counters (r_id r) (\<lambda>_. rc') rt) \<or>
       (\<exists>o1. pick (upd_counters (r_id r) (\<lambda>_. rc'\<lparr>rc_total := rc_total rc' + 1\<rparr>) rt) r a = Some (o1, rt'))"
    using assms by (auto simp: handle_admit_def Let_def split: option.splits if_splits prod.splits bool.splits)
  from res r(1) admitted_clients [OF r(2)] show ?thesis
    by (auto simp: fly_simps dest!: pick_frame)
qed simp

lemma handle_admit_route:
  assumes "handle_admit port a now name acme rt = Some (v, rt')" "v = VDial r order \<or> v = VTLS r order"
  shows "r \<in> set (g_routes (rt_cfg rt)) \<and> lookup (rt_routes rt) (r_id r) \<noteq> None"
    and "v = VDial r order \<Longrightarrow> lookup (rt_routes rt) (r_id r) = Some rc \<Longrightarrow> 0 < r_max_conns r
           \<Longrightarrow> clients_of rc (ip_key a) < r_max_conns r"
proof -
  obtain n rc rc' where n: "route_for (rt_cfg rt) port n = Some r"
    and rc: "lookup (rt_routes rt) (r_id r) = Some rc" "admitted r a now rc = (True, rc')" and v: "v = VDial r order \<longrightarrow> \<not> r_tls r"
    using assms by (auto simp: handle_admit_def Let_def split: option.splits if_splits prod.splits bool.splits)
  moreover have "r \<in> set (g_routes (rt_cfg rt))"
  proof -
    obtain l where "foldl better (None, -1) (cands port n (g_routes (rt_cfg rt))) = (Some r, l)"
      using n by (metis best_route_fold route_for_def prod.collapse)
    from foldl_better [OF this] show ?thesis by (auto simp: cands_def)
  qed
  ultimately show "r \<in> set (g_routes (rt_cfg rt)) \<and> lookup (rt_routes rt) (r_id r) \<noteq> None" by simp
  show "clients_of rc1 (ip_key a) < r_max_conns r"
    if "v = VDial r order" "lookup (rt_routes rt) (r_id r) = Some rc1" "0 < r_max_conns r" for rc1
    using that v rc admit_limit by (auto simp: admitted_def)
qed

lemma same_clients_upd [fly_simps]:
  "(\<And>rc. rc_clients (f rc) = rc_clients rc) \<Longrightarrow>
     map_option rc_clients (lookup (rt_routes (upd_counters rid f rt)) k) = map_option rc_clients (lookup (rt_routes rt) k)"
  by (cases "lookup (rt_routes rt) rid") (auto simp: fly_simps)

lemma count_failed_frame [fly_simps]:
  "rt_cfg (count_failed rid rt) = rt_cfg rt"
  "map_option rc_clients (lookup (rt_routes (count_failed rid rt)) k) = map_option rc_clients (lookup (rt_routes rt) k)"
  unfolding count_failed_def by (simp add: fly_simps, rule same_clients_upd, simp)

lemma tls_admit_frame:
  assumes "tls_admit hs r a now rt = (ok, rt')"
  shows "rt_cfg rt' = rt_cfg rt
    \<and> (\<forall>k. map_option rc_clients (lookup (rt_routes rt') k) = map_option rc_clients (lookup (rt_routes rt) k))"
proof (cases hs)
  case Established
  show ?thesis
  proof (cases "lookup (rt_routes rt) (r_id r)")
    case None
    then show ?thesis using assms Established by (auto simp: tls_admit_def)
  next
    case (Some rc)
    obtain ok' rc' where ad: "admit r a now rc = (ok', rc')" by fastforce
    then have "rt' = upd_counters (r_id r) (\<lambda>_. rc') rt" using assms Established Some by (simp add: tls_admit_def)
    then show ?thesis using Some admit_clients [OF ad] by (simp add: fly_simps)
  qed
qed (use assms in \<open>auto simp: tls_admit_def fly_simps\<close>)

lemma tls_admit_limit:
  assumes "tls_admit hs r a now rt = (True, rt')" "lookup (rt_routes rt) (r_id r) = Some rc" "0 < r_max_conns r"
  shows "clients_of rc (ip_key a) < r_max_conns r"
  using assms admit_limit by (auto simp: tls_admit_def split: handshake.splits prod.splits)

lemma tls_dial_frame:
  "tls_dial dial rid order used rt = (ok, used', rt') \<Longrightarrow> rt_cfg rt' = rt_cfg rt \<and> rt_routes rt' = rt_routes rt"
  by (auto simp: tls_dial_def fly_simps split: option.splits if_splits)

subsection \<open>The invariant\<close>

lemma length_filter_remove1:
  "x \<in> set xs \<Longrightarrow> length (filter P xs) = (if P x then 1 else 0) + length (filter P (remove1 x xs))"
  by (induction xs) auto

lemma waiting_remove1:
  "(r, c, o1) \<in> set (cs_wait s) \<Longrightarrow> waiting_of rid ip s
     = (if r_id r = rid \<and> ip_key (fst c) = ip then 1 else 0) + waiting_of rid ip (s\<lparr>cs_wait := remove1 (r, c, o1) (cs_wait s)\<rparr>)"
  using length_filter_remove1 [of "(r, c, o1)" "cs_wait s" "\<lambda>(r, c, _). r_id r = rid \<and> ip_key (fst c) = ip"]
  by (simp add: waiting_of_def)

lemma open_remove1:
  "c \<in> set (cs_open s) \<Longrightarrow> open_of rid ip s
     = (if conn_rid c = rid \<and> conn_ip c = ip then 1 else 0) + open_of rid ip (s\<lparr>cs_open := remove1 c (cs_open s)\<rparr>)"
  using length_filter_remove1 [of c "cs_open s" "\<lambda>c. conn_rid c = rid \<and> conn_ip c = ip"]
  by (simp add: open_of_def)

lemma waiting_cong: "cs_wait s' = cs_wait s \<Longrightarrow> waiting_of rid ip s' = waiting_of rid ip s"
  by (simp add: waiting_of_def)

lemma open_cong: "cs_open s' = cs_open s \<Longrightarrow> open_of rid ip s' = open_of rid ip s"
  by (simp add: open_of_def)

lemma inc_client_lookup [fly_simps]:
  "lookup (rc_clients (inc_client ip rc)) k = (if k = ip then Some (clients_of rc ip + 1) else lookup (rc_clients rc) k)"
  "wf_map (rc_clients rc) \<Longrightarrow> wf_map (rc_clients (inc_client ip rc))"
  by (simp_all add: inc_client_def)

lemma dec_client_lookup [fly_simps]:
  "lookup (rc_clients (dec_client ip rc)) k
     = (if k = ip then (if clients_of rc ip \<le> 1 then None else Some (clients_of rc ip - 1)) else lookup (rc_clients rc) k)"
  "wf_map (rc_clients rc) \<Longrightarrow> wf_map (rc_clients (dec_client ip rc))"
  by (simp_all add: dec_client_def Let_def)

lemma counted_clients:
  "counted s \<Longrightarrow> lookup (rt_routes (cs_rt s)) rid = Some rc \<Longrightarrow> clients_of rc ip = int (open_of rid ip s)"
  by (simp add: counted_def clients_of_def)

lemma frame_None:
  "map_option f (lookup m k) = map_option f (lookup m' k) \<Longrightarrow> lookup m k = None \<longleftrightarrow> lookup m' k = None"
  by (cases "lookup m k"; cases "lookup m' k") auto

lemma counted_frame:
  assumes "counted s" "\<And>k. map_option rc_clients (lookup (rt_routes (cs_rt s')) k) = map_option rc_clients (lookup (rt_routes (cs_rt s)) k)"
    and "\<And>rid ip. open_of rid ip s' = open_of rid ip s"
  shows "counted s'"
  unfolding counted_def
proof (intro allI impI)
  fix rid rc ip
  assume "lookup (rt_routes (cs_rt s')) rid = Some rc"
  then obtain rc0 where "lookup (rt_routes (cs_rt s)) rid = Some rc0" "rc_clients rc0 = rc_clients rc"
    using assms(2) [of rid] by (auto simp: map_option_case split: option.splits)
  then show "wf_map (rc_clients rc) \<and> lookup (rc_clients rc) ip = (if open_of rid ip s' = 0 then None else Some (int (open_of rid ip s')))"
    using assms(1,3) unfolding counted_def by metis
qed

lemma limited_frame:
  assumes "limited w s" "rt_cfg (cs_rt s') = rt_cfg (cs_rt s)"
    and "\<And>k. lookup (rt_routes (cs_rt s')) k = None \<longleftrightarrow> lookup (rt_routes (cs_rt s)) k = None"
    and "\<And>h. h \<in> set (cs_tls s') \<union> set (cs_wait s') \<Longrightarrow> h \<in> set (cs_tls s) \<union> set (cs_wait s) \<or> at_route (cs_rt s) h"
    and "\<And>rid ip. open_of rid ip s' + waiting_of rid ip s' \<le> open_of rid ip s + waiting_of rid ip s"
  shows "limited w s'"
proof -
  have "at_route (cs_rt s') h" if "h \<in> set (cs_tls s') \<union> set (cs_wait s')" for h
  proof -
    have "\<forall>h \<in> set (cs_tls s) \<union> set (cs_wait s). at_route (cs_rt s) h" using assms(1) by (simp add: limited_def)
    then have "at_route (cs_rt s) h" using assms(4) [OF that] by blast
    then show ?thesis using assms(2,3) by (simp add: at_route_def)
  qed
  moreover have "int (open_of (r_id r) ip s') + int (waiting_of (r_id r) ip s') < r_max_conns r + int w"
    if "r \<in> set (g_routes (rt_cfg (cs_rt s')))" "0 < r_max_conns r" for r ip
  proof -
    have "int (open_of (r_id r) ip s) + int (waiting_of (r_id r) ip s) < r_max_conns r + int w"
      using assms(1,2) that by (simp add: limited_def)
    then show ?thesis using assms(5) [of "r_id r" ip] by linarith
  qed
  moreover have "gateway_validate (rt_cfg (cs_rt s')) = None" using assms(1,2) by (simp add: limited_def)
  ultimately show ?thesis unfolding limited_def by blast
qed

text \<open>A step that changes no counter of clients, and opens no connection.\<close>

lemma runtime_step:
  assumes "conn_inv w s" "rt_cfg (cs_rt s') = rt_cfg (cs_rt s)
      \<and> (\<forall>k. map_option rc_clients (lookup (rt_routes (cs_rt s')) k) = map_option rc_clients (lookup (rt_routes (cs_rt s)) k))"
    and "\<And>h. h \<in> set (cs_tls s') \<union> set (cs_wait s') \<Longrightarrow> h \<in> set (cs_tls s) \<union> set (cs_wait s) \<or> at_route (cs_rt s) h"
    and "\<And>rid ip. open_of rid ip s' = open_of rid ip s" "\<And>rid ip. waiting_of rid ip s' \<le> waiting_of rid ip s"
  shows "conn_inv w s'"
proof -
  have inv: "counted s" "limited w s" using assms(1) by (simp_all add: conn_inv_def)
  have routes: "map_option rc_clients (lookup (rt_routes (cs_rt s')) k) = map_option rc_clients (lookup (rt_routes (cs_rt s)) k)" for k
    using assms(2) by blast
  have "counted s'" by (rule counted_frame [OF inv(1) routes assms(4)])
  moreover have "limited w s'"
    by (rule limited_frame [OF inv(2) _ frame_None [OF routes] assms(3)]) (use assms(2,4,5) in auto)
  ultimately show ?thesis by (simp add: conn_inv_def)
qed

lemma routes_unique:
  "gateway_validate c = None \<Longrightarrow> r \<in> set (g_routes c) \<Longrightarrow> r' \<in> set (g_routes c) \<Longrightarrow> r_id r = r_id r' \<Longrightarrow> r = r'"
  by (auto simp: gateway_ok_iff gateway_ok_def routes_ok_def distinct_map dest: inj_onD)

text \<open>A handler passes the limits: its client has fewer connections than allowed.\<close>

lemma step_wait:
  assumes "conn_inv w s" "at_route (cs_rt s) (r, client, order)"
    and frame: "rt_cfg rt' = rt_cfg (cs_rt s)
      \<and> (\<forall>k. map_option rc_clients (lookup (rt_routes rt') k) = map_option rc_clients (lookup (rt_routes (cs_rt s)) k))"
    and lim: "\<And>rc. lookup (rt_routes (cs_rt s)) (r_id r) = Some rc \<Longrightarrow> 0 < r_max_conns r \<Longrightarrow> clients_of rc (ip_key (fst client)) < r_max_conns r"
    and w: "waiting_of (r_id r) (ip_key (fst client)) s < w" and tls: "set ts \<subseteq> set (cs_tls s)"
  shows "conn_inv w (s\<lparr>cs_rt := rt', cs_tls := ts, cs_wait := (r, client, order) # cs_wait s\<rparr>)" (is "conn_inv w ?s'")
proof -
  define ip0 where "ip0 = ip_key (fst client)"
  have inv: "counted s" "limited w s" using assms(1) by (simp_all add: conn_inv_def)
  obtain rc where rc: "r \<in> set (g_routes (rt_cfg (cs_rt s)))" "lookup (rt_routes (cs_rt s)) (r_id r) = Some rc"
    using assms(2) by (auto simp: at_route_def)
  have cl: "0 < r_max_conns r \<Longrightarrow> int (open_of (r_id r) ip0 s) < r_max_conns r"
    using lim [OF rc(2)] counted_clients [OF inv(1) rc(2)] by (simp add: ip0_def)
  have op: "open_of rid ip ?s' = open_of rid ip s" for rid ip by (rule open_cong) simp
  have wt: "waiting_of rid ip ?s' = (if r_id r = rid \<and> ip0 = ip then 1 else 0) + waiting_of rid ip s" for rid ip
    by (simp add: waiting_of_def ip0_def)
  have valid: "gateway_validate (rt_cfg (cs_rt s)) = None" using inv(2) by (simp add: limited_def)
  have "counted ?s'" by (rule counted_frame [OF inv(1) _ op]) (use frame in simp)
  moreover have "int (open_of (r_id r') ip ?s') + int (waiting_of (r_id r') ip ?s') < r_max_conns r' + int w"
    if "r' \<in> set (g_routes (rt_cfg (cs_rt s)))" "0 < r_max_conns r'" for r' ip
  proof (cases "r_id r = r_id r' \<and> ip0 = ip")
    case True
    then have "r' = r" using routes_unique [OF valid rc(1) that(1)] by simp
    then show ?thesis using True cl that(2) w [folded ip0_def] unfolding op wt by simp
  next
    case False
    then show ?thesis using inv(2) that unfolding op wt by (auto simp: limited_def)
  qed
  moreover have "at_route rt' h" if "at_route (cs_rt s) h" for h
    using that frame frame_None [of rc_clients "rt_routes rt'" "r_id (fst h)" "rt_routes (cs_rt s)"] by (simp add: at_route_def)
  ultimately show ?thesis
    using inv(2) assms(2) tls frame valid unfolding conn_inv_def limited_def by auto
qed

text \<open>An admitted handler is counted: the counter of its client and its open connection go up together.\<close>

lemma step_open:
  assumes "conn_inv w s" "(r, client, order) \<in> set (cs_wait s)"
    and "rt_cfg rt1 = rt_cfg (cs_rt s)" "rt_routes rt1 = rt_routes (cs_rt s)"
    and "conn_rid c = r_id r" "conn_ip c = ip_key (fst client)"
  shows "conn_inv w (s\<lparr>cs_rt := upd_counters (r_id r) (inc_client (ip_key (fst client))) rt1,
     cs_wait := remove1 (r, client, order) (cs_wait s), cs_open := c # cs_open s\<rparr>)" (is "conn_inv w ?s'")
proof -
  have op: "open_of rid ip ?s' = (if r_id r = rid \<and> ip_key (fst client) = ip then 1 else 0) + open_of rid ip s" for rid ip
    using assms(5,6) by (simp add: open_of_def)
  have wt: "waiting_of rid ip s = (if r_id r = rid \<and> ip_key (fst client) = ip then 1 else 0) + waiting_of rid ip ?s'" for rid ip
    using waiting_remove1 [OF assms(2)] by (simp add: waiting_of_def)
  have "counted ?s'"
    unfolding counted_def
  proof (intro allI impI)
    fix rid rc ip assume rc: "lookup (rt_routes (cs_rt ?s')) rid = Some rc"
    then obtain rc0 where rc0: "lookup (rt_routes (cs_rt s)) rid = Some rc0"
        "rc = (if rid = r_id r then inc_client (ip_key (fst client)) rc0 else rc0)"
      using assms(4) by (auto simp: fly_simps split: if_splits)
    have c: "wf_map (rc_clients rc0)"
      "\<And>ip. lookup (rc_clients rc0) ip = (if open_of rid ip s = 0 then None else Some (int (open_of rid ip s)))"
      using assms(1) rc0(1) by (auto simp: conn_inv_def counted_def)
    then have "clients_of rc0 ip = int (open_of rid ip s)" for ip by (simp add: clients_of_def)
    then show "wf_map (rc_clients rc) \<and> lookup (rc_clients rc) ip
        = (if open_of rid ip ?s' = 0 then None else Some (int (open_of rid ip ?s')))"
      using c by (auto simp: rc0(2) op fly_simps)
  qed
  moreover have "limited w ?s'"
  proof (rule limited_frame [of w s])
    show "open_of rid ip ?s' + waiting_of rid ip ?s' \<le> open_of rid ip s + waiting_of rid ip s" for rid ip
      using op [of rid ip] wt [of rid ip] by simp
    show "lookup (rt_routes (cs_rt ?s')) k = None \<longleftrightarrow> lookup (rt_routes (cs_rt s)) k = None" for k
      using assms(4) by (simp add: fly_simps)
    show "h \<in> set (cs_tls s) \<union> set (cs_wait s) \<or> at_route (cs_rt s) h" if "h \<in> set (cs_tls ?s') \<union> set (cs_wait ?s')" for h
      using that set_remove1_subset [of "(r, client, order)" "cs_wait s"] by auto
  qed (use assms(1,3) in \<open>simp_all add: conn_inv_def fly_simps\<close>)
  ultimately show ?thesis by (simp add: conn_inv_def)
qed

text \<open>A connection ends.\<close>

lemma step_close:
  assumes "conn_inv w s" "c \<in> set (cs_open s)" "rt_cfg rt' = rt_cfg (cs_rt s)"
    and routes: "\<And>k. lookup (rt_routes rt') k = (if k = conn_rid c
       then map_option (\<lambda>rc. dec_client (conn_ip c) (rc\<lparr>rc_in := rc_in rc + n_in, rc_out := rc_out rc + n_out\<rparr>)) (lookup (rt_routes (cs_rt s)) k)
       else lookup (rt_routes (cs_rt s)) k)"
  shows "conn_inv w (s\<lparr>cs_rt := rt', cs_open := remove1 c (cs_open s)\<rparr>)" (is "conn_inv w ?s'")
proof -
  have op: "open_of rid ip s = (if conn_rid c = rid \<and> conn_ip c = ip then 1 else 0) + open_of rid ip ?s'" for rid ip
    using open_remove1 [OF assms(2)] by (simp add: open_of_def)
  have wt: "waiting_of rid ip ?s' = waiting_of rid ip s" for rid ip by (rule waiting_cong) simp
  have "counted ?s'"
    unfolding counted_def
  proof (intro allI impI)
    fix rid rc ip assume rc: "lookup (rt_routes (cs_rt ?s')) rid = Some rc"
    then obtain rc0 rc1 where rc0: "lookup (rt_routes (cs_rt s)) rid = Some rc0"
        "rc = (if rid = conn_rid c then dec_client (conn_ip c) rc1 else rc0)" "rc_clients rc1 = rc_clients rc0"
      by (cases "rid = conn_rid c") (auto simp: routes)
    have c: "wf_map (rc_clients rc0)"
      "\<And>ip. lookup (rc_clients rc0) ip = (if open_of rid ip s = 0 then None else Some (int (open_of rid ip s)))"
      using assms(1) rc0(1) by (auto simp: conn_inv_def counted_def)
    then have "clients_of rc1 ip = int (open_of rid ip s)" for ip by (simp add: clients_of_def rc0(3))
    then show "wf_map (rc_clients rc) \<and> lookup (rc_clients rc) ip
        = (if open_of rid ip ?s' = 0 then None else Some (int (open_of rid ip ?s')))"
      using c op [of rid ip] by (auto simp: rc0(2,3) fly_simps)
  qed
  moreover have "limited w ?s'"
  proof (rule limited_frame [of w s])
    show "open_of rid ip ?s' + waiting_of rid ip ?s' \<le> open_of rid ip s + waiting_of rid ip s" for rid ip
      using op [of rid ip] wt [of rid ip] by simp
  qed (use assms(1,3) routes in \<open>auto simp: conn_inv_def\<close>)
  ultimately show ?thesis by (simp add: conn_inv_def)
qed

lemma conn_inv_step:
  assumes "conn_inv w s" "conn_step w s s'"
  shows "conn_inv w s'"
  using assms(2)
proof cases
  case (Admit port client now name acme r order rt')
  have "conn_inv w (s\<lparr>cs_rt := rt', cs_tls := cs_tls s, cs_wait := (r, client, order) # cs_wait s\<rparr>)"
    by (rule step_wait [OF assms(1) _ handle_admit_frame [OF Admit(2)] _ Admit(3)])
      (use handle_admit_route [OF Admit(2)] in \<open>auto simp: at_route_def\<close>)
  then show ?thesis by (simp add: Admit(1))
next
  case (Shake port client now name acme r order rt')
  show ?thesis
    unfolding Shake(1)
    by (rule runtime_step [OF assms(1)])
      (use handle_admit_frame [OF Shake(2)] handle_admit_route(1) [OF Shake(2), of r order] in
        \<open>auto simp: at_route_def open_of_def waiting_of_def\<close>)
next
  case (Refuse port client now name acme v rt')
  show ?thesis
    unfolding Refuse(1)
    by (rule runtime_step [OF assms(1)])
      (use handle_admit_frame [OF Refuse(2)] in \<open>simp_all add: open_of_def waiting_of_def\<close>)
next
  case (TLSAdmit r client order hs now rt')
  show ?thesis
    unfolding TLSAdmit(1)
    by (rule step_wait [OF assms(1) _ tls_admit_frame [OF TLSAdmit(3)] tls_admit_limit [OF TLSAdmit(3)] TLSAdmit(4)])
      (use assms(1) TLSAdmit(2) set_remove1_subset [of _ "cs_tls s"] in \<open>simp_all add: conn_inv_def limited_def\<close>)
next
  case (TLSRefuse r client order hs now rt')
  show ?thesis
    unfolding TLSRefuse(1)
    by (rule runtime_step [OF assms(1)])
      (use tls_admit_frame [OF TLSRefuse(3)] set_remove1_subset in \<open>fastforce simp: open_of_def waiting_of_def\<close>)+
next
  case (Open r client order dial wr loc t h rt')
  let ?rt1 = "upd_target (fly_key (r_id r) (t_id t)) (\<lambda>ts. ts\<lparr>ts_active := ts_active ts + 1, ts_total := ts_total ts + 1\<rparr>) (cs_rt s)"
  have rt': "rt' = upd_counters (r_id r) (inc_client (ip_key (fst client))) ?rt1"
    using Open(4) by (auto simp: handle_dial_def count_open_def Let_def split: option.splits if_splits)
  show ?thesis
    unfolding Open(1) rt' by (rule step_open [OF assms(1) Open(2)]) (simp_all add: fly_simps)
next
  case (Fail r client order dial wr loc rt')
  have rt': "rt' = count_failed (r_id r) (cs_rt s)"
    using Fail(4) by (auto simp: handle_dial_def Let_def split: option.splits if_splits)
  have less: "waiting_of rid ip s' \<le> waiting_of rid ip s" for rid ip
    using waiting_remove1 [OF Fail(2), of rid ip] by (simp add: Fail(1) waiting_of_def)
  show ?thesis
    by (rule runtime_step [OF assms(1) _ _ _ less])
      (use set_remove1_subset in \<open>fastforce simp: Fail(1) rt' fly_simps open_of_def\<close>)+
next
  case (TLSOpen r client order)
  show ?thesis
    unfolding TLSOpen(1) tls_open_def by (rule step_open [OF assms(1) TLSOpen(2)]) simp_all
next
  case (TLSDial rid ip order used dial ok used' rt')
  have "open_of r i s' = open_of r i s" for r i
    using open_remove1 [OF TLSDial(2), of r i] by (simp add: TLSDial(1) open_of_def)
  then show ?thesis
    by (intro runtime_step [OF assms(1)]) (use tls_dial_frame [OF TLSDial(3)] in \<open>simp_all add: TLSDial(1) waiting_of_def\<close>)
next
  case (TLSFail rid ip order used)
  show ?thesis
    unfolding TLSFail(1) by (rule runtime_step [OF assms(1)]) (simp_all add: fly_simps open_of_def waiting_of_def)
next
  case (Done rid tid ip n_in n_out)
  show ?thesis
    unfolding Done(1) by (rule step_close [OF assms(1) Done(2), where n_in = n_in and n_out = n_out]) (simp_all add: conn_done_def fly_simps)
next
  case (TLSDone rid ip order used n_in n_out)
  show ?thesis
    unfolding TLSDone(1)
    by (rule step_close [OF assms(1) TLSDone(2), where n_in = n_in and n_out = n_out]) (auto simp: tls_done_def Let_def fly_simps split: option.split)
next
  case (Tick r t err took)
  show ?thesis
    unfolding Tick by (rule runtime_step [OF assms(1)]) (simp_all add: fly_simps open_of_def waiting_of_def)
qed

lemma conn_inv_quiet: "quiet s \<Longrightarrow> 0 < w \<Longrightarrow> conn_inv w s"
  by (auto simp: quiet_def conn_inv_def counted_def limited_def open_of_def waiting_of_def)

interpretation conns: step_system "\<lambda>s. quiet s \<and> 0 < w" "conn_step w" "conn_inv w" for w
  by unfold_locales (auto intro: conn_inv_quiet conn_inv_step)

text \<open>C12. However connections, refusals, failures, ends and checks interleave between two
  configurations, the number a route holds for a client is the number of its open connections,
  and clients without connections have no entry.\<close>
theorem clients_counted:
  assumes "quiet s" "0 < w" "(conn_step w)\<^sup>*\<^sup>* s s'" "lookup (rt_routes (cs_rt s')) rid = Some rc"
  shows "lookup (rc_clients rc) ip = (if open_of rid ip s' = 0 then None else Some (int (open_of rid ip s')))"
  using conns.inv_reachable [of s w s'] assms by (simp add: conn_inv_def counted_def)

text \<open>C13. The limit of connections per client holds up to the handlers that were admitted and
  have not finished dialling: with at most \<open>w\<close> of those at once, a client has at most
  \<open>MaxConns + w - 1\<close> open connections on a route, so exactly \<open>MaxConns\<close> when its
  connections arrive one after another.\<close>
theorem max_conns_bound:
  assumes "quiet s" "0 < w" "(conn_step w)\<^sup>*\<^sup>* s s'"
    and "r \<in> set (g_routes (rt_cfg (cs_rt s')))" "0 < r_max_conns r"
  shows "int (open_of (r_id r) ip s') \<le> r_max_conns r + int w - 1"
proof -
  have "int (open_of (r_id r) ip s') + int (waiting_of (r_id r) ip s') < r_max_conns r + int w"
    using conns.inv_reachable [of s w s'] assms by (simp add: conn_inv_def limited_def)
  then show ?thesis by simp
qed

end
