(* ===== verification/FlyExamples.thy ===== *)
theory FlyExamples
  imports FlyRuntime
begin

text \<open>
  One applied configuration, on which the properties of the gateway are evaluated, and the run in
  which two connections of one client get past a limit of one.
\<close>

section \<open>An example gateway\<close>

text \<open>One route with a limit of one connection per client and one target, applied on a fresh gateway.\<close>

definition ex_target :: target where
  "ex_target = \<lparr>t_id = ''t1'', t_label = ''web'', t_host = ''10.77.0.2'', t_port = 8080, t_weight = 0, t_drain = False\<rparr>"

definition ex_route :: route where
  "ex_route = \<lparr>r_id = ''r1'', r_kind = ''https'', r_names = [''a.ru''], r_port = 443, r_port_to = 0,
     r_proxy = False, r_tls = False, r_allow = [], r_max_conns = 1, r_rate = 0, r_algorithm = ''roundrobin'',
     r_check = \<lparr>c_kind = ''none'', c_path = [], c_expect = 0, c_port = 0, c_interval = 0\<rparr>, r_targets = [ex_target]\<rparr>"

definition ex_gateway :: gateway where
  "ex_gateway = \<lparr>g_revision = 1, g_iface = ''nkt-fly'', g_address = ''10.77.0.1/16'', g_listen = 51820,
     g_peers = [\<lparr>p_name = ''host'', p_key = replicate 43 CHR ''A'' @ ''='', p_address = ''10.77.0.2''\<rparr>],
     g_routes = [ex_route]\<rparr>"

definition ex_rt :: runtime where
  "ex_rt = snd (rt_apply (\<lambda>_. True) [443] ex_gateway NewRuntime)"

lemma ex_valid: "gateway_validate ex_gateway = None"
  by code_simp

lemma ex_want: "want_ports ex_gateway = [443]"
  by code_simp

lemma ex_apply: "rt_apply (\<lambda>_. True) [443] ex_gateway NewRuntime = (None, ex_rt)"
  by (simp add: ex_rt_def rt_apply_def ex_valid NewRuntime_def Let_def)

lemma ex_parts [simp]:
  "g_routes ex_gateway = [ex_route]" "r_id ex_route = ''r1''" "r_targets ex_route = [ex_target]" "t_id ex_target = ''t1''"
  by (simp_all add: ex_gateway_def ex_route_def ex_target_def)

lemma ex_rt_simps [simp]:
  "rt_cfg ex_rt = ex_gateway" "rt_closed ex_rt = False"
  "rt_health ex_rt = [(''r1/t1'', fresh_target)]" "rt_routes ex_rt = [(''r1'', fresh_counters)]" "rt_rr ex_rt = [(''r1'', 0)]"
  by (simp_all add: ex_rt_def rt_apply_def ex_valid ex_want NewRuntime_def Let_def
      new_health_def put_target_def new_routes_def put_route_def new_rr_def put_rr_def fly_key_def put_def)

lemma ex_route_for: "route_for ex_gateway 443 ''a.ru'' = Some ex_route"
  by code_simp

lemma ex_live:
  "lookup (rt_health rt) ''r1/t1'' = Some ts \<Longrightarrow> ts_alive ts \<Longrightarrow> live_targets rt ex_route = [ex_target]"
  by (simp add: live_targets_def ex_route_def ex_target_def Alive_def fly_key_def)

lemma ex_pick:
  assumes "lookup (rt_health rt) ''r1/t1'' = Some ts" "ts_alive ts" "lookup (rt_rr rt) ''r1'' = Some n"
  shows "pick rt ex_route a = Some ([ex_target], rt\<lparr>rt_rr := put ''r1'' (n + 1) (rt_rr rt)\<rparr>)"
proof -
  have "slot_first [ex_target] n = 0" using slot_first_bound [of "[ex_target]" n] by simp
  moreover have "r_algorithm ex_route = ''roundrobin''" "r_id ex_route = ''r1''" by (simp_all add: ex_route_def)
  ultimately show ?thesis
    using assms ex_live [OF assms(1,2)] by (simp add: pick_def pick_first_def Let_def fly_consts move_front_def)
qed

lemma ex_admit:
  assumes "rt_cfg rt = ex_gateway" "lookup (rt_routes rt) ''r1'' = Some rc" "clients_of rc (ip_key a) = 0"
    and "lookup (rt_health rt) ''r1/t1'' = Some ts" "ts_alive ts" "lookup (rt_rr rt) ''r1'' = Some n"
  shows "handle_admit 443 a now (Some ''a.ru'') False rt = Some (VDial ex_route [ex_target],
     rt\<lparr>rt_routes := put ''r1'' (rc\<lparr>rc_total := rc_total rc + 1\<rparr>) (rt_routes rt), rt_rr := put ''r1'' (n + 1) (rt_rr rt)\<rparr>)"
proof -
  have "r_tls ex_route = False" "r_id ex_route = ''r1''" "r_allow ex_route = []" "r_max_conns ex_route = 1" "r_rate ex_route = 0"
    by (simp_all add: ex_route_def)
  then show ?thesis
    using assms
    by (simp add: handle_admit_def Let_def ex_route_for admitted_def admit_def Allowed_def upd_counters_def ex_pick)
qed

lemma ex_dial:
  "lookup (rt_health rt) ''r1/t1'' = Some ts \<Longrightarrow>
     handle_dial (\<lambda>_. True) (\<lambda>_. True) client local ex_route [ex_target] rt
       = (VProxy ex_route ex_target [], count_open ''r1'' ''t1'' (ip_key (fst client)) rt)"
  by (simp add: handle_dial_def dial_first_def ex_route_def ex_target_def fly_key_def Let_def)

definition ex_client :: "ip \<times> 16 word" where
  "ex_client = (V4 0x01020304, 5000)"

definition ex_start :: conn_sys where
  "ex_start = \<lparr>cs_rt = ex_rt, cs_tls = [], cs_wait = [], cs_open = []\<rparr>"

lemma ex_quiet: "quiet ex_start"
  by (simp add: quiet_def ex_start_def ex_valid lookup_def fresh_counters_def)

lemma ex_two_open:
  "\<exists>s'. (conn_step 2)\<^sup>*\<^sup>* ex_start s' \<and> ex_route \<in> set (g_routes (rt_cfg (cs_rt s')))
     \<and> r_max_conns ex_route = 1 \<and> open_of (r_id ex_route) (ip_key (fst ex_client)) s' = 2
     \<and> lookup (rt_routes (cs_rt s')) ''r1'' \<noteq> None"
proof -
  define ip where "ip = ip_key (fst ex_client)"
  define x where "x = (ex_route, ex_client, [ex_target])"
  define rc0 where "rc0 = fresh_counters"
  define rt1 where "rt1 = ex_rt\<lparr>rt_routes := put ''r1'' (rc0\<lparr>rc_total := rc_total rc0 + 1\<rparr>) (rt_routes ex_rt),
     rt_rr := put ''r1'' (0 + 1) (rt_rr ex_rt)\<rparr>"
  define rc1 where "rc1 = rc0\<lparr>rc_total := rc_total rc0 + 1\<rparr>"
  define rt2 where "rt2 = rt1\<lparr>rt_routes := put ''r1'' (rc1\<lparr>rc_total := rc_total rc1 + 1\<rparr>) (rt_routes rt1),
     rt_rr := put ''r1'' (0 + 1 + 1) (rt_rr rt1)\<rparr>"
  define rt3 where "rt3 = count_open ''r1'' ''t1'' ip rt2"
  define rt4 where "rt4 = count_open ''r1'' ''t1'' ip rt3"
  define s1 where "s1 = \<lparr>cs_rt = rt1, cs_tls = [], cs_wait = [x], cs_open = []\<rparr>"
  define s2 where "s2 = \<lparr>cs_rt = rt2, cs_tls = [], cs_wait = [x, x], cs_open = []\<rparr>"
  define s3 where "s3 = \<lparr>cs_rt = rt3, cs_tls = [], cs_wait = [x], cs_open = [Passed ''r1'' ''t1'' ip]\<rparr>"
  define s4 where "s4 = \<lparr>cs_rt = rt4, cs_tls = [], cs_wait = [], cs_open = [Passed ''r1'' ''t1'' ip, Passed ''r1'' ''t1'' ip]\<rparr>"
  have plain: "\<not> r_tls ex_route" by (simp add: ex_route_def)
  have alive: "ts_alive fresh_target" by (simp add: fresh_target_def)
  have a1: "handle_admit 443 (fst ex_client) 0 (Some ''a.ru'') False ex_rt = Some (VDial ex_route [ex_target], rt1)"
    unfolding rt1_def
    by (rule ex_admit [where ts = fresh_target]) (simp_all add: alive lookup_def rc0_def clients_of_def fresh_counters_def)
  have a2: "handle_admit 443 (fst ex_client) 0 (Some ''a.ru'') False rt1 = Some (VDial ex_route [ex_target], rt2)"
    unfolding rt2_def
    by (rule ex_admit [where ts = fresh_target])
      (simp_all add: rt1_def alive rc1_def rc0_def clients_of_def fresh_counters_def, simp add: lookup_def)
  have h2: "lookup (rt_health rt2) ''r1/t1'' = Some fresh_target"
    by (simp add: rt2_def rt1_def lookup_def)
  then have "\<exists>ts. lookup (rt_health rt3) ''r1/t1'' = Some ts"
    by (simp add: rt3_def count_open_def fly_simps upd_target_def fly_key_def)
  then obtain ts where h3: "lookup (rt_health rt3) ''r1/t1'' = Some ts" ..
  have "conn_step 2 ex_start s1"
    using conn_step.Admit [of 443 ex_client 0 "Some ''a.ru''" False ex_start ex_route "[ex_target]" rt1 2] a1
    by (simp add: ex_start_def s1_def waiting_of_def x_def)
  moreover have "conn_step 2 s1 s2"
    using conn_step.Admit [of 443 ex_client 0 "Some ''a.ru''" False s1 ex_route "[ex_target]" rt2 2] a2
    by (simp add: s1_def s2_def waiting_of_def x_def)
  moreover have "conn_step 2 s2 s3"
    using conn_step.Open [of ex_route ex_client "[ex_target]" s2 "\<lambda>_. True" "\<lambda>_. True" ex_client ex_target "[]" rt3 2] ex_dial [OF h2]
    by (simp add: s2_def s3_def x_def ip_def rt3_def plain)
  moreover have "conn_step 2 s3 s4"
    using conn_step.Open [of ex_route ex_client "[ex_target]" s3 "\<lambda>_. True" "\<lambda>_. True" ex_client ex_target "[]" rt4 2] ex_dial [OF h3]
    by (simp add: s3_def s4_def x_def ip_def rt4_def plain)
  ultimately have "(conn_step 2)\<^sup>*\<^sup>* ex_start s4"
    by (meson converse_rtranclp_into_rtranclp rtranclp.rtrancl_refl)
  moreover have "open_of (r_id ex_route) (ip_key (fst ex_client)) s4 = 2"
    by (simp add: open_of_def s4_def ip_def)
  moreover have "ex_route \<in> set (g_routes (rt_cfg (cs_rt s4)))"
    by (simp add: s4_def rt4_def rt3_def rt2_def rt1_def count_open_def fly_simps ex_gateway_def)
  moreover have "r_max_conns ex_route = 1" by (simp add: ex_route_def)
  moreover have "lookup (rt_routes (cs_rt s4)) ''r1'' \<noteq> None"
    by (simp add: s4_def rt4_def rt3_def rt2_def rt1_def count_open_def fly_simps)
  ultimately show ?thesis by blast
qed

text \<open>C14. The limit is not exact when connections arrive together: a client is admitted twice before
  the first connection is counted, and then holds two connections on a route that allows one.\<close>
theorem max_conns_exceeded:
  "\<exists>s'. (conn_step 2)\<^sup>*\<^sup>* ex_start s' \<and> ex_route \<in> set (g_routes (rt_cfg (cs_rt s')))
     \<and> r_max_conns ex_route = 1 \<and> open_of (r_id ex_route) (ip_key (fst ex_client)) s' = 2"
  using ex_two_open by blast

lemma max_conns_bound_witness:
  "\<exists>s'. open_of (r_id ex_route) (ip_key (fst ex_client)) s' = 2
     \<and> int (open_of (r_id ex_route) (ip_key (fst ex_client)) s') \<le> 1 + int 2 - 1"
proof -
  obtain s' where s': "(conn_step 2)\<^sup>*\<^sup>* ex_start s'" "ex_route \<in> set (g_routes (rt_cfg (cs_rt s')))"
    "r_max_conns ex_route = 1" "open_of (r_id ex_route) (ip_key (fst ex_client)) s' = 2"
    using ex_two_open by blast
  have "int (open_of (r_id ex_route) (ip_key (fst ex_client)) s') \<le> r_max_conns ex_route + int 2 - 1"
    by (rule max_conns_bound [OF ex_quiet _ s'(1,2)]) (simp_all add: s'(3))
  then show ?thesis using s' by auto
qed

lemma clients_counted_witness:
  "\<exists>(s' :: conn_sys) rc. lookup (rt_routes (cs_rt s')) ''r1'' = Some rc \<and> lookup (rc_clients rc) (ip_key (fst ex_client)) = Some 2"
proof -
  obtain s' where s': "(conn_step 2)\<^sup>*\<^sup>* ex_start s'"
    "open_of ''r1'' (ip_key (fst ex_client)) s' = 2" "lookup (rt_routes (cs_rt s')) ''r1'' \<noteq> None"
    using ex_two_open by auto
  then obtain rc where rc: "lookup (rt_routes (cs_rt s')) ''r1'' = Some rc" by blast
  have "lookup (rc_clients rc) (ip_key (fst ex_client)) = Some 2"
    using clients_counted [OF ex_quiet _ s'(1) rc, of "ip_key (fst ex_client)"] s'(2) by simp
  with rc show ?thesis by blast
qed

section \<open>The other properties on the example\<close>

lemma ex_pick_ex: "pick ex_rt ex_route a = Some ([ex_target], ex_rt\<lparr>rt_rr := put ''r1'' 1 (rt_rr ex_rt)\<rparr>)"
  using ex_pick [of ex_rt fresh_target 0 a] by (simp add: lookup_def fresh_target_def)

lemma ex_live_ex: "live_targets ex_rt ex_route = [ex_target]"
  by (rule ex_live [of _ fresh_target]) (simp_all add: lookup_def fresh_target_def)

lemma route_for_best_witness: "\<exists>p. claims_name ex_gateway 443 p ex_route \<and> matchName p ''a.ru'' \<and> wins ex_gateway 443 ''a.ru'' p"
  using route_for_best [OF ex_valid, of "''a.ru''" 443 ex_route] ex_route_for by simp

lemma pick_permutes_live_witness: "mset [ex_target] = mset (live_targets ex_rt ex_route)"
  by (rule pick_permutes_live [OF ex_pick_ex])

lemma roundrobin_fair_witness:
  "\<exists>firsts. pick_run ex_rt ex_route [NoIP] = Some firsts \<and> count_list firsts ex_target = 1"
proof -
  have w: "target_weight ex_target = 1" by (simp add: target_weight_def ex_target_def)
  have "\<exists>firsts. pick_run ex_rt ex_route [NoIP] = Some firsts
     \<and> (\<forall>t \<in> set (live_targets ex_rt ex_route). count_list firsts t = target_weight t)"
    by (rule roundrobin_fair [where n = 0])
      (simp_all add: ex_live_ex total_weight_def w, simp_all add: ex_route_def AlgoRoundRobin_def lookup_def)
  then show ?thesis by (auto simp: ex_live_ex w)
qed

lemma pick_least_loaded_witness:
  "load_of ex_rt (ex_route\<lparr>r_algorithm := ''leastconn''\<rparr>) ex_target
     \<le> load_of ex_rt (ex_route\<lparr>r_algorithm := ''leastconn''\<rparr>) ex_target"
proof -
  let ?r = "ex_route\<lparr>r_algorithm := ''leastconn''\<rparr>"
  have "live_targets ex_rt ?r = [ex_target]"
    using ex_live_ex by (simp add: live_targets_def ex_route_def)
  moreover have "lookup (rt_health ex_rt) (fly_key ''r1'' ''t1'') = Some fresh_target"
    by (simp add: lookup_def fly_key_def)
  ultimately have "pick ex_rt ?r NoIP = Some ([ex_target], ex_rt)"
    by (simp add: pick_def pick_first_def Let_def AlgoLeastConn_def move_front_def)
  then show ?thesis
    using pick_least_loaded [of ?r ex_rt NoIP ex_target "[]" ex_rt] by (simp add: AlgoLeastConn_def)
qed

lemma rate_limit_bound_witness:
  "(of_nat (fst (rate_run 5 [(''1.2.3.4'', 0), (''1.2.3.4'', 1000000000)] [] ''1.2.3.4'')) :: rat) \<le> 10"
  using rate_limit_bound [of 5 0 "[(''1.2.3.4'', 0), (''1.2.3.4'', 1000000000)]" "[]" "''1.2.3.4''"]
  by (simp add: buckets_ok_def gain_def second_ns_def del: rate_run.simps)

lemma evict_transparent_witness:
  "fst (admit_rate 5 ''1.2.3.4'' 7 (evict 0 [])) = fst (admit_rate 5 ''1.2.3.4'' 7 [])"
  by (rule evict_transparent) (simp_all add: buckets_ok_def)

lemma apply_keeps_witness: "rt_cfg ex_rt = ex_gateway \<and> lookup (rt_health ex_rt) ''r1/t1'' = Some fresh_target"
  using apply_keeps [OF ex_valid _ ex_apply] by (simp add: NewRuntime_def fly_key_def)

lemma apply_listeners_witness: "set (rt_listeners ex_rt) = {443}"
  using apply_listeners [OF ex_valid _ _ ex_apply] by (simp add: NewRuntime_def ex_want)

end
