(* ===== verification/FlyRender.thy ===== *)
theory FlyRender
  imports FlyBalance
begin

text \<open>
  Traffic Fly, the files that the gateway and the hosts are given
  (\<open>src/internal/fly/render.go\<close>, \<open>rules_unit.go\<close>): WireGuard configurations and nftables tables, written
  out byte for byte, the marks of connections, and the balancing inside the kernel. The lemmas
  show that the kernel's map has the slots of the router, that marks never collide, and which
  rules a gateway gets.
\<close>

section \<open>Text\<close>

definition nl :: string where "nl = [CHR 0x0A]"
definition tab :: string where "tab = [CHR 0x09]"
definition dq :: string where "dq = [CHR 0x22]"
definition sq :: string where "sq = [CHR 0x27]"
definition bsl :: string where "bsl = [CHR 0x5C]"

definition utf8 :: "nat list \<Rightarrow> string" where
  "utf8 bs = map char_of bs"

text \<open>\<open>%q\<close> of an ASCII string; of any other string it is the parameter \<open>uq\<close>.\<close>

definition quote_char :: "char \<Rightarrow> string" where
  "quote_char c = (let n = of_char c :: nat in
     if c = CHR 0x22 \<or> c = CHR 0x5C then [CHR 0x5C, c]
     else if 32 \<le> n \<and> n \<le> 126 then [c]
     else if 7 \<le> n \<and> n \<le> 13 then [CHR 0x5C, ''abtnvfr'' ! (n - 7)]
     else [CHR 0x5C, CHR ''x'', hex_digit (n div 16), hex_digit (n mod 16)])"

definition go_quote :: "(string \<Rightarrow> string) \<Rightarrow> string \<Rightarrow> string" where
  "go_quote uq s = (if is_ascii s then dq @ concat (map quote_char s) @ dq else uq s)"

text \<open>\<open>0x%x\<close> of a mark.\<close>

definition mark_str :: "32 word \<Rightarrow> string" where
  "mark_str m = ''0x'' @ hex_str (unat m)"

section \<open>Marks\<close>

definition GatewayMarkBase :: "32 word" where "GatewayMarkBase = 0x464c1000"
definition HostMarkBase :: "32 word" where "HostMarkBase = 0x464c0000"

definition RouteMark :: "int \<Rightarrow> 32 word" where
  "RouteMark index = (if index < 0 \<or> index > 0xfff then GatewayMarkBase else GatewayMarkBase + of_int index)"

definition HostMark :: "int \<Rightarrow> 32 word" where
  "HostMark index = (if index < 0 \<or> index > 0xfff then HostMarkBase else HostMarkBase + of_int index)"

definition tunnelMSS :: int where "tunnelMSS = 1380"

definition WGDir :: string where "WGDir = ''/etc/wireguard''"

definition WGFile :: "string \<Rightarrow> string \<Rightarrow> string" where
  "WGFile iface ext = WGDir @ ''/'' @ iface @ ext"

section \<open>Parts of the rules\<close>

definition portSpec :: "int \<Rightarrow> int \<Rightarrow> string" where
  "portSpec from to = (if to > from then itoa from @ ''-'' @ itoa to else itoa from)"

definition prefix_str :: "32 word \<times> nat \<Rightarrow> string" where
  "prefix_str p = ipv4_str (fst p) @ ''/'' @ nat_str (snd p)"

definition allowNFT :: "route \<Rightarrow> string" where
  "allowNFT r =
     (if r_allow r = [] then []
      else ''ip saddr { '' @ join '', '' (map prefix_str (List.map_filter parseAllow (r_allow r))) @ '' } '')"

definition target_slot :: "target \<Rightarrow> string" where
  "target_slot t = t_host t @ '' . '' @ itoa (t_port t)"

definition dnat_weight :: "target \<Rightarrow> int" where
  "dnat_weight t = (let w = t_weight t in if w \<le> 0 then 1 else w)"

definition dnat_slots :: "target list \<Rightarrow> string list" where
  "dnat_slots ts = concat (map (\<lambda>t. map (\<lambda>k. target_slot t) [0..dnat_weight t - 1]) ts)"

definition dnat_entries :: "string list \<Rightarrow> string list" where
  "dnat_entries slots = map (\<lambda>k. nat_str k @ '' : '' @ slots ! k) [0..<length slots]"

definition dnatTarget :: "string \<Rightarrow> target list \<Rightarrow> string" where
  "dnatTarget algo ts =
     (case ts of
        [t] \<Rightarrow> ''to '' @ t_host t @ '':'' @ itoa (t_port t)
      | _ \<Rightarrow>
          (let slots = dnat_slots ts;
               sel = (if algo = AlgoSourceHash then ''jhash ip saddr mod '' else ''numgen inc mod '') @ nat_str (length slots)
           in ''ip addr . port to '' @ sel @ '' map { '' @ join '', '' (dnat_entries slots) @ '' }''))"

definition hostTable :: "string \<Rightarrow> string" where
  "hostTable iface = replace_all iface ''-'' ''_''"

section \<open>The gateway\<close>

definition wg_peer :: "peer \<Rightarrow> string" where
  "wg_peer p = nl @ ''[Peer]'' @ nl @ ''# '' @ p_name p @ nl @ ''PublicKey = '' @ p_key p @ nl @
     ''AllowedIPs = '' @ p_address p @ ''/32'' @ nl"

text \<open>Peers are sorted by address; \<open>sort.Slice\<close> leaves no freedom when addresses are distinct.\<close>

definition GatewayWG :: "gateway \<Rightarrow> string \<Rightarrow> string" where
  "GatewayWG c keyFile =
     ''# nkt Traffic Fly '' @
     utf8 [0xE2, 0x80, 0x94, 0x20, 0xD1, 0x88, 0xD0, 0xBB, 0xD1, 0x8E, 0xD0, 0xB7] @ ''; '' @
     utf8 [0xD1, 0x84, 0xD0, 0xB0, 0xD0, 0xB9, 0xD0, 0xBB, 0x20, 0xD0, 0xBF, 0xD0, 0xB8, 0xD1, 0x88, 0xD0, 0xB5, 0xD1, 0x82] @
     '' nkt-fly, '' @
     utf8 [0xD0, 0xBF, 0xD1, 0x80, 0xD0, 0xB0, 0xD0, 0xB2, 0xD0, 0xBA, 0xD0, 0xB8, 0x20, 0xD1, 0x80, 0xD1, 0x83, 0xD0, 0xBA, 0xD0, 0xB0, 0xD0, 0xBC, 0xD0, 0xB8, 0x20, 0xD0, 0xB7, 0xD0, 0xB0, 0xD1, 0x82, 0xD1, 0x80, 0xD1, 0x83, 0xD1, 0x82, 0xD1, 0x81, 0xD1, 0x8F] @
     nl @ ''[Interface]'' @ nl @ ''Address = '' @ g_address c @ nl @ ''ListenPort = '' @
     itoa (g_listen c) @ nl @ ''Table = off'' @ nl @ ''PostUp = wg set %i private-key '' @ keyFile @
     nl @
     ''PostUp = iptables -I FORWARD 1 -i %i -j ACCEPT || true; iptables -I FORWARD 1 -o %i -j ACCEPT || true'' @
     nl @
     ''PostDown = iptables -D FORWARD -i %i -j ACCEPT || true; iptables -D FORWARD -o %i -j ACCEPT || true'' @
     nl @ ''PostUp = iptables -I INPUT 1 -p udp --dport '' @ itoa (g_listen c) @
     '' -j ACCEPT 2>/dev/null || true'' @ nl @ ''PostDown = iptables -D INPUT -p udp --dport '' @
     itoa (g_listen c) @ '' -j ACCEPT 2>/dev/null || true'' @ nl @
     concat (map wg_peer (sort_key p_address (g_peers c)))"

definition limit_match :: "(string \<Rightarrow> string) \<Rightarrow> gateway \<Rightarrow> route \<Rightarrow> string \<Rightarrow> string" where
  "limit_match uq c r proto = ''iifname != '' @ go_quote uq (g_iface c) @ '' '' @ proto @ '' dport '' @
     portSpec (r_port r) (r_port_to r) @ '' ct state new ''"

definition rate_set :: "nat \<Rightarrow> string \<Rightarrow> string" where
  "rate_set n proto =
     tab @ ''set rate_'' @ nat_str n @ ''_'' @ proto @ '' {'' @ nl @ tab @ tab @ ''type ipv4_addr'' @
     nl @ tab @ tab @ ''flags dynamic,timeout'' @ nl @ tab @ tab @ ''timeout 1m'' @ nl @ tab @ ''}'' @ nl"

definition rate_rule :: "string \<Rightarrow> nat \<Rightarrow> string \<Rightarrow> int \<Rightarrow> string" where
  "rate_rule m n proto rate =
     tab @ tab @ m @ ''add @rate_'' @ nat_str n @ ''_'' @ proto @ '' { ip saddr limit rate over '' @
     itoa rate @ ''/second burst '' @ itoa rate @ '' packets } counter drop'' @ nl"

definition conn_set :: "nat \<Rightarrow> string \<Rightarrow> string" where
  "conn_set n proto =
     tab @ ''set conn_'' @ nat_str n @ ''_'' @ proto @ '' {'' @ nl @ tab @ tab @ ''type ipv4_addr'' @
     nl @ tab @ tab @ ''flags dynamic'' @ nl @ tab @ ''}'' @ nl"

definition conn_rule :: "string \<Rightarrow> nat \<Rightarrow> string \<Rightarrow> int \<Rightarrow> string" where
  "conn_rule m n proto mx =
     tab @ tab @ m @ ''add @conn_'' @ nat_str n @ ''_'' @ proto @ '' { ip saddr ct count over '' @
     itoa mx @ '' } counter drop'' @ nl"

text \<open>The sets and rules of one route: it is numbered by its place in the configuration.\<close>

definition limit_of :: "(string \<Rightarrow> string) \<Rightarrow> gateway \<Rightarrow> nat \<Rightarrow> route \<Rightarrow> (string \<times> string) list" where
  "limit_of uq c i r =
     (if Named r \<or> (r_max_conns r = 0 \<and> r_rate r = 0) then []
      else concat (map (\<lambda>proto. let m = limit_match uq c r proto; n = Suc i in
          (if r_rate r > 0 then [(rate_set n proto, rate_rule m n proto (r_rate r))] else [])
          @ (if r_max_conns r > 0 then [(conn_set n proto, conn_rule m n proto (r_max_conns r))] else [])) (protos r)))"

definition limitRules :: "(string \<Rightarrow> string) \<Rightarrow> gateway \<Rightarrow> string" where
  "limitRules uq c =
     (let ls = concat (map (\<lambda>i. limit_of uq c i (g_routes c ! i)) [0..<length (g_routes c)]) in
      if concat (map snd ls) = [] then []
      else concat (map fst ls) @
     tab @ ''chain client_limits {'' @ nl @ tab @ tab @
     ''type filter hook prerouting priority mangle; policy accept;'' @ nl @
       concat (map snd ls) @ tab @ ''}'' @ nl)"

definition rule_targets :: "(string \<Rightarrow> string \<Rightarrow> bool) option \<Rightarrow> route \<Rightarrow> target list" where
  "rule_targets alive r =
     filter (\<lambda>t. \<not> t_drain t \<and> (case alive of None \<Rightarrow> True | Some f \<Rightarrow> f (r_id r) (t_id t))) (r_targets r)"

definition dnat_rule :: "(string \<Rightarrow> string) \<Rightarrow> nat \<Rightarrow> route \<Rightarrow> target list \<Rightarrow> string \<Rightarrow> string" where
  "dnat_rule uq i r live proto =
     (let mark = mark_str (RouteMark (int i + 1)); name = go_quote uq (''fly:'' @ r_id r) in
      if Range r
      then tab @ tab @ proto @ '' dport '' @ portSpec (r_port r) (r_port_to r) @ '' '' @ allowNFT r @
       ''ct mark set '' @ mark @ '' counter dnat to '' @ t_host (hd live) @ '' comment '' @ name @ nl
      else tab @ tab @ proto @ '' dport '' @ itoa (r_port r) @ '' '' @ allowNFT r @ ''ct mark set '' @ mark @
       '' counter dnat '' @ dnatTarget (r_algorithm r) live @ '' comment '' @ name @ nl)"

definition route_rules :: "(string \<Rightarrow> string) \<Rightarrow> (string \<Rightarrow> string \<Rightarrow> bool) option \<Rightarrow> nat \<Rightarrow> route \<Rightarrow> string list" where
  "route_rules uq alive i r =
     (if Named r then []
      else let live = rule_targets alive r in
        if live = [] then [] else map (dnat_rule uq i r live) (protos r))"

definition gateway_rules :: "(string \<Rightarrow> string) \<Rightarrow> gateway \<Rightarrow> (string \<Rightarrow> string \<Rightarrow> bool) option \<Rightarrow> string list" where
  "gateway_rules uq c alive = concat (map (\<lambda>i. route_rules uq alive i (g_routes c ! i)) [0..<length (g_routes c)])"

definition GatewayNFT :: "(string \<Rightarrow> string) \<Rightarrow> gateway \<Rightarrow> (string \<Rightarrow> string \<Rightarrow> bool) option \<Rightarrow> string" where
  "GatewayNFT uq c alive =
     ''# nkt Traffic Fly '' @
     utf8 [0xE2, 0x80, 0x94, 0x20, 0xD1, 0x88, 0xD0, 0xBB, 0xD1, 0x8E, 0xD0, 0xB7] @ nl @
     ''table ip nkt_fly'' @ nl @ ''delete table ip nkt_fly'' @ nl @ ''table ip nkt_fly {'' @ nl @ tab @
     ''chain clamp_mss {'' @ nl @ tab @ tab @
     ''type filter hook forward priority mangle; policy accept;'' @ nl @ tab @ tab @ ''oifname '' @
     go_quote uq (g_iface c) @ '' tcp flags & syn == syn tcp option maxseg size set rt mtu'' @ nl @
     tab @ tab @ ''iifname '' @ go_quote uq (g_iface c) @
     '' tcp flags & syn == syn tcp option maxseg size set rt mtu'' @ nl @ tab @ ''}'' @ nl @
     limitRules uq c @
     tab @ ''chain prerouting {'' @ nl @ tab @ tab @
     ''type nat hook prerouting priority dstnat; policy accept;'' @ nl @ tab @ tab @ ''iifname '' @
     go_quote uq (g_iface c) @ '' return'' @ nl @
     concat (gateway_rules uq c alive) @ tab @ ''}'' @ nl @ ''}'' @ nl"

section \<open>The host\<close>

definition HostWG :: "host_iface \<Rightarrow> string \<Rightarrow> string" where
  "HostWG i keyFile =
     ''# nkt Traffic Fly '' @
     utf8 [0xE2, 0x80, 0x94, 0x20, 0xD1, 0x82, 0xD1, 0x83, 0xD0, 0xBD, 0xD0, 0xBD, 0xD0, 0xB5, 0xD0, 0xBB, 0xD1, 0x8C, 0x20, 0xD0, 0xBA, 0x20, 0xD1, 0x88, 0xD0, 0xBB, 0xD1, 0x8E, 0xD0, 0xB7, 0xD1, 0x83] @
     ''; '' @
     utf8 [0xD1, 0x84, 0xD0, 0xB0, 0xD0, 0xB9, 0xD0, 0xBB, 0x20, 0xD0, 0xBF, 0xD0, 0xB8, 0xD1, 0x88, 0xD0, 0xB5, 0xD1, 0x82] @
     '' nkt, '' @
     utf8 [0xD0, 0xBF, 0xD1, 0x80, 0xD0, 0xB0, 0xD0, 0xB2, 0xD0, 0xBA, 0xD0, 0xB8, 0x20, 0xD1, 0x80, 0xD1, 0x83, 0xD0, 0xBA, 0xD0, 0xB0, 0xD0, 0xBC, 0xD0, 0xB8, 0x20, 0xD0, 0xB7, 0xD0, 0xB0, 0xD1, 0x82, 0xD1, 0x80, 0xD1, 0x83, 0xD1, 0x82, 0xD1, 0x81, 0xD1, 0x8F] @
     nl @ ''[Interface]'' @ nl @ ''Address = '' @ i_address i @ nl @ ''Table = off'' @ nl @
     ''PostUp = wg set %i private-key '' @ keyFile @ nl @ ''PostUp = ip rule del fwmark '' @
     mark_str (i_mark i) @ '' table '' @ itoa (i_table i) @
     '' 2>/dev/null || true; ip rule add fwmark '' @ mark_str (i_mark i) @ '' table '' @
     itoa (i_table i) @ '' priority '' @ itoa (i_table i) @ nl @
     ''PostUp = ip route replace default via '' @ p_address (i_gateway i) @ '' dev %i onlink table '' @
     itoa (i_table i) @ nl @
     ''PostUp = iptables -I FORWARD 1 -i %i -j ACCEPT || true; iptables -I FORWARD 1 -o %i -j ACCEPT || true'' @
     nl @
     ''PostUp = iptables -L DOCKER-USER -n >/dev/null 2>&1 && iptables -I DOCKER-USER 1 -i %i -j ACCEPT || true'' @
     nl @ ''PostDown = ip rule del fwmark '' @ mark_str (i_mark i) @ '' table '' @ itoa (i_table i) @
     '' 2>/dev/null || true; ip route flush table '' @ itoa (i_table i) @ '' 2>/dev/null || true'' @
     nl @ ''PostDown = nft delete table ip '' @ hostTable (i_name i) @ '' 2>/dev/null || true'' @ nl @
     ''PostDown = iptables -D FORWARD -i %i -j ACCEPT || true; iptables -D FORWARD -o %i -j ACCEPT || true'' @
     nl @
     ''PostDown = iptables -L DOCKER-USER -n >/dev/null 2>&1 && iptables -D DOCKER-USER -i %i -j ACCEPT || true'' @
     nl @ nl @ ''[Peer]'' @ nl @ ''# '' @ utf8 [0xD1, 0x88, 0xD0, 0xBB, 0xD1, 0x8E, 0xD0, 0xB7] @
     '' Traffic Fly'' @ nl @ ''PublicKey = '' @ p_key (i_gateway i) @ nl @ ''Endpoint = '' @
     i_endpoint i @ nl @ ''AllowedIPs = 0.0.0.0/0'' @ nl @ ''PersistentKeepalive = 25'' @ nl"

definition service_rule :: "(string \<Rightarrow> string) \<Rightarrow> host_iface \<Rightarrow> service \<Rightarrow> string" where
  "service_rule uq i s =
     (if s_port_to s > s_port s
      then tab @ tab @ ''iifname '' @ go_quote uq (i_name i) @ '' '' @ s_proto s @ '' dport '' @
       portSpec (s_port s) (s_port_to s) @ '' counter dnat to '' @ s_addr s @ nl
      else tab @ tab @ ''iifname '' @ go_quote uq (i_name i) @ '' '' @ s_proto s @ '' dport '' @
       itoa (s_port s) @ '' counter dnat to '' @ s_addr s @ '':'' @ itoa (s_to_port s) @ nl)"

definition guard_chain :: "(string \<Rightarrow> string) \<Rightarrow> host_iface \<Rightarrow> string \<Rightarrow> string \<Rightarrow> string" where
  "guard_chain uq i name hook =
     tab @ ''chain '' @ name @ '' {'' @ nl @ tab @ tab @ ''type filter hook '' @ hook @
     '' priority filter; policy accept;'' @ nl @ tab @ tab @ ''iifname '' @ go_quote uq (i_name i) @
     '' ct state established,related accept'' @ nl @ tab @ tab @ ''iifname '' @ go_quote uq (i_name i) @
     '' ct status dnat accept'' @ nl @ tab @ tab @ ''iifname '' @ go_quote uq (i_name i) @
     '' ip protocol icmp accept'' @ nl @ tab @ tab @ ''iifname '' @ go_quote uq (i_name i) @
     '' counter drop'' @ nl @ tab @ ''}'' @ nl"

definition sorted_services :: "service list \<Rightarrow> service list" where
  "sorted_services ss = sort_key (\<lambda>s. (s_port s, s_proto s)) ss"

definition HostNFT :: "(string \<Rightarrow> string) \<Rightarrow> host_iface \<Rightarrow> string" where
  "HostNFT uq i =
     ''# nkt Traffic Fly '' @
     utf8 [0xE2, 0x80, 0x94, 0x20, 0xD1, 0x85, 0xD0, 0xBE, 0xD1, 0x81, 0xD1, 0x82] @ '', '' @
     utf8 [0xD1, 0x82, 0xD1, 0x83, 0xD0, 0xBD, 0xD0, 0xBD, 0xD0, 0xB5, 0xD0, 0xBB, 0xD1, 0x8C] @ '' '' @
     i_name i @ nl @ ''table ip '' @ hostTable (i_name i) @ nl @ ''delete table ip '' @
     hostTable (i_name i) @ nl @ ''table ip '' @ hostTable (i_name i) @ '' {'' @ nl @ tab @
     ''chain to_targets {'' @ nl @ tab @ tab @
     ''type nat hook prerouting priority dstnat; policy accept;'' @ nl @ tab @ tab @ ''iifname '' @
     go_quote uq (i_name i) @ '' ct mark set '' @ mark_str (i_mark i) @ nl @
     concat (map (service_rule uq i) (sorted_services (i_services i))) @
     tab @ ''}'' @ nl @ tab @ ''chain reply_mark {'' @ nl @ tab @ tab @
     ''type filter hook prerouting priority mangle; policy accept;'' @ nl @ tab @ tab @
     ''iifname != '' @ go_quote uq (i_name i) @ '' ct mark '' @ mark_str (i_mark i) @
     '' meta mark set ct mark'' @ nl @ tab @ ''}'' @ nl @ tab @ ''chain local_mark {'' @ nl @ tab @
     tab @ ''type route hook output priority mangle; policy accept;'' @ nl @ tab @ tab @ ''ct mark '' @
     mark_str (i_mark i) @ '' meta mark set ct mark'' @ nl @ tab @ ''}'' @ nl @
     guard_chain uq i ''guard_in'' ''input'' @ guard_chain uq i ''guard_fwd'' ''forward'' @
     tab @ ''chain clamp_mss {'' @ nl @ tab @ tab @
     ''type filter hook forward priority mangle; policy accept;'' @ nl @ tab @ tab @ ''oifname '' @
     go_quote uq (i_name i) @ '' tcp flags & syn == syn tcp option maxseg size set rt mtu'' @ nl @ tab @
     ''}'' @ nl @ tab @ ''chain clamp_mss_out {'' @ nl @ tab @ tab @
     ''type filter hook output priority mangle; policy accept;'' @ nl @ tab @ tab @ ''ct mark '' @
     mark_str (i_mark i) @ '' tcp flags & syn == syn tcp option maxseg size set '' @ itoa tunnelMSS @
     nl @ tab @ ''}'' @ nl @ ''}'' @ nl"

section \<open>The service that loads the rules\<close>

definition RulesUnitName :: "string \<Rightarrow> string" where
  "RulesUnitName iface = ''nkt-fly-rules@'' @ iface @ ''.service''"

definition RulesUnit :: string where
  "RulesUnit =
     ''# nkt Traffic Fly '' @
     utf8 [0xE2, 0x80, 0x94, 0x20, 0xD1, 0x84, 0xD0, 0xB0, 0xD0, 0xB9, 0xD0, 0xBB, 0x20, 0xD0, 0xBF, 0xD0, 0xB8, 0xD1, 0x88, 0xD0, 0xB5, 0xD1, 0x82] @
     '' nkt, '' @
     utf8 [0xD0, 0xBF, 0xD1, 0x80, 0xD0, 0xB0, 0xD0, 0xB2, 0xD0, 0xBA, 0xD0, 0xB8, 0x20, 0xD1, 0x80, 0xD1, 0x83, 0xD0, 0xBA, 0xD0, 0xB0, 0xD0, 0xBC, 0xD0, 0xB8, 0x20, 0xD0, 0xB7, 0xD0, 0xB0, 0xD1, 0x82, 0xD1, 0x80, 0xD1, 0x83, 0xD1, 0x82, 0xD1, 0x81, 0xD1, 0x8F] @
     ''.'' @ nl @ ''# sysctl '' @ utf8 [0xD0, 0xB8] @ '' nft '' @
     utf8 [0xD1, 0x82, 0xD1, 0x83, 0xD0, 0xBD, 0xD0, 0xBD, 0xD0, 0xB5, 0xD0, 0xBB, 0xD1, 0x8F] @
     '' %i: '' @ utf8 [0xD0, 0xB8, 0xD0, 0xB7] @ '' PostUp wg-quick '' @
     utf8 [0xD0, 0xB8, 0xD1, 0x85, 0x20, 0xD0, 0xBD, 0xD0, 0xB5, 0x20, 0xD0, 0xBF, 0xD1, 0x83, 0xD1, 0x81, 0xD0, 0xBA, 0xD0, 0xB0, 0xD0, 0xB5, 0xD1, 0x82] @
     '' AppArmor'' @ nl @ ''# (Ubuntu 26.04+), '' @
     utf8 [0xD0, 0xBF, 0xD0, 0xBE, 0xD1, 0x8D, 0xD1, 0x82, 0xD0, 0xBE, 0xD0, 0xBC, 0xD1, 0x83, 0x20, 0xE2, 0x80, 0x94, 0x20, 0xD0, 0xBE, 0xD1, 0x82, 0xD0, 0xB4, 0xD0, 0xB5, 0xD0, 0xBB, 0xD1, 0x8C, 0xD0, 0xBD, 0xD0, 0xBE, 0xD0, 0xB9, 0x20, 0xD1, 0x81, 0xD0, 0xBB, 0xD1, 0x83, 0xD0, 0xB6, 0xD0, 0xB1, 0xD0, 0xBE, 0xD0, 0xB9, 0x20, 0xD0, 0xB2, 0xD1, 0x81, 0xD0, 0xBB, 0xD0, 0xB5, 0xD0, 0xB4, 0x20, 0xD0, 0xB7, 0xD0, 0xB0] @
     '' wg-quick@%i.'' @ nl @ ''[Unit]'' @ nl @
     ''Description=nkt Traffic Fly: forwarding and nft rules for %i'' @ nl @
     ''After=wg-quick@%i.service'' @ nl @ ''BindsTo=wg-quick@%i.service'' @ nl @ nl @ ''[Service]'' @
     nl @ ''Type=oneshot'' @ nl @ ''RemainAfterExit=yes'' @ nl @ ''ExecStart=/bin/sh -c '' @ sq @
     ''sysctl -qw net.ipv4.ip_forward=1 net.ipv4.conf.%i.rp_filter=2'' @ sq @ nl @
     ''ExecStart=/bin/sh -c '' @ sq @ ''if [ -f '' @ WGDir @ ''/%i.nft ]; then nft -f '' @ WGDir @
     ''/%i.nft; fi'' @ sq @ nl @ nl @ ''[Install]'' @ nl @ ''WantedBy=wg-quick@%i.service'' @ nl"

definition SysctlConf :: "bool \<Rightarrow> string" where
  "SysctlConf gateway =
     ''# nkt Traffic Fly '' @
     utf8 [0xE2, 0x80, 0x94, 0x20, 0xD1, 0x84, 0xD0, 0xB0, 0xD0, 0xB9, 0xD0, 0xBB, 0x20, 0xD0, 0xBF, 0xD0, 0xB8, 0xD1, 0x88, 0xD0, 0xB5, 0xD1, 0x82] @
     '' nkt, '' @
     utf8 [0xD0, 0xBF, 0xD1, 0x80, 0xD0, 0xB0, 0xD0, 0xB2, 0xD0, 0xBA, 0xD0, 0xB8, 0x20, 0xD1, 0x80, 0xD1, 0x83, 0xD0, 0xBA, 0xD0, 0xB0, 0xD0, 0xBC, 0xD0, 0xB8, 0x20, 0xD0, 0xB7, 0xD0, 0xB0, 0xD1, 0x82, 0xD1, 0x80, 0xD1, 0x83, 0xD1, 0x82, 0xD1, 0x81, 0xD1, 0x8F] @
     nl @ ''net.ipv4.ip_forward = 1'' @ nl @
     (if gateway then ''net.netfilter.nf_conntrack_acct = 1'' @ nl else [])"

section \<open>What the kernel gets\<close>

text \<open>Both loops repeat a target by its weight, each by its own rule for the weights.\<close>

lemma dnat_weight_router: "nat (dnat_weight t) = target_weight t"
  by (simp add: dnat_weight_def target_weight_def)

lemma dnat_slots_router: "dnat_slots live = map (\<lambda>i. target_slot (live ! i)) (pick_slots live)"
proof -
  have "map (\<lambda>k. target_slot t) [0..dnat_weight t - 1] = replicate (target_weight t) (target_slot t)" for t
    unfolding dnat_weight_router [symmetric] by (simp add: map_replicate_const)
  then have "dnat_slots live = map target_slot (concat (map (\<lambda>t. replicate (target_weight t) t) live))"
    by (simp add: dnat_slots_def map_concat comp_def)
  also have "\<dots> = map target_slot (map ((!) live) (pick_slots live))"
    by (simp add: pick_slots_targets)
  finally show ?thesis by (simp add: comp_def)
qed

lemma dnat_entries_router:
  assumes "total_weight live < 2 ^ 64"
  shows "dnat_entries (dnat_slots live)
     = map (\<lambda>k. nat_str k @ '' : '' @ target_slot (live ! slot_first live (of_nat k))) [0..<total_weight live]"
proof -
  have "slot_first live (of_nat k) = pick_slots live ! k" if "k < total_weight live" for k
  proof -
    have "k < 2 ^ 64" using that assms by simp
    then have "unat (of_nat k :: 64 word) = k" by (simp add: unat_of_nat take_bit_nat_eq_self)
    then show ?thesis using that by (simp add: slot_first_def length_pick_slots)
  qed
  then show ?thesis by (simp add: dnat_entries_def dnat_slots_router length_pick_slots)
qed

text \<open>C15. Kernel and router balance alike: the rule for several live targets draws a number below the
  sum of the weights the router uses, and its map has under every number \<open>k\<close> the address of
  the very target that the router, with its counter (or hash) at \<open>k\<close>, puts first.\<close>
theorem kernel_map_matches_router:
  assumes "2 \<le> length live" "total_weight live < 2 ^ 64"
  shows "dnatTarget algo live =
     ''ip addr . port to '' @ (if algo = AlgoSourceHash then ''jhash ip saddr mod '' else ''numgen inc mod '')
       @ nat_str (total_weight live) @ '' map { ''
       @ join '', '' (map (\<lambda>k. let t = live ! slot_first live (of_nat k)
                             in nat_str k @ '' : '' @ t_host t @ '' . '' @ itoa (t_port t)) [0..<total_weight live]) @ '' }''"
proof -
  obtain t1 t2 ts where live: "live = t1 # t2 # ts" using assms(1) by (cases live rule: list.exhaust; cases "tl live") auto
  have "length (dnat_slots live) = total_weight live" by (simp add: dnat_slots_router length_pick_slots)
  moreover have "dnatTarget algo live = ''ip addr . port to '' @ ((if algo = AlgoSourceHash then ''jhash ip saddr mod '' else ''numgen inc mod '')
      @ nat_str (length (dnat_slots live))) @ '' map { '' @ join '', '' (dnat_entries (dnat_slots live)) @ '' }''"
    by (simp add: dnatTarget_def live Let_def)
  ultimately show ?thesis
    unfolding dnat_entries_router [OF assms(2)] by (simp only: append_assoc Let_def target_slot_def)
qed

lemma kernel_map_matches_router_witness:
  "dnatTarget AlgoRoundRobin
     [\<lparr>t_id = ''a'', t_label = [], t_host = ''10.0.0.1'', t_port = 80, t_weight = 2, t_drain = False\<rparr>,
      \<lparr>t_id = ''b'', t_label = [], t_host = ''10.0.0.2'', t_port = 81, t_weight = 0, t_drain = False\<rparr>]
   = ''ip addr . port to numgen inc mod 3 map { 0 : 10.0.0.1 . 80, 1 : 10.0.0.1 . 80, 2 : 10.0.0.2 . 81 }''"
proof -
  let ?l = "[\<lparr>t_id = ''a'', t_label = [], t_host = ''10.0.0.1'', t_port = 80, t_weight = 2, t_drain = False\<rparr>,
      \<lparr>t_id = ''b'', t_label = [], t_host = ''10.0.0.2'', t_port = 81, t_weight = 0, t_drain = False\<rparr>]"
  have w: "total_weight ?l = 3" by (simp add: total_weight_def target_weight_def)
  have first: "slot_first ?l 0 = 0" "slot_first ?l 1 = 0" "slot_first ?l 2 = 1" by code_simp+
  have "dnatTarget AlgoRoundRobin ?l =
     ''ip addr . port to '' @ ''numgen inc mod '' @ nat_str 3 @ '' map { ''
       @ join '', '' (map (\<lambda>k. let t = ?l ! slot_first ?l (of_nat k)
                             in nat_str k @ '' : '' @ t_host t @ '' . '' @ itoa (t_port t)) [0..<3]) @ '' }''"
    using kernel_map_matches_router [of ?l AlgoRoundRobin] unfolding w by (simp add: AlgoRoundRobin_def AlgoSourceHash_def)
  moreover have "[0..<3] = [0, 1, 2 :: nat]" by code_simp
  moreover have "nat_str 0 = ''0''" "nat_str 1 = ''1''" "nat_str 2 = ''2''" "nat_str 3 = ''3''" "itoa 80 = ''80''" "itoa 81 = ''81''"
    by code_simp+
  ultimately show ?thesis by (simp add: first join_def)
qed

lemma mark_offset: "0 \<le> i \<Longrightarrow> i \<le> 0xfff \<Longrightarrow> uint (b + of_int i :: 32 word) = uint b + i" if "uint b \<le> 0x464c1000"
  using that by (simp add: uint_word_ariths uint_word_of_int)

lemma RouteMark_uint: "uint (RouteMark i) = 0x464c1000 + (if 0 \<le> i \<and> i \<le> 0xfff then i else 0)"
  by (auto simp: RouteMark_def GatewayMarkBase_def mark_offset)

lemma HostMark_uint: "uint (HostMark i) = 0x464c0000 + (if 0 \<le> i \<and> i \<le> 0xfff then i else 0)"
  by (auto simp: HostMark_def HostMarkBase_def mark_offset)

text \<open>C16. Which marks collide: two routes (two tunnels) share a mark only when neither index is from 1
  to 4095, where all of them get the base, and whatever the indices are, the mark of a route is
  never the mark of a tunnel.\<close>
theorem marks_collide_iff:
  "(RouteMark i = RouteMark j \<longleftrightarrow> i = j \<or> (i \<notin> {1..4095} \<and> j \<notin> {1..4095}))
   \<and> (HostMark i = HostMark j \<longleftrightarrow> i = j \<or> (i \<notin> {1..4095} \<and> j \<notin> {1..4095}))
   \<and> RouteMark i \<noteq> HostMark j"
proof -
  have "RouteMark i = RouteMark j \<longleftrightarrow> uint (RouteMark i) = uint (RouteMark j)"
    and "HostMark i = HostMark j \<longleftrightarrow> uint (HostMark i) = uint (HostMark j)"
    and "RouteMark i = HostMark j \<longleftrightarrow> uint (RouteMark i) = uint (HostMark j)"
    by (simp_all add: word_uint_eq_iff)
  then show ?thesis by (auto simp: RouteMark_uint HostMark_uint split: if_splits)
qed

lemma route_rules_length:
  "length (route_rules uq alive i r) =
     (if Named r \<or> rule_targets alive r = [] then 0 else length (protos r))"
  by (simp add: route_rules_def Let_def)

text \<open>The kernel table has exactly one rule per protocol of each port route that has a target
  alive and not drained, and none for the other routes.\<close>
theorem gateway_rules_count:
  "length (gateway_rules uq c alive) =
     sum_list (map (\<lambda>r. if Named r \<or> rule_targets alive r = [] then 0 else length (protos r)) (g_routes c))"
proof -
  have "length (gateway_rules uq c alive) = sum_list (map (\<lambda>i. length (route_rules uq alive i (g_routes c ! i))) [0..<length (g_routes c)])"
    by (simp add: gateway_rules_def length_concat comp_def)
  also have "\<dots> = sum_list (map (\<lambda>r. if Named r \<or> rule_targets alive r = [] then 0 else length (protos r))
      (map ((!) (g_routes c)) [0..<length (g_routes c)]))"
    by (simp add: route_rules_length comp_def)
  finally show ?thesis by (simp add: map_nth)
qed

end
