(* ===== verification/FlyKernel.thy ===== *)
theory FlyKernel
  imports GoNet
begin

text \<open>
  Traffic Fly, what the gateway reads back from the kernel (\<open>src/internal/fly/kernel.go\<close>): the
  list of connections of a route and the state of the tunnels. \<open>strconv.ParseInt\<close> without its
  error is the first component of \<open>atoi\<close>; bytes are summed in 64 bits as in the code.
\<close>

record conntrack =
  ct_conns :: int
  ct_clients :: "int strmap"
  ct_bytes :: "64 word"

definition bump :: "string \<Rightarrow> int strmap \<Rightarrow> int strmap" where
  "bump k m = put k ((case lookup m k of Some n \<Rightarrow> n | None \<Rightarrow> 0) + 1) m"

fun ct_field :: "string \<times> 64 word \<Rightarrow> string \<Rightarrow> string \<times> 64 word" where
  "ct_field (src, bytes) f =
     (case cut f ''='' of (k, v, ok) \<Rightarrow>
        if \<not> ok then (src, bytes)
        else if k = ''src'' then (if src = [] then v else src, bytes)
        else if k = ''bytes'' then (src, bytes + of_int (fst (atoi v)))
        else (src, bytes))"

definition ct_line :: "conntrack \<Rightarrow> string \<Rightarrow> conntrack" where
  "ct_line s raw =
     (let line = trim_space raw in
      if line = [] \<or> has_prefix line ''conntrack '' then s
      else case foldl ct_field ([], ct_bytes s) (GoStrings.fields line) of (src, bytes) \<Rightarrow>
        if src = [] then s\<lparr>ct_bytes := bytes\<rparr>
        else s\<lparr>ct_bytes := bytes, ct_conns := ct_conns s + 1, ct_clients := bump src (ct_clients s)\<rparr>)"

definition ParseConntrack :: "string \<Rightarrow> conntrack" where
  "ParseConntrack out = foldl ct_line \<lparr>ct_conns = 0, ct_clients = [], ct_bytes = 0\<rparr> (split_char CHR 0x0A out)"

record peer_stats =
  ps_key :: string
  ps_address :: string
  ps_endpoint :: string
  ps_handshake :: int
  ps_rx :: int
  ps_tx :: int

definition none_empty :: "string \<Rightarrow> string" where
  "none_empty s = (if s = ''(none)'' then [] else s)"

definition wg_line :: "string \<Rightarrow> peer_stats option" where
  "wg_line line =
     (let f = split_char CHR 0x09 line in
      if length f < 8 then None
      else Some \<lparr>ps_key = f ! 0,
        ps_address = none_empty (fst (cut (hd (split_char CHR '','' (f ! 3))) ''/'')),
        ps_endpoint = none_empty (f ! 2),
        ps_handshake = fst (atoi (f ! 4)), ps_rx = fst (atoi (f ! 5)), ps_tx = fst (atoi (f ! 6))\<rparr>)"

definition ParseWGDump :: "string \<Rightarrow> peer_stats list" where
  "ParseWGDump out = List.map_filter wg_line (tl (split_char CHR 0x0A (trim_space out)))"

definition TunnelUp :: "int \<Rightarrow> int \<Rightarrow> bool" where
  "TunnelUp handshake now \<longleftrightarrow> handshake > 0 \<and> now - handshake < 180"

section \<open>The clients add up\<close>

lemma sum_put:
  "wf_map m \<Longrightarrow> sum_list (map snd (put k (v :: int) m))
     = sum_list (map snd m) + v - (case lookup m k of Some n \<Rightarrow> n | None \<Rightarrow> 0)"
proof (induction m)
  case (Cons x m)
  obtain a b where x: "x = (a, b)" by (cases x)
  have wf: "wf_map m" using Cons.prems by (simp add: wf_map_def)
  show ?case
  proof (cases "a = k")
    case True
    then show ?thesis by (simp add: x put_def lookup_def)
  next
    case False
    then have "put k v (x # m) = x # put k v m" "lookup (x # m) k = lookup m k"
      by (simp_all add: x put_def lookup_def)
    then show ?thesis using Cons.IH [OF wf] by (simp add: x)
  qed
qed (simp add: put_def lookup_def)

definition ct_ok :: "conntrack \<Rightarrow> bool" where
  "ct_ok s \<longleftrightarrow> wf_map (ct_clients s) \<and> sum_list (map snd (ct_clients s)) = ct_conns s
     \<and> (\<forall>(k, n) \<in> set (ct_clients s). k \<noteq> [] \<and> 0 < n)"

lemma ct_ok_line: "ct_ok s \<Longrightarrow> ct_ok (ct_line s raw)"
proof -
  assume ok: "ct_ok s"
  have pos: "0 \<le> n" if "lookup (ct_clients s) k = Some n" for k n
    using ok lookup_in_set [OF that] by (auto simp: ct_ok_def)
  have "ct_ok (s\<lparr>ct_bytes := b, ct_conns := ct_conns s + 1, ct_clients := bump src (ct_clients s)\<rparr>)"
    if "src \<noteq> []" for b src
    using ok that pos [of src]
    by (auto simp: ct_ok_def bump_def sum_put set_put split: option.splits)
  moreover have "ct_ok (s\<lparr>ct_bytes := b\<rparr>)" for b using ok by (simp add: ct_ok_def)
  ultimately show ?thesis using ok by (simp add: ct_line_def Let_def split: prod.splits)
qed

text \<open>C17. In the summary of a route the connections of the clients add up to the number of
  connections, and every client that is listed has an address and at least one connection.\<close>
theorem conntrack_adds_up:
  "sum_list (map snd (ct_clients (ParseConntrack out))) = ct_conns (ParseConntrack out)
   \<and> list_all (\<lambda>(k, n). k \<noteq> [] \<and> 0 < n) (ct_clients (ParseConntrack out))"
proof -
  have "ct_ok s \<Longrightarrow> ct_ok (foldl ct_line s ls)" for s ls
    by (induction ls arbitrary: s) (auto intro: ct_ok_line)
  moreover have "ct_ok \<lparr>ct_conns = 0, ct_clients = [], ct_bytes = 0\<rparr>" by (simp add: ct_ok_def)
  ultimately have "ct_ok (ParseConntrack out)" unfolding ParseConntrack_def by blast
  then show ?thesis by (simp add: ct_ok_def list_all_iff)
qed

end
