(* ===== verification/DiffLCS.thy ===== *)
theory DiffLCS
  imports GoStrings
begin

text \<open>
  The line diff of configuration files (\<open>src/internal/control/diff.go\<close>): the table of longest
  common subsequences, the walk through it, the grouping into hunks with three lines of
  context and the unified format. The lemmas show that the walk is a shortest edit script and that
  the hunks, applied to the old file by their line numbers, give the new one.
\<close>

section \<open>The program\<close>

definition diffLineLimit :: nat where "diffLineLimit = 4000"

definition lf :: string where "lf = [CHR 0x0A]"
definition crlf_str :: string where "crlf_str = [CHR 0x0D, CHR 0x0A]"

definition splitLines :: "string \<Rightarrow> string list" where
  "splitLines s0 =
     (let s = trim_suffix (replace_all s0 crlf_str lf) lf
      in if s = [] then [] else split_char CHR 0x0A s)"

datatype op_kind = OpEqual | OpDelete | OpInsert

record diff_op =
  o_kind :: op_kind
  o_text :: string
  o_a :: nat
  o_b :: nat

text \<open>
  One row of the table from the row below it: \<open>prev\<close> holds the entries for the rest of the old
  file, the result those for the rest with line \<open>x\<close> in front. The last entry of a row is zero.
\<close>

fun lcs_row :: "string \<Rightarrow> string list \<Rightarrow> nat list \<Rightarrow> nat list" where
  "lcs_row x [] prev = [0]"
| "lcs_row x (y # ys) prev =
     (let row = lcs_row x ys (tl prev) in
      (if x = y then hd (tl prev) + 1
       else if hd prev \<ge> hd row then hd prev
       else hd row) # row)"

fun lcs_table :: "string list \<Rightarrow> string list \<Rightarrow> nat list list" where
  "lcs_table [] ys = [replicate (Suc (length ys)) 0]"
| "lcs_table (x # xs) ys = (let t = lcs_table xs ys in lcs_row x ys (hd t) # t)"

definition equal_op :: "string list \<Rightarrow> nat \<Rightarrow> nat \<Rightarrow> diff_op" where
  "equal_op a i j = \<lparr>o_kind = OpEqual, o_text = a ! i, o_a = i + 1, o_b = j + 1\<rparr>"

definition delete_op :: "string list \<Rightarrow> nat \<Rightarrow> diff_op" where
  "delete_op a i = \<lparr>o_kind = OpDelete, o_text = a ! i, o_a = i + 1, o_b = 0\<rparr>"

definition insert_op :: "string list \<Rightarrow> nat \<Rightarrow> diff_op" where
  "insert_op b j = \<lparr>o_kind = OpInsert, o_text = b ! j, o_a = 0, o_b = j + 1\<rparr>"

function diff_loop :: "string list \<Rightarrow> string list \<Rightarrow> nat list list \<Rightarrow> nat \<Rightarrow> nat \<Rightarrow> diff_op list" where
  "diff_loop a b t i j =
     (if i < length a \<and> j < length b then
        (if a ! i = b ! j then equal_op a i j # diff_loop a b t (i + 1) (j + 1)
         else if t ! (i + 1) ! j \<ge> t ! i ! (j + 1) then delete_op a i # diff_loop a b t (i + 1) j
         else insert_op b j # diff_loop a b t i (j + 1))
      else map (delete_op a) [i..<length a] @ map (insert_op b) [j..<length b])"
  by pat_completeness auto
termination
  by (relation "measure (\<lambda>(a, b, t, i, j). (length a - i) + (length b - j))") auto

declare diff_loop.simps [simp del]

definition diffOps :: "string list \<Rightarrow> string list \<Rightarrow> diff_op list" where
  "diffOps a b = diff_loop a b (lcs_table a b) 0 0"

record hunk =
  h_from :: nat
  h_from_count :: nat
  h_to :: nat
  h_to_count :: nat
  h_ops :: "diff_op list"

definition mark :: "nat \<Rightarrow> nat \<Rightarrow> bool list \<Rightarrow> bool list" where
  "mark lo hi kp = foldl (\<lambda>kp k. kp[k := True]) kp [lo..<Suc hi]"

definition keep_flags :: "nat \<Rightarrow> diff_op list \<Rightarrow> bool list" where
  "keep_flags ctx ops =
     foldl (\<lambda>kp i. if o_kind (ops ! i) \<noteq> OpEqual
         then mark (i - ctx) (min (i + ctx) (length ops - 1)) kp else kp)
       (replicate (length ops) False) [0..<length ops]"

function blocks :: "(diff_op \<times> bool) list \<Rightarrow> diff_op list list" where
  "blocks [] = []"
| "blocks ((x, f) # r) =
     (if \<not> f then blocks r
      else (x # map fst (takeWhile snd r)) # blocks (dropWhile snd r))"
  by pat_completeness auto
termination
  by (relation "measure length") (auto simp: less_Suc_eq_le length_dropWhile_le)

definition count_op :: "hunk \<Rightarrow> diff_op \<Rightarrow> hunk" where
  "count_op h x =
     (let h = (if o_a x > 0 then h\<lparr>h_from := (if h_from h = 0 then o_a x else h_from h),
                                h_from_count := h_from_count h + 1\<rparr> else h)
      in if o_b x > 0 then h\<lparr>h_to := (if h_to h = 0 then o_b x else h_to h),
                             h_to_count := h_to_count h + 1\<rparr> else h)"

definition mk_hunk :: "diff_op list \<Rightarrow> hunk" where
  "mk_hunk block = foldl count_op
     \<lparr>h_from = 0, h_from_count = 0, h_to = 0, h_to_count = 0, h_ops = block\<rparr> block"

definition groupHunks :: "diff_op list \<Rightarrow> nat \<Rightarrow> hunk list" where
  "groupHunks ops ctx =
     (if \<not> list_ex (\<lambda>x. o_kind x \<noteq> OpEqual) ops then []
      else map mk_hunk (blocks (zip ops (keep_flags ctx ops))))"

fun op_line :: "diff_op \<Rightarrow> string" where
  "op_line x = (case o_kind x of OpEqual \<Rightarrow> '' '' | OpDelete \<Rightarrow> ''-'' | OpInsert \<Rightarrow> ''+'') @ o_text x @ lf"

definition hunk_text :: "hunk \<Rightarrow> string" where
  "hunk_text h = ''@@ -'' @ nat_str (h_from h) @ '','' @ nat_str (h_from_count h) @ '' +'' @ nat_str (h_to h)
     @ '','' @ nat_str (h_to_count h) @ '' @@'' @ lf @ concat (map op_line (h_ops h))"

text \<open>The message for files that are too long comes from the catalogue of messages.\<close>

definition UnifiedDiff ::
  "(string \<Rightarrow> nat \<Rightarrow> string \<Rightarrow> nat \<Rightarrow> string) \<Rightarrow> string \<Rightarrow> string \<Rightarrow> string \<Rightarrow> string \<Rightarrow> string" where
  "UnifiedDiff too_big from_name to_name from to =
     (let a = splitLines from; b = splitLines to in
      if length a > diffLineLimit \<or> length b > diffLineLimit
      then too_big from_name (length a) to_name (length b)
      else let hs = groupHunks (diffOps a b) 3 in
        if hs = [] then []
        else ''--- '' @ from_name @ lf @ ''+++ '' @ to_name @ lf @ concat (map hunk_text hs))"

section \<open>The table\<close>

text \<open>Reference: the recursion without a table.\<close>

fun lcs :: "string list \<Rightarrow> string list \<Rightarrow> nat" where
  "lcs [] ys = 0"
| "lcs xs [] = 0"
| "lcs (x # xs) (y # ys) =
     (if x = y then lcs xs ys + 1 else max (lcs xs (y # ys)) (lcs (x # xs) ys))"

lemma lcs_Nil [simp]: "lcs xs [] = 0"
  by (cases xs) auto

definition row_of :: "string list \<Rightarrow> string list \<Rightarrow> nat list" where
  "row_of xs ys = map (\<lambda>j. lcs xs (drop j ys)) [0..<Suc (length ys)]"

lemma row_of_Cons: "row_of xs (y # ys) = lcs xs (y # ys) # row_of xs ys"
  unfolding row_of_def by (simp add: upt_conv_Cons map_Suc_upt [symmetric] comp_def del: upt_Suc map_Suc_upt)

lemma row_of_hd: "hd (row_of xs ys) = lcs xs ys"
  by (cases ys) (simp_all add: row_of_Cons, simp add: row_of_def)

lemma lcs_row_eq: "lcs_row x ys (row_of xs ys) = row_of (x # xs) ys"
proof (induction ys)
  case (Cons y ys)
  then show ?case by (simp add: row_of_Cons row_of_hd Let_def max_def)
qed (simp add: row_of_def)

lemma lcs_table_eq: "lcs_table xs ys = map (\<lambda>i. row_of (drop i xs) ys) [0..<Suc (length xs)]"
proof (induction xs)
  case Nil
  show ?case by (simp add: row_of_def map_replicate_const [symmetric] map_replicate_trivial)
      (simp add: replicate_append_same [symmetric] map_replicate_const)
next
  case (Cons x xs)
  have "hd (lcs_table xs ys) = row_of xs ys"
    unfolding Cons by (simp add: upt_conv_Cons del: upt_Suc)
  then show ?case
    unfolding lcs_table.simps Let_def
    by (simp add: Cons lcs_row_eq upt_conv_Cons map_Suc_upt [symmetric] comp_def del: upt_Suc map_Suc_upt)
qed

lemma lcs_table_nth:
  assumes "i \<le> length xs" "j \<le> length ys"
  shows "lcs_table xs ys ! i ! j = lcs (drop i xs) (drop j ys)"
proof -
  have "lcs_table xs ys ! i = row_of (drop i xs) ys"
    unfolding lcs_table_eq using assms(1) by (subst nth_map) (auto simp del: upt_Suc)
  then show ?thesis
    unfolding row_of_def using assms(2) by (simp del: upt_Suc)
qed

section \<open>The walk\<close>

definition old_lines :: "diff_op list \<Rightarrow> string list" where
  "old_lines ops = map o_text (filter (\<lambda>x. o_kind x \<noteq> OpInsert) ops)"

definition new_lines :: "diff_op list \<Rightarrow> string list" where
  "new_lines ops = map o_text (filter (\<lambda>x. o_kind x \<noteq> OpDelete) ops)"

definition kept_lines :: "diff_op list \<Rightarrow> string list" where
  "kept_lines ops = map o_text (filter (\<lambda>x. o_kind x = OpEqual) ops)"

text \<open>The line numbers that the operations carry.\<close>

fun numbered :: "nat \<Rightarrow> nat \<Rightarrow> diff_op list \<Rightarrow> bool" where
  "numbered i j [] = True"
| "numbered i j (x # ops) =
     (case o_kind x of
        OpEqual \<Rightarrow> o_a x = Suc i \<and> o_b x = Suc j \<and> numbered (Suc i) (Suc j) ops
      | OpDelete \<Rightarrow> o_a x = Suc i \<and> o_b x = 0 \<and> numbered (Suc i) j ops
      | OpInsert \<Rightarrow> o_a x = 0 \<and> o_b x = Suc j \<and> numbered i (Suc j) ops)"

lemma op_simps [simp]:
  "o_kind (equal_op a i j) = OpEqual" "o_text (equal_op a i j) = a ! i" "o_a (equal_op a i j) = Suc i" "o_b (equal_op a i j) = Suc j"
  "o_kind (delete_op a i) = OpDelete" "o_text (delete_op a i) = a ! i" "o_a (delete_op a i) = Suc i" "o_b (delete_op a i) = 0"
  "o_kind (insert_op a i) = OpInsert" "o_text (insert_op a i) = a ! i" "o_a (insert_op a i) = 0" "o_b (insert_op a i) = Suc i"
  by (simp_all add: equal_op_def delete_op_def insert_op_def)

lemma numbered_inserts: "j \<le> n \<Longrightarrow> numbered i j (map (insert_op b) [j..<n])"
proof (induction "n - j" arbitrary: j)
  case (Suc k)
  then show ?case by (simp add: upt_conv_Cons)
qed simp

lemma numbered_deletes:
  "i \<le> n \<Longrightarrow> numbered n j ops \<Longrightarrow> numbered i j (map (delete_op a) [i..<n] @ ops)"
proof (induction "n - i" arbitrary: i)
  case (Suc k)
  then show ?case by (simp add: upt_conv_Cons)
qed simp

lemma texts_tail: "i \<le> length a \<Longrightarrow> map ((!) a) [i..<length a] = drop i a"
  by (rule nth_equalityI) auto

lemma filter_ops [simp]:
  "filter (\<lambda>x. o_kind x \<noteq> OpInsert) (map (delete_op a) is) = map (delete_op a) is"
  "filter (\<lambda>x. o_kind x \<noteq> OpDelete) (map (delete_op a) is) = []"
  "filter (\<lambda>x. o_kind x = OpEqual) (map (delete_op a) is) = []"
  "filter (\<lambda>x. o_kind x \<noteq> OpInsert) (map (insert_op a) is) = []"
  "filter (\<lambda>x. o_kind x \<noteq> OpDelete) (map (insert_op a) is) = map (insert_op a) is"
  "filter (\<lambda>x. o_kind x = OpEqual) (map (insert_op a) is) = []"
  by (induction "is") simp_all

lemma diff_loop_step:
  assumes "i < length a" "j < length b"
  shows "a ! i = b ! j \<Longrightarrow> diff_loop a b t i j = equal_op a i j # diff_loop a b t (i + 1) (j + 1)"
    and "a ! i \<noteq> b ! j \<Longrightarrow> t ! (i + 1) ! j \<ge> t ! i ! (j + 1) \<Longrightarrow> diff_loop a b t i j = delete_op a i # diff_loop a b t (i + 1) j"
    and "a ! i \<noteq> b ! j \<Longrightarrow> \<not> t ! (i + 1) ! j \<ge> t ! i ! (j + 1) \<Longrightarrow> diff_loop a b t i j = insert_op b j # diff_loop a b t i (j + 1)"
  using assms by (simp_all add: diff_loop.simps [of a b t i j])

lemma diff_loop_end:
  "\<not> (i < length a \<and> j < length b) \<Longrightarrow>
     diff_loop a b t i j = map (delete_op a) [i..<length a] @ map (insert_op b) [j..<length b]"
  by (subst diff_loop.simps) (rule if_not_P)

lemma lines_Cons [simp]:
  "old_lines (x # ops) = (if o_kind x = OpInsert then [] else [o_text x]) @ old_lines ops"
  "new_lines (x # ops) = (if o_kind x = OpDelete then [] else [o_text x]) @ new_lines ops"
  "kept_lines (x # ops) = (if o_kind x = OpEqual then [o_text x] else []) @ kept_lines ops"
  by (simp_all add: old_lines_def new_lines_def kept_lines_def)

lemma diff_loop_lines:
  "i \<le> length a \<Longrightarrow> j \<le> length b \<Longrightarrow>
     old_lines (diff_loop a b t i j) = drop i a \<and> new_lines (diff_loop a b t i j) = drop j b
     \<and> numbered i j (diff_loop a b t i j)"
proof (induction a b t i j rule: diff_loop.induct)
  case (1 a b t i j)
  show ?case
  proof (cases "i < length a \<and> j < length b")
    case True
    then have ij: "i < length a" "j < length b" by simp_all
    have d: "a ! i # drop (i + 1) a = drop i a" "b ! j # drop (j + 1) b = drop j b"
      using ij by (simp_all add: Cons_nth_drop_Suc)
    consider (eq) "a ! i = b ! j" | (del) "a ! i \<noteq> b ! j" "t ! (i + 1) ! j \<ge> t ! i ! (j + 1)"
      | (ins) "a ! i \<noteq> b ! j" "\<not> t ! (i + 1) ! j \<ge> t ! i ! (j + 1)" by blast
    then show ?thesis
    proof cases
      case eq
      show ?thesis
        using "1.IH"(1) [OF True eq] ij d eq by (simp add: diff_loop_step(1) [OF ij eq])
    next
      case del
      show ?thesis
        using "1.IH"(2) [OF True del] ij d by (simp add: diff_loop_step(2) [OF ij del])
    next
      case ins
      show ?thesis
        using "1.IH"(3) [OF True ins] ij d by (simp add: diff_loop_step(3) [OF ij ins])
    qed
  next
    case False
    then have "i = length a \<or> j = length b" using "1.prems" by linarith
    then show ?thesis
      unfolding diff_loop_end [OF False] old_lines_def new_lines_def filter_append filter_ops
      using "1.prems" by (auto simp: comp_def texts_tail numbered_inserts intro!: numbered_deletes)
  qed
qed

lemma diff_loop_kept:
  "t = lcs_table a b \<Longrightarrow> i \<le> length a \<Longrightarrow> j \<le> length b \<Longrightarrow>
     length (kept_lines (diff_loop a b t i j)) = lcs (drop i a) (drop j b)"
proof (induction a b t i j rule: diff_loop.induct)
  case (1 a b t i j)
  show ?case
  proof (cases "i < length a \<and> j < length b")
    case True
    then have ij: "i < length a" "j < length b" by simp_all
    have d: "drop i a = a ! i # drop (i + 1) a" "drop j b = b ! j # drop (j + 1) b"
      using ij by (simp_all add: Cons_nth_drop_Suc)
    have t: "t ! (i + 1) ! j = lcs (drop (i + 1) a) (drop j b)" "t ! i ! (j + 1) = lcs (drop i a) (drop (j + 1) b)"
      using ij by (simp_all add: "1.prems"(1) lcs_table_nth)
    have rec: "lcs (drop i a) (drop j b) = (if a ! i = b ! j then lcs (drop (i + 1) a) (drop (j + 1) b) + 1
        else max (lcs (drop (i + 1) a) (drop j b)) (lcs (drop i a) (drop (j + 1) b)))"
      unfolding d by simp
    consider (eq) "a ! i = b ! j" | (del) "a ! i \<noteq> b ! j" "t ! (i + 1) ! j \<ge> t ! i ! (j + 1)"
      | (ins) "a ! i \<noteq> b ! j" "\<not> t ! (i + 1) ! j \<ge> t ! i ! (j + 1)" by blast
    then show ?thesis
    proof cases
      case eq
      show ?thesis
        using "1.IH"(1) [OF True eq "1.prems"(1)] ij eq rec by (simp add: diff_loop_step(1) [OF ij eq])
    next
      case del
      have "max (lcs (drop (i + 1) a) (drop j b)) (lcs (drop i a) (drop (j + 1) b)) = lcs (drop (i + 1) a) (drop j b)"
        using del(2) unfolding t by simp
      then show ?thesis
        using "1.IH"(2) [OF True del "1.prems"(1)] ij del(1) rec by (simp add: diff_loop_step(2) [OF ij del])
    next
      case ins
      have "max (lcs (drop (i + 1) a) (drop j b)) (lcs (drop i a) (drop (j + 1) b)) = lcs (drop i a) (drop (j + 1) b)"
        using ins(2) unfolding t by simp
      then show ?thesis
        using "1.IH"(3) [OF True ins "1.prems"(1)] ij ins(1) rec by (simp add: diff_loop_step(3) [OF ij ins])
    qed
  next
    case False
    then have "i = length a \<or> j = length b" using "1.prems" by linarith
    then show ?thesis
      unfolding diff_loop_end [OF False] kept_lines_def filter_append filter_ops by auto
  qed
qed

lemma lcs_upper: "subseq cs xs \<Longrightarrow> subseq cs ys \<Longrightarrow> length cs \<le> lcs xs ys"
proof (induction xs ys arbitrary: cs rule: lcs.induct)
  case (3 x xs y ys)
  show ?case
  proof (cases cs)
    case (Cons c cs')
    show ?thesis
    proof (cases "x = y")
      case True
      have "subseq cs' xs" "subseq cs' ys"
        using "3.prems" Cons by (auto dest: subseq_Cons' split: if_splits)
      then show ?thesis using "3.IH"(1) [OF True, of cs'] True Cons by simp
    next
      case False
      then have "subseq cs xs \<or> subseq cs ys"
        using "3.prems" Cons by (auto split: if_splits)
      then show ?thesis
        using "3.IH"(2,3) [OF False, of cs] "3.prems" False by (auto simp: le_max_iff_disj)
    qed
  qed simp
qed auto

lemma kept_subseq: "subseq (kept_lines ops) (old_lines ops) \<and> subseq (kept_lines ops) (new_lines ops)"
  by (induction ops) (auto simp: kept_lines_def old_lines_def new_lines_def simp del: lines_Cons)

text \<open>C18. The operations are a shortest edit script: read without insertions they are the old
  file, without deletions the new one, and no common subsequence of the two files is longer than
  the lines that are kept.\<close>
theorem diffOps_optimal:
  "old_lines (diffOps a b) = a \<and> new_lines (diffOps a b) = b
   \<and> (\<forall>cs. subseq cs a \<and> subseq cs b \<longrightarrow> length cs \<le> length (kept_lines (diffOps a b)))"
  using diff_loop_lines [of 0 a 0 b "lcs_table a b"] diff_loop_kept [of "lcs_table a b" a b 0 0] lcs_upper [of _ a b]
  by (simp add: diffOps_def)

lemma diffOps_optimal_witness:
  "subseq [''b'', ''d''] [''a'', ''b'', ''c'', ''d''] \<and> 2 \<le> length (kept_lines (diffOps [''a'', ''b'', ''c'', ''d''] [''b'', ''x'', ''d'']))"
proof -
  have sub: "subseq [''b'', ''d''] [''a'', ''b'', ''c'', ''d'']" "subseq [''b'', ''d''] [''b'', ''x'', ''d'']" by code_simp+
  then have "length [''b'', ''d''] \<le> length (kept_lines (diffOps [''a'', ''b'', ''c'', ''d''] [''b'', ''x'', ''d'']))"
    using diffOps_optimal [of "[''a'', ''b'', ''c'', ''d'']" "[''b'', ''x'', ''d'']"] by blast
  then show ?thesis using sub by simp
qed

section \<open>The hunks\<close>

text \<open>
  Applying hunks as \<open>patch\<close> does: lines up to the start of a hunk are copied, the old lines of the
  hunk are skipped, its equal and inserted lines are written. \<open>i\<close> counts the old lines consumed.
\<close>

fun patch :: "nat \<Rightarrow> string list \<Rightarrow> hunk list \<Rightarrow> string list" where
  "patch i rest [] = rest"
| "patch i rest (h # hs) =
     (let k = (if h_from h = 0 then 0 else h_from h - 1 - i) in
      take k rest @ new_lines (h_ops h) @ patch (i + k + h_from_count h) (drop (k + h_from_count h) rest) hs)"

subsection \<open>Which operations are kept\<close>

lemma length_mark [simp]: "length (mark lo hi kp) = length kp"
proof -
  have "length (foldl (\<lambda>kp k. kp[k := True]) kp is) = length kp" for "is" :: "nat list" and kp
    by (induction "is" arbitrary: kp) auto
  then show ?thesis by (simp add: mark_def)
qed

lemma nth_mark: "k < length kp \<Longrightarrow> mark lo hi kp ! k \<longleftrightarrow> kp ! k \<or> (lo \<le> k \<and> k \<le> hi)"
proof -
  assume k: "k < length kp"
  have "k < length kp \<Longrightarrow> foldl (\<lambda>kp k. kp[k := True]) kp is ! k \<longleftrightarrow> kp ! k \<or> k \<in> set is" for "is" :: "nat list" and kp
  proof (induction "is" arbitrary: kp)
    case (Cons a "is")
    then have "foldl (\<lambda>kp k. kp[k := True]) kp (a # is) ! k \<longleftrightarrow> kp[a := True] ! k \<or> k \<in> set is" by simp
    then show ?case using Cons.prems by (cases "k = a") auto
  qed simp
  from this [OF k, of "[lo..<Suc hi]"] show ?thesis by (auto simp: mark_def)
qed

lemma keep_flags_fold:
  fixes ctx :: nat and ops :: "diff_op list" and kp :: "bool list" and "is" :: "nat list"
  assumes "length kp = length ops" "set is \<subseteq> {0..<length ops}"
  defines "step \<equiv> (\<lambda>kp i. if o_kind (ops ! i) \<noteq> OpEqual then mark (i - ctx) (min (i + ctx) (length ops - 1)) kp else kp)"
  shows "length (foldl step kp is) = length ops
     \<and> (\<forall>k < length ops. foldl step kp is ! k \<longleftrightarrow> kp ! k \<or> (\<exists>i \<in> set is. o_kind (ops ! i) \<noteq> OpEqual \<and> i \<le> k + ctx \<and> k \<le> i + ctx))"
  using assms(1,2)
proof (induction "is" arbitrary: kp)
  case (Cons i "is")
  have len: "length (step kp i) = length ops" using Cons.prems by (simp add: step_def)
  have one: "step kp i ! k \<longleftrightarrow> kp ! k \<or> (o_kind (ops ! i) \<noteq> OpEqual \<and> i \<le> k + ctx \<and> k \<le> i + ctx)"
    if "k < length ops" for k
    using that Cons.prems(1) by (auto simp: step_def nth_mark)
  have "length (foldl step (step kp i) is) = length ops
     \<and> (\<forall>k < length ops. foldl step (step kp i) is ! k \<longleftrightarrow> step kp i ! k
         \<or> (\<exists>i \<in> set is. o_kind (ops ! i) \<noteq> OpEqual \<and> i \<le> k + ctx \<and> k \<le> i + ctx))"
    using Cons.IH [OF len] Cons.prems(2) by simp
  then show ?case using one by auto
qed simp

lemma keep_flags_nth:
  "length (keep_flags ctx ops) = length ops"
  "k < length ops \<Longrightarrow> keep_flags ctx ops ! k \<longleftrightarrow> (\<exists>i < length ops. o_kind (ops ! i) \<noteq> OpEqual \<and> i \<le> k + ctx \<and> k \<le> i + ctx)"
  using keep_flags_fold [of "replicate (length ops) False" ops "[0..<length ops]" ctx]
  by (auto simp: keep_flags_def)

text \<open>The shape the hunks rely on: what is not kept is equal, and so is the first line after it.\<close>

fun flags_ok :: "bool \<Rightarrow> (diff_op \<times> bool) list \<Rightarrow> bool" where
  "flags_ok prev [] = True"
| "flags_ok prev ((x, f) # r) = ((\<not> f \<longrightarrow> o_kind x = OpEqual) \<and> (\<not> prev \<longrightarrow> f \<longrightarrow> o_kind x = OpEqual) \<and> flags_ok f r)"

lemma flags_ok_nth:
  assumes "length fs = length ops"
    and "\<And>k. k < length ops \<Longrightarrow> \<not> fs ! k \<Longrightarrow> o_kind (ops ! k) = OpEqual"
    and "\<And>k. Suc k < length ops \<Longrightarrow> \<not> fs ! k \<Longrightarrow> o_kind (ops ! Suc k) = OpEqual"
    and "prev \<or> ops = [] \<or> o_kind (hd ops) = OpEqual"
  shows "flags_ok prev (zip ops fs)"
  using assms
proof (induction ops fs arbitrary: prev rule: list_induct2')
  case (4 x ops f fs)
  have "flags_ok f (zip ops fs)"
  proof (rule "4.IH")
    show "length fs = length ops" using 4 by simp
    show "\<And>k. k < length ops \<Longrightarrow> \<not> fs ! k \<Longrightarrow> o_kind (ops ! k) = OpEqual" using "4.prems"(2) [of "Suc k" for k] by simp
    show "\<And>k. Suc k < length ops \<Longrightarrow> \<not> fs ! k \<Longrightarrow> o_kind (ops ! Suc k) = OpEqual" using "4.prems"(3) [of "Suc k" for k] by simp
    show "f \<or> ops = [] \<or> o_kind (hd ops) = OpEqual" using "4.prems"(3) [of 0] by (cases ops) auto
  qed
  then show ?case using "4.prems"(2) [of 0] "4.prems"(4) by auto
qed auto

lemma keep_flags_ok: "0 < ctx \<Longrightarrow> flags_ok True (zip ops (keep_flags ctx ops))"
proof (rule flags_ok_nth)
  show "length (keep_flags ctx ops) = length ops" by (simp add: keep_flags_nth)
  show "o_kind (ops ! k) = OpEqual" if "k < length ops" "\<not> keep_flags ctx ops ! k" for k
  proof (rule ccontr)
    assume "o_kind (ops ! k) \<noteq> OpEqual"
    then have "keep_flags ctx ops ! k" using that(1) by (auto simp: keep_flags_nth intro!: exI [of _ k])
    then show False using that(2) by simp
  qed
  show "o_kind (ops ! Suc k) = OpEqual" if "0 < ctx" "Suc k < length ops" "\<not> keep_flags ctx ops ! k" for k
  proof (rule ccontr)
    assume "o_kind (ops ! Suc k) \<noteq> OpEqual"
    then have "keep_flags ctx ops ! k" using that by (auto simp: keep_flags_nth intro!: exI [of _ "Suc k"])
    then show False using that by simp
  qed
qed simp

lemma flags_ok_drop: "flags_ok p l \<Longrightarrow> flags_ok q (dropWhile snd l)"
proof (induction l arbitrary: p)
  case (Cons x l)
  obtain o1 f where x: "x = (o1, f)" by (cases x)
  show ?case
    using Cons.IH [of f] Cons.prems by (cases f) (auto simp: x)
qed simp

subsection \<open>Line numbers of a hunk\<close>

definition n_old :: "diff_op list \<Rightarrow> nat" where
  "n_old ops = length (old_lines ops)"

lemma numbered_append:
  "numbered i j (xs @ ys) \<longleftrightarrow> numbered i j xs \<and> numbered (i + n_old xs) (j + length (new_lines xs)) ys"
  by (induction xs arbitrary: i j) (auto simp: n_old_def old_lines_def new_lines_def split: op_kind.splits)

lemma numbered_pos: "numbered i j ops \<Longrightarrow> x \<in> set ops \<Longrightarrow> (o_a x > 0 \<longleftrightarrow> o_kind x \<noteq> OpInsert) \<and> (o_a x > 0 \<longrightarrow> i < o_a x)"
  by (induction i j ops rule: numbered.induct) (fastforce split: op_kind.splits)+

lemma foldl_count_op:
  "h_from (foldl count_op h xs) = (if h_from h \<noteq> 0 then h_from h else (case find (\<lambda>x. o_a x > 0) xs of Some x \<Rightarrow> o_a x | None \<Rightarrow> 0))
   \<and> h_from_count (foldl count_op h xs) = h_from_count h + length (filter (\<lambda>x. o_a x > 0) xs)
   \<and> h_ops (foldl count_op h xs) = h_ops h"
  by (induction xs arbitrary: h) (auto simp: count_op_def Let_def)

lemma mk_hunk_simps:
  "h_from (mk_hunk xs) = (case find (\<lambda>x. o_a x > 0) xs of Some x \<Rightarrow> o_a x | None \<Rightarrow> 0)"
  "h_from_count (mk_hunk xs) = length (filter (\<lambda>x. o_a x > 0) xs)"
  "h_ops (mk_hunk xs) = xs"
  using foldl_count_op [of "\<lparr>h_from = 0, h_from_count = 0, h_to = 0, h_to_count = 0, h_ops = xs\<rparr>" xs]
  by (auto simp: mk_hunk_def)

lemma hunk_count: "numbered i j xs \<Longrightarrow> h_from_count (mk_hunk xs) = n_old xs"
proof -
  assume n: "numbered i j xs"
  have "filter (\<lambda>x. o_a x > 0) xs = filter (\<lambda>x. o_kind x \<noteq> OpInsert) xs"
    using numbered_pos [OF n] by (intro filter_cong) auto
  then show ?thesis by (simp add: mk_hunk_simps n_old_def old_lines_def)
qed

text \<open>A block at the current line starts there or has no old line at all.\<close>

lemma hunk_from_here: "numbered i j xs \<Longrightarrow> h_from (mk_hunk xs) = 0 \<or> h_from (mk_hunk xs) = Suc i"
  by (induction i j xs rule: numbered.induct) (auto simp: mk_hunk_simps split: op_kind.splits option.splits)

lemma first_block:
  "flags_ok False l \<Longrightarrow> numbered i j (map fst l) \<Longrightarrow> blocks l = blk # bs \<Longrightarrow> i < h_from (mk_hunk blk)"
proof (induction l arbitrary: i j rule: blocks.induct)
  case (2 x f r)
  show ?case
  proof (cases f)
    case True
    then have "o_kind x = OpEqual" "blk = x # map fst (takeWhile snd r)" using 2 by auto
    then show ?thesis using "2.prems"(2) by (simp add: mk_hunk_simps)
  next
    case False
    then have "o_kind x = OpEqual" "blocks r = blk # bs" "flags_ok False r" using 2 by auto
    then show ?thesis using "2.IH"(1) [of "Suc i" "Suc j"] False "2.prems"(2) by simp
  qed
qed simp

lemma patch_shift:
  assumes "hs = [] \<or> Suc i < h_from (hd hs)"
  shows "patch i (t # rest) hs = t # patch (Suc i) rest hs"
proof (cases hs)
  case (Cons h hs')
  then have h: "Suc i < h_from h" using assms by simp
  then obtain k where k: "h_from h - 1 - i = Suc k" "h_from h - 1 - Suc i = k"
    by (metis Suc_diff_Suc diff_Suc_eq_diff_pred less_diff_conv add.commute plus_1_eq_Suc diff_diff_left diff_Suc_1)
  then show ?thesis using h by (simp add: Cons)
qed simp

lemma old_lines_append: "old_lines (xs @ ys) = old_lines xs @ old_lines ys"
  and new_lines_append: "new_lines (xs @ ys) = new_lines xs @ new_lines ys"
  by (simp_all add: old_lines_def new_lines_def)

lemma patch_blocks:
  "flags_ok p l \<Longrightarrow> numbered i j (map fst l) \<Longrightarrow>
     patch i (old_lines (map fst l)) (map mk_hunk (blocks l)) = new_lines (map fst l)"
proof (induction l arbitrary: p i j rule: blocks.induct)
  case 1
  show ?case by (simp add: old_lines_def new_lines_def)
next
  case (2 x f r)
  show ?case
  proof (cases f)
    case False
    then have eq: "o_kind x = OpEqual" and ok: "flags_ok False r" using "2.prems"(1) by auto
    then have num: "numbered (Suc i) (Suc j) (map fst r)" using "2.prems"(2) by simp
    have IH: "patch (Suc i) (old_lines (map fst r)) (map mk_hunk (blocks r)) = new_lines (map fst r)"
      using "2.IH"(1) [OF _ ok num] False by simp
    have "map mk_hunk (blocks r) = [] \<or> Suc i < h_from (hd (map mk_hunk (blocks r)))"
      using first_block [OF ok num] by (cases "blocks r") auto
    from patch_shift [OF this] IH show ?thesis by (simp add: False eq)
  next
    case True
    define blk where "blk = x # map fst (takeWhile snd r)"
    define rest where "rest = dropWhile snd r"
    have split: "map fst ((x, f) # r) = blk @ map fst rest"
      by (simp add: blk_def rest_def flip: map_append)
    have num: "numbered i j blk" "numbered (i + n_old blk) (j + length (new_lines blk)) (map fst rest)"
      using "2.prems"(2) unfolding split numbered_append by simp_all
    have ok: "flags_ok p rest" using flags_ok_drop "2.prems"(1) by (auto simp: rest_def)
    have IH: "patch (i + n_old blk) (old_lines (map fst rest)) (map mk_hunk (blocks rest)) = new_lines (map fst rest)"
      using "2.IH"(2) [OF _ ok [unfolded rest_def] num(2) [unfolded rest_def]] True by (simp add: rest_def)
    have "(if h_from (mk_hunk blk) = 0 then 0 else h_from (mk_hunk blk) - 1 - i) = 0"
      using hunk_from_here [OF num(1)] by auto
    then show ?thesis
      unfolding split using True IH
      by (simp add: blk_def [symmetric] rest_def [symmetric] hunk_count [OF num(1)] mk_hunk_simps(3)
          old_lines_append new_lines_append n_old_def Let_def)
  qed
qed

lemma all_equal_lines: "\<not> list_ex (\<lambda>x. o_kind x \<noteq> OpEqual) ops \<Longrightarrow> old_lines ops = new_lines ops"
  by (induction ops) (auto simp: old_lines_def new_lines_def)

text \<open>C19. The hunks are a patch: applied by their line numbers and counts to the old file they give
  the new file, with any positive amount of context.\<close>
theorem hunks_patch:
  assumes "0 < ctx"
  shows "patch 0 a (groupHunks (diffOps a b) ctx) = b"
proof -
  define ops where "ops = diffOps a b"
  have lines: "old_lines ops = a" "new_lines ops = b" "numbered 0 0 ops"
    using diff_loop_lines [of 0 a 0 b "lcs_table a b"] by (simp_all add: ops_def diffOps_def)
  have fst: "map fst (zip ops (keep_flags ctx ops)) = ops" by (simp add: keep_flags_nth)
  show ?thesis
  proof (cases "list_ex (\<lambda>x. o_kind x \<noteq> OpEqual) ops")
    case True
    then show ?thesis
      using patch_blocks [OF keep_flags_ok [OF assms], of 0 0 ops] lines
      by (simp add: groupHunks_def fst ops_def [symmetric])
  next
    case False
    then have "groupHunks (diffOps a b) ctx = []" by (simp add: groupHunks_def ops_def)
    then show ?thesis using all_equal_lines [OF False] lines by simp
  qed
qed

lemma hunks_patch_witness:
  "patch 0 [''a'', ''b''] (groupHunks (diffOps [''a'', ''b''] [''a'', ''c'']) 3) = [''a'', ''c'']"
  by (rule hunks_patch) simp

end
