(* ===== verification/JobManager.thy ===== *)
theory JobManager
  imports GoStrings
begin

text \<open>
  Background jobs (\<open>src/internal/jobs/jobs.go\<close> and the job rows of \<open>src/internal/store/jobs.go\<close>):
  the manager with its queues, the phases of the goroutine that runs one job, cancelling,
  recovery after a restart and the subscribers. Every lock section and every write of a row is one
  function here, so that the step relation of \<open>JobSafety\<close> can interleave them. Merged into one
  function are: the reading of a row with the lock section that follows it in \<open>run\<close> (only the kind is
  used, which never changes), a line of the journal with its event, and a lock section with the call
  of a context's cancel function after it (nothing in the manager reads the cancelled contexts).
  \<open>Recover\<close> is one function, although goroutines it starts run before it ends: they only touch rows
  of jobs it is done with. The runner of a job is not modelled beyond its result, and the
  database does not fail.
\<close>

section \<open>The stored job\<close>

datatype job_status = JobQueued | JobRunning | JobSucceeded | JobFailed | JobCanceled | JobInterrupted

record job =
  jb_kind :: string
  jb_title :: string
  jb_queue :: string
  jb_status :: job_status
  jb_params :: string
  jb_resume :: string
  jb_step :: int
  jb_steps :: int
  jb_step_name :: string
  jb_error :: string
  jb_author :: string
  jb_lang :: string
  jb_title_key :: string
  jb_title_args :: string
  jb_step_key :: string
  jb_step_args :: string
  jb_error_key :: string
  jb_error_args :: string

fun status_done :: "job_status \<Rightarrow> bool" where
  "status_done JobQueued = False"
| "status_done JobRunning = False"
| "status_done _ = True"

definition Done :: "job \<Rightarrow> bool" where
  "Done j = status_done (jb_status j)"

section \<open>The manager\<close>

text \<open>
  Where the goroutine of a job is: spawned; about to record that there is no runner; about to mark
  the row as running; the row is marked, the event is not sent; inside the runner; with the outcome
  of the runner and the flags read under the lock; the journal is written, the key of the error
  (when there is one) or the outcome is not; the outcome is recorded, the event is not sent; about
  to close the channels of the subscribers; about to hand the queue over. A request that cancelled
  a waiting job still has to record it, to send the event, to close the channels.
\<close>

datatype phase =
    Begun | Failing | Marking | Marked | Exec | Collected bool bool bool
  | Deciding job_status string bool | Recorded bool | Closing | Leaving

datatype cancel_phase = ToRecord | ToTell | ToClose

datatype job_err = UnknownJobKind string | RetryNotFinished | RetrySucceeded | RetryNotResumable
  | JobAlreadyFinished | JobRunningProcess | JobNotFound

text \<open>
  The fields after \<open>m_closed\<close> are what the code keeps in goroutines and channels: the contexts
  that were cancelled, the running goroutines, the requests that are cancelling a job, jobs that
  are stored but not queued yet, the channels (how many events wait, and whether it is closed), channels taken from the map and not
  closed yet, and whether a goroutine panicked. The last three record the history of the queues.
\<close>

record jm =
  m_runners :: "bool strmap"
  m_db :: "(int \<times> job) list"
  m_next_id :: int
  m_kv :: "int strmap"
  m_logs :: "(int \<times> string) list"
  m_running :: "int strmap"
  m_pending :: "(int list) strmap"
  m_watchers :: "(int \<times> nat list) list"
  m_ucanceled :: "int list"
  m_closed :: bool
  m_stopped :: "int list"
  m_runs :: "(string \<times> int \<times> phase) list"
  m_cancels :: "(int \<times> cancel_phase) list"
  m_queueing :: "(int \<times> string) list"
  m_chans :: "(nat \<times> (nat \<times> bool)) list"
  m_closing :: "nat list"
  m_panic :: bool
  m_enq :: "(string \<times> int) list"
  m_started :: "(string \<times> int) list"
  m_dropped :: "int list"

definition jm_new :: "(int \<times> job) list \<Rightarrow> int \<Rightarrow> int strmap \<Rightarrow> jm" where
  "jm_new db nid kv = \<lparr>m_runners = [], m_db = db, m_next_id = nid, m_kv = kv, m_logs = [],
     m_running = [], m_pending = [], m_watchers = [], m_ucanceled = [], m_closed = False, m_stopped = [],
     m_runs = [], m_cancels = [], m_queueing = [], m_chans = [], m_closing = [], m_panic = False,
     m_enq = [], m_started = [], m_dropped = []\<rparr>"

definition Register :: "string \<Rightarrow> bool \<Rightarrow> jm \<Rightarrow> jm" where
  "Register kind resumable m = m\<lparr>m_runners := put kind resumable (m_runners m)\<rparr>"

definition IsResumable :: "string \<Rightarrow> jm \<Rightarrow> bool" where
  "IsResumable kind m = (lookup (m_runners m) kind = Some True)"

definition upd_job :: "int \<Rightarrow> (job \<Rightarrow> job) \<Rightarrow> jm \<Rightarrow> jm" where
  "upd_job jid f m = (case lookup (m_db m) jid of None \<Rightarrow> m | Some j \<Rightarrow> m\<lparr>m_db := put jid (f j) (m_db m)\<rparr>)"

definition MarkJobRunning :: "int \<Rightarrow> jm \<Rightarrow> jm" where
  "MarkJobRunning jid = upd_job jid (\<lambda>j. j\<lparr>jb_status := JobRunning, jb_error := []\<rparr>)"

definition FinishJob :: "int \<Rightarrow> job_status \<Rightarrow> string \<Rightarrow> jm \<Rightarrow> jm" where
  "FinishJob jid status msg = upd_job jid (\<lambda>j. j\<lparr>jb_status := status, jb_error := msg\<rparr>)"

definition SetJobStepKey :: "int \<Rightarrow> int \<Rightarrow> int \<Rightarrow> string \<Rightarrow> string \<Rightarrow> string \<Rightarrow> jm \<Rightarrow> jm" where
  "SetJobStepKey jid n steps name key args = upd_job jid (\<lambda>j. j\<lparr>jb_step := n, jb_steps := steps, jb_step_name := name,
     jb_step_key := key, jb_step_args := args\<rparr>)"

definition SetJobResume :: "int \<Rightarrow> string \<Rightarrow> jm \<Rightarrow> jm" where
  "SetJobResume jid resume = upd_job jid (\<lambda>j. j\<lparr>jb_resume := resume\<rparr>)"

definition SetJobErrorKey :: "int \<Rightarrow> string \<Rightarrow> string \<Rightarrow> jm \<Rightarrow> jm" where
  "SetJobErrorKey jid key args = upd_job jid (\<lambda>j. j\<lparr>jb_error_key := key, jb_error_args := args\<rparr>)"

section \<open>Subscribers\<close>

definition chan_cap :: nat where "chan_cap = 64"

definition watchers_of :: "jm \<Rightarrow> int \<Rightarrow> nat list" where
  "watchers_of m jid = (case lookup (m_watchers m) jid of Some l \<Rightarrow> l | None \<Rightarrow> [])"

definition Watch :: "int \<Rightarrow> jm \<Rightarrow> nat \<times> jm" where
  "Watch jid m =
     (let ch = length (m_chans m) in
      (ch, m\<lparr>m_chans := m_chans m @ [(ch, (0, False))], m_watchers := put jid (watchers_of m jid @ [ch]) (m_watchers m)\<rparr>))"

text \<open>Closing or sending on a closed channel is a panic.\<close>

definition close_chan :: "nat \<Rightarrow> jm \<Rightarrow> jm" where
  "close_chan ch m =
     (case lookup (m_chans m) ch of
        Some (n, False) \<Rightarrow> m\<lparr>m_chans := put ch (n, True) (m_chans m)\<rparr>
      | _ \<Rightarrow> m\<lparr>m_panic := True\<rparr>)"

definition send_chan :: "nat \<Rightarrow> jm \<Rightarrow> jm" where
  "send_chan ch m =
     (case lookup (m_chans m) ch of
        Some (n, False) \<Rightarrow> if n < chan_cap then m\<lparr>m_chans := put ch (Suc n, False) (m_chans m)\<rparr> else m
      | _ \<Rightarrow> m\<lparr>m_panic := True\<rparr>)"

definition recv_chan :: "nat \<Rightarrow> jm \<Rightarrow> jm" where
  "recv_chan ch m =
     (case lookup (m_chans m) ch of
        Some (Suc n, c) \<Rightarrow> m\<lparr>m_chans := put ch (n, c) (m_chans m)\<rparr>
      | _ \<Rightarrow> m)"

definition Unwatch :: "int \<Rightarrow> nat \<Rightarrow> jm \<Rightarrow> jm" where
  "Unwatch jid ch m =
     (if ch \<in> set (watchers_of m jid)
      then close_chan ch (m\<lparr>m_watchers := put jid (remove1 ch (watchers_of m jid)) (m_watchers m)\<rparr>)
      else m)"

definition notify :: "int \<Rightarrow> jm \<Rightarrow> jm" where
  "notify jid m = fold send_chan (watchers_of m jid) m"

text \<open>The event of a changed row; a row that cannot be read sends nothing.\<close>

definition notifyJob :: "int \<Rightarrow> jm \<Rightarrow> jm" where
  "notifyJob jid m = (if lookup (m_db m) jid = None then m else notify jid m)"

text \<open>\<open>closeWatchers\<close>: the channels leave the map under the lock and are closed afterwards.\<close>

definition closeWatchers :: "int \<Rightarrow> jm \<Rightarrow> jm" where
  "closeWatchers jid m =
     (case lookup (m_watchers m) jid of
        None \<Rightarrow> m
      | Some l \<Rightarrow> m\<lparr>m_watchers := del jid (m_watchers m), m_closing := m_closing m @ l\<rparr>)"

text \<open>Each caller closes its own list; the lists of different callers are closed in any order.\<close>

definition close_detached :: "nat \<Rightarrow> jm \<Rightarrow> jm" where
  "close_detached ch m =
     (if ch \<in> set (m_closing m) then close_chan ch (m\<lparr>m_closing := remove1 ch (m_closing m)\<rparr>) else m)"

section \<open>Journal, steps and resume state\<close>

definition appendLog :: "int \<Rightarrow> string \<Rightarrow> jm \<Rightarrow> jm" where
  "appendLog jid key m = notify jid (m\<lparr>m_logs := m_logs m @ [(jid, key)]\<rparr>)"

definition setStepKey :: "int \<Rightarrow> int \<Rightarrow> int \<Rightarrow> string \<Rightarrow> string \<Rightarrow> string \<Rightarrow> jm \<Rightarrow> jm" where
  "setStepKey jid n steps name key args m = notifyJob jid (SetJobStepKey jid n steps name key args m)"

section \<open>Starting\<close>

record spec =
  sp_kind :: string
  sp_title :: string
  sp_queue :: string
  sp_author :: string
  sp_lang :: string
  sp_params :: string
  sp_steps :: int
  sp_title_key :: string
  sp_title_args :: string

definition spec_job :: "(string \<Rightarrow> string \<Rightarrow> string \<Rightarrow> string) \<Rightarrow> string \<Rightarrow> spec \<Rightarrow> job" where
  "spec_job tr ctx_lang s =
     (let lang = (if sp_lang s = [] then ctx_lang else sp_lang s);
          title = (if sp_title_key s \<noteq> [] \<and> sp_title s = [] then tr lang (sp_title_key s) (sp_title_args s) else sp_title s)
      in \<lparr>jb_kind = sp_kind s, jb_title = title, jb_queue = sp_queue s, jb_status = JobQueued,
          jb_params = sp_params s, jb_resume = [], jb_step = 0, jb_steps = sp_steps s, jb_step_name = [],
          jb_error = [], jb_author = sp_author s, jb_lang = lang, jb_title_key = sp_title_key s,
          jb_title_args = sp_title_args s, jb_step_key = [], jb_step_args = [], jb_error_key = [], jb_error_args = []\<rparr>)"

text \<open>\<open>CreateJob\<close> stores a row under the next identifier; the job is queued in a second step.\<close>

definition CreateJob :: "job \<Rightarrow> jm \<Rightarrow> int \<times> jm" where
  "CreateJob j m = (m_next_id m, m\<lparr>m_db := put (m_next_id m) j (m_db m), m_next_id := m_next_id m + 1,
     m_queueing := m_queueing m @ [(m_next_id m, jb_queue j)]\<rparr>)"

definition Start :: "(string \<Rightarrow> string \<Rightarrow> string \<Rightarrow> string) \<Rightarrow> string \<Rightarrow> spec \<Rightarrow> jm \<Rightarrow> (job_err + int) \<times> jm" where
  "Start tr ctx_lang s m =
     (if lookup (m_runners m) (sp_kind s) = None then (Inl (UnknownJobKind (sp_kind s)), m)
      else case CreateJob (spec_job tr ctx_lang s) m of (jid, m') \<Rightarrow> (Inr jid, m'))"

definition Retry :: "string \<Rightarrow> int \<Rightarrow> jm \<Rightarrow> (job_err + int) \<times> jm" where
  "Retry lang jid m =
     (case lookup (m_db m) jid of
        None \<Rightarrow> (Inl JobNotFound, m)
      | Some j \<Rightarrow>
          if \<not> Done j then (Inl RetryNotFinished, m)
          else if jb_status j = JobSucceeded then (Inl RetrySucceeded, m)
          else if \<not> IsResumable (jb_kind j) m then (Inl RetryNotResumable, m)
          else case CreateJob \<lparr>jb_kind = jb_kind j, jb_title = jb_title j, jb_queue = jb_queue j, jb_status = JobQueued,
                 jb_params = jb_params j, jb_resume = jb_resume j, jb_step = 0, jb_steps = jb_steps j, jb_step_name = [],
                 jb_error = [], jb_author = jb_author j, jb_lang = lang, jb_title_key = jb_title_key j,
                 jb_title_args = jb_title_args j, jb_step_key = [], jb_step_args = [], jb_error_key = [],
                 jb_error_args = []\<rparr> m of
               (new_id, m') \<Rightarrow> (Inr new_id, appendLog new_id ''jobs.retryOf'' m'))"

definition pending_of :: "jm \<Rightarrow> string \<Rightarrow> int list" where
  "pending_of m q = (case lookup (m_pending m) q of Some l \<Rightarrow> l | None \<Rightarrow> [])"

text \<open>Taking a queue and spawning the goroutine.\<close>

definition spawn :: "string \<Rightarrow> int \<Rightarrow> jm \<Rightarrow> jm" where
  "spawn q jid m = m\<lparr>m_running := put q jid (m_running m), m_runs := m_runs m @ [(q, jid, Begun)],
     m_started := m_started m @ [(q, jid)]\<rparr>"

definition enqueue :: "int \<Rightarrow> string \<Rightarrow> jm \<Rightarrow> jm" where
  "enqueue jid q m =
     (if m_closed m then m
      else let m = m\<lparr>m_enq := m_enq m @ [(q, jid)]\<rparr> in
        if lookup (m_running m) q \<noteq> None then m\<lparr>m_pending := put q (pending_of m q @ [jid]) (m_pending m)\<rparr>
        else spawn q jid m)"

section \<open>Running one job\<close>

definition set_phase :: "string \<Rightarrow> int \<Rightarrow> phase \<Rightarrow> jm \<Rightarrow> jm" where
  "set_phase q jid p m = m\<lparr>m_runs := map (\<lambda>(q', i', p'). if q' = q \<and> i' = jid then (q', i', p) else (q', i', p')) (m_runs m)\<rparr>"

definition run_begin :: "string \<Rightarrow> int \<Rightarrow> jm \<Rightarrow> jm" where
  "run_begin q jid m =
     (case lookup (m_db m) jid of
        None \<Rightarrow> set_phase q jid Leaving m
      | Some j \<Rightarrow> set_phase q jid (if lookup (m_runners m) (jb_kind j) = None then Failing else Marking) m)"

definition run_fail :: "string \<Rightarrow> int \<Rightarrow> jm \<Rightarrow> jm" where
  "run_fail q jid m = set_phase q jid (Recorded False) (FinishJob jid JobFailed ''jobs.unknownJobKind'' m)"

definition run_mark :: "string \<Rightarrow> int \<Rightarrow> jm \<Rightarrow> jm" where
  "run_mark q jid m = set_phase q jid Marked (MarkJobRunning jid m)"

definition run_exec :: "string \<Rightarrow> int \<Rightarrow> jm \<Rightarrow> jm" where
  "run_exec q jid m = set_phase q jid Exec (notifyJob jid m)"

definition run_collect :: "string \<Rightarrow> int \<Rightarrow> bool \<Rightarrow> jm \<Rightarrow> jm" where
  "run_collect q jid failed m =
     set_phase q jid (Collected (jid \<in> set (m_ucanceled m)) (m_closed m) failed)
       (m\<lparr>m_ucanceled := removeAll jid (m_ucanceled m)\<rparr>)"

text \<open>
  The service stops: the outcome is not recorded. Otherwise the status and the message are decided,
  and an error goes to the journal even when the job was cancelled by a user.
\<close>

definition run_report :: "string \<Rightarrow> int \<Rightarrow> bool \<Rightarrow> bool \<Rightarrow> bool \<Rightarrow> string \<Rightarrow> jm \<Rightarrow> jm" where
  "run_report q jid by_user stopping failed msg m =
     (if stopping then set_phase q jid Closing (appendLog jid ''jobs.interruptedByShutdown'' m)
      else let (status, text) = (if by_user then (JobCanceled, ''jobs.canceledByOperator'')
                                 else if failed then (JobFailed, msg) else (JobSucceeded, []))
           in set_phase q jid (Deciding status text failed) (if failed then appendLog jid ''jobs.errorLine'' m else m))"

definition run_explain :: "string \<Rightarrow> int \<Rightarrow> job_status \<Rightarrow> string \<Rightarrow> string \<Rightarrow> string \<Rightarrow> jm \<Rightarrow> jm" where
  "run_explain q jid status text key args m = set_phase q jid (Deciding status text False) (SetJobErrorKey jid key args m)"

definition run_record :: "string \<Rightarrow> int \<Rightarrow> job_status \<Rightarrow> string \<Rightarrow> jm \<Rightarrow> jm" where
  "run_record q jid status text m = set_phase q jid (Recorded True) (FinishJob jid status text m)"

definition run_tell :: "string \<Rightarrow> int \<Rightarrow> bool \<Rightarrow> jm \<Rightarrow> jm" where
  "run_tell q jid close m = set_phase q jid (if close then Closing else Leaving) (notifyJob jid m)"

definition run_close :: "string \<Rightarrow> int \<Rightarrow> jm \<Rightarrow> jm" where
  "run_close q jid m = set_phase q jid Leaving (closeWatchers jid m)"

definition run_next :: "string \<Rightarrow> int \<Rightarrow> jm \<Rightarrow> jm" where
  "run_next q jid m =
     (let m = m\<lparr>m_running := del q (m_running m), m_runs := filter (\<lambda>(q', i', p'). \<not> (q' = q \<and> i' = jid)) (m_runs m)\<rparr>;
          l = pending_of m q
      in if l = [] \<or> m_closed m then m\<lparr>m_pending := del q (m_pending m)\<rparr>
         else spawn q (hd l) (m\<lparr>m_pending := put q (tl l) (m_pending m)\<rparr>))"

section \<open>Cancelling\<close>

text \<open>The row is read first; by the time the lock is taken it may be out of date.\<close>

definition cancel_read :: "int \<Rightarrow> jm \<Rightarrow> job_err + string" where
  "cancel_read jid m =
     (case lookup (m_db m) jid of
        None \<Rightarrow> Inl JobNotFound
      | Some j \<Rightarrow> if Done j then Inl JobAlreadyFinished else Inr (jb_queue j))"

definition cancel_act :: "int \<Rightarrow> string \<Rightarrow> jm \<Rightarrow> job_err option \<times> jm" where
  "cancel_act jid q m =
     (if jid \<in> set (pending_of m q) then
        (None, m\<lparr>m_pending := put q (remove1 jid (pending_of m q)) (m_pending m), m_dropped := jid # m_dropped m,
                 m_cancels := m_cancels m @ [(jid, ToRecord)]\<rparr>)
      else case lookup (m_running m) q of
          None \<Rightarrow> (Some JobRunningProcess, m)
        | Some r \<Rightarrow> (None, m\<lparr>m_ucanceled := jid # m_ucanceled m, m_stopped := r # m_stopped m\<rparr>))"

definition set_cancel :: "int \<Rightarrow> cancel_phase \<Rightarrow> jm \<Rightarrow> jm" where
  "set_cancel jid p m = m\<lparr>m_cancels := map (\<lambda>(i, p'). if i = jid then (i, p) else (i, p')) (m_cancels m)\<rparr>"

definition cancel_record :: "int \<Rightarrow> jm \<Rightarrow> jm" where
  "cancel_record jid m = set_cancel jid ToTell (FinishJob jid JobCanceled ''jobs.canceledBeforeStart'' m)"

definition cancel_tell :: "int \<Rightarrow> jm \<Rightarrow> jm" where
  "cancel_tell jid m = set_cancel jid ToClose (notifyJob jid m)"

definition cancel_close :: "int \<Rightarrow> jm \<Rightarrow> jm" where
  "cancel_close jid m = closeWatchers jid (m\<lparr>m_cancels := filter (\<lambda>(i, p). i \<noteq> jid) (m_cancels m)\<rparr>)"

text \<open>The whole request when nothing runs in between.\<close>

definition Cancel :: "int \<Rightarrow> jm \<Rightarrow> job_err option \<times> jm" where
  "Cancel jid m =
     (case cancel_read jid m of
        Inl e \<Rightarrow> (Some e, m)
      | Inr q \<Rightarrow>
          (let (e, m1) = cancel_act jid q m in
           (e, if jid \<in> fst ` set (m_cancels m1) then cancel_close jid (cancel_tell jid (cancel_record jid m1)) else m1)))"

definition Close :: "jm \<Rightarrow> jm" where
  "Close m = m\<lparr>m_closed := True, m_stopped := map snd (m_running m) @ m_stopped m\<rparr>"

section \<open>Recovery after a restart\<close>

definition maxResumes :: int where "maxResumes = 3"

definition resume_key :: "int \<Rightarrow> string" where
  "resume_key jid = ''jobs.resumes.'' @ itoa jid"

definition countResume :: "int \<Rightarrow> jm \<Rightarrow> int \<times> jm" where
  "countResume jid m =
     (let n = (case lookup (m_kv m) (resume_key jid) of Some n \<Rightarrow> n | None \<Rightarrow> 0) + 1
      in (n, m\<lparr>m_kv := put (resume_key jid) n (m_kv m)\<rparr>))"

definition UnfinishedJobs :: "jm \<Rightarrow> (int \<times> job) list" where
  "UnfinishedJobs m = sort_key fst (filter (\<lambda>(jid, j). \<not> Done j) (m_db m))"

definition recover_one :: "int \<times> job \<Rightarrow> jm \<Rightarrow> jm" where
  "recover_one x m =
     (let (jid, j) = x in
      if \<not> IsResumable (jb_kind j) m
      then FinishJob jid JobInterrupted ''jobs.interruptedByRestartShort'' (appendLog jid ''jobs.interruptedByRestart'' m)
      else let (n, m) = countResume jid m in
        if n > maxResumes
        then FinishJob jid JobInterrupted ''jobs.resumeLoop'' (appendLog jid ''jobs.resumeLoop'' m)
        else enqueue jid (jb_queue j) (appendLog jid ''jobs.resumedAfterRestart'' m))"

definition Recover :: "jm \<Rightarrow> jm" where
  "Recover m = fold recover_one (UnfinishedJobs m) m"

end
