(* ===== verification/JobSafety.thy ===== *)
theory JobSafety
  imports JobManager
begin

text \<open>
  What the job manager guarantees under every interleaving of its lock sections: one running
  job per queue, no job forgotten in a queue, first in first out, one outcome per job, and no
  operation on a closed channel.
\<close>

section \<open>Steps\<close>

inductive job_step :: "jm \<Rightarrow> jm \<Rightarrow> bool" where
  Register: "job_step m (Register kind resumable m)"
| Start: "job_step m (snd (Start tr lang s m))"
| Retry: "job_step m (snd (Retry lang i m))"
| Enqueue: "(i, q) \<in> set (m_queueing m) \<Longrightarrow> job_step m (enqueue i q (m\<lparr>m_queueing := remove1 (i, q) (m_queueing m)\<rparr>))"
| Begin: "(q, i, Begun) \<in> set (m_runs m) \<Longrightarrow> job_step m (run_begin q i m)"
| Fail: "(q, i, Failing) \<in> set (m_runs m) \<Longrightarrow> job_step m (run_fail q i m)"
| Mark: "(q, i, Marking) \<in> set (m_runs m) \<Longrightarrow> job_step m (run_mark q i m)"
| Exec: "(q, i, Marked) \<in> set (m_runs m) \<Longrightarrow> job_step m (run_exec q i m)"
| Collect: "(q, i, Exec) \<in> set (m_runs m) \<Longrightarrow> job_step m (run_collect q i failed m)"
| Report: "(q, i, Collected b s f) \<in> set (m_runs m) \<Longrightarrow> job_step m (run_report q i b s f msg m)"
| Explain: "(q, i, Deciding st tx True) \<in> set (m_runs m) \<Longrightarrow> job_step m (run_explain q i st tx key args m)"
| Record: "(q, i, Deciding st tx False) \<in> set (m_runs m) \<Longrightarrow> job_step m (run_record q i st tx m)"
| Tell: "(q, i, Recorded c) \<in> set (m_runs m) \<Longrightarrow> job_step m (run_tell q i c m)"
| CloseRun: "(q, i, Closing) \<in> set (m_runs m) \<Longrightarrow> job_step m (run_close q i m)"
| Next: "(q, i, Leaving) \<in> set (m_runs m) \<Longrightarrow> job_step m (run_next q i m)"
| CancelAct: "lookup (m_db m) i = Some j \<Longrightarrow> job_step m (snd (cancel_act i (jb_queue j) m))"
| CancelRecord: "(i, ToRecord) \<in> set (m_cancels m) \<Longrightarrow> job_step m (cancel_record i m)"
| CancelTell: "(i, ToTell) \<in> set (m_cancels m) \<Longrightarrow> job_step m (cancel_tell i m)"
| CancelClose: "(i, ToClose) \<in> set (m_cancels m) \<Longrightarrow> job_step m (cancel_close i m)"
| Close: "job_step m (Close m)"
| SetStep: "job_step m (setStepKey i n steps name key args m)"
| SetResume: "job_step m (SetJobResume i resume m)"
| Log: "job_step m (appendLog i key m)"
| Watch: "job_step m (snd (Watch i m))"
| Unwatch: "job_step m (Unwatch i ch m)"
| Notify: "job_step m (notify i m)"
| Receive: "job_step m (recv_chan ch m)"
| Detach: "job_step m (close_detached ch m)"

inductive_cases job_stepE: "job_step m m'"

section \<open>The invariant of the queues\<close>

definition proj :: "string \<Rightarrow> (string \<times> int) list \<Rightarrow> int list" where
  "proj q xs = map snd (filter (\<lambda>x. fst x = q) xs)"

text \<open>One goroutine per queue, and it is the one the map of running jobs knows.\<close>

definition one_run :: "jm \<Rightarrow> bool" where
  "one_run m \<longleftrightarrow> distinct (map fst (m_runs m))
     \<and> (\<forall>q i. lookup (m_running m) q = Some i \<longleftrightarrow> (\<exists>p. (q, i, p) \<in> set (m_runs m)))"

definition attended :: "jm \<Rightarrow> bool" where
  "attended m \<longleftrightarrow> (\<forall>q. pending_of m q \<noteq> [] \<longrightarrow> lookup (m_running m) q \<noteq> None)"

text \<open>A job in flight is a stored job of its queue, unfinished until its goroutine is done with it.\<close>

fun job_over :: "phase \<Rightarrow> bool" where
  "job_over (Recorded c) = True"
| "job_over Closing = True"
| "job_over Leaving = True"
| "job_over p = False"

definition open_job :: "jm \<Rightarrow> int \<Rightarrow> string \<Rightarrow> bool" where
  "open_job m i q \<longleftrightarrow> (\<exists>j. lookup (m_db m) i = Some j \<and> jb_queue j = q \<and> \<not> Done j)"

definition known_job :: "jm \<Rightarrow> int \<Rightarrow> string \<Rightarrow> bool" where
  "known_job m i q \<longleftrightarrow> (\<exists>j. lookup (m_db m) i = Some j \<and> jb_queue j = q)"

definition at_home :: "jm \<Rightarrow> bool" where
  "at_home m \<longleftrightarrow> (\<forall>(i, q) \<in> set (m_queueing m). open_job m i q)
     \<and> (\<forall>q. \<forall>i \<in> set (pending_of m q). open_job m i q)
     \<and> (\<forall>(q, i, p) \<in> set (m_runs m). known_job m i q \<and> (\<not> job_over p \<longrightarrow> open_job m i q))"

definition fresh_ids :: "jm \<Rightarrow> bool" where
  "fresh_ids m \<longleftrightarrow> distinct (map snd (m_enq m)) \<and> distinct (map fst (m_queueing m))
     \<and> set (map snd (m_enq m)) \<inter> set (map fst (m_queueing m)) = {}
     \<and> (\<forall>i \<in> set (map snd (m_enq m)). i < m_next_id m)
     \<and> set (m_dropped m) \<subseteq> set (map snd (m_enq m))
     \<and> (\<forall>i j. lookup (m_db m) i = Some j \<longrightarrow> i < m_next_id m)"

text \<open>What was queued and not taken out again is what was started, then what waits, in order.\<close>

definition in_order :: "jm \<Rightarrow> bool" where
  "in_order m \<longleftrightarrow> (\<forall>q. \<exists>rest. (\<not> m_closed m \<longrightarrow> rest = [])
     \<and> filter (\<lambda>i. i \<notin> set (m_dropped m)) (proj q (m_enq m)) = proj q (m_started m) @ pending_of m q @ rest)
     \<and> (\<forall>(q, i, p) \<in> set (m_runs m). i \<in> set (proj q (m_started m)))"

definition qinv :: "jm \<Rightarrow> bool" where
  "qinv m \<longleftrightarrow> one_run m \<and> attended m \<and> at_home m \<and> fresh_ids m \<and> in_order m"

lemmas qinv_defs = one_run_def attended_def at_home_def fresh_ids_def in_order_def

lemma qinvD: "qinv m \<Longrightarrow> one_run m" "qinv m \<Longrightarrow> attended m" "qinv m \<Longrightarrow> at_home m" "qinv m \<Longrightarrow> fresh_ids m" "qinv m \<Longrightarrow> in_order m"
  by (simp_all add: qinv_def)

lemma at_homeD:
  assumes "at_home m"
  shows "(i, q) \<in> set (m_queueing m) \<Longrightarrow> open_job m i q" "i \<in> set (pending_of m q) \<Longrightarrow> open_job m i q"
    "(q, i, p) \<in> set (m_runs m) \<Longrightarrow> known_job m i q" "(q, i, p) \<in> set (m_runs m) \<Longrightarrow> \<not> job_over p \<Longrightarrow> open_job m i q"
  using assms unfolding at_home_def by fast+

lemma at_homeI:
  assumes "\<And>i q. (i, q) \<in> set (m_queueing m) \<Longrightarrow> open_job m i q" "\<And>i q. i \<in> set (pending_of m q) \<Longrightarrow> open_job m i q"
    "\<And>q i p. (q, i, p) \<in> set (m_runs m) \<Longrightarrow> known_job m i q" "\<And>q i p. (q, i, p) \<in> set (m_runs m) \<Longrightarrow> \<not> job_over p \<Longrightarrow> open_job m i q"
  shows "at_home m"
  using assms unfolding at_home_def by fast

lemma fresh_idsD:
  assumes "fresh_ids m"
  shows "distinct (map snd (m_enq m))" "distinct (map fst (m_queueing m))"
    "(q, i) \<in> set (m_enq m) \<Longrightarrow> (i, q') \<notin> set (m_queueing m)" "(q, i) \<in> set (m_enq m) \<Longrightarrow> i < m_next_id m"
    "i \<in> set (m_dropped m) \<Longrightarrow> i \<in> snd ` set (m_enq m)" "lookup (m_db m) i = Some j \<Longrightarrow> i < m_next_id m"
proof -
  show "(i, q') \<notin> set (m_queueing m)" if "(q, i) \<in> set (m_enq m)"
  proof
    assume "(i, q') \<in> set (m_queueing m)"
    then have "i \<in> set (map snd (m_enq m)) \<inter> set (map fst (m_queueing m))" using that by force
    then show False using assms unfolding fresh_ids_def by blast
  qed
  show "i < m_next_id m" if "(q, i) \<in> set (m_enq m)"
  proof -
    have "i \<in> set (map snd (m_enq m))" using that by force
    then show ?thesis using assms unfolding fresh_ids_def by blast
  qed
qed (use assms in \<open>auto simp: fresh_ids_def\<close>)

lemma fresh_idsI:
  assumes "distinct (map snd (m_enq m))" "distinct (map fst (m_queueing m))"
    "\<And>i q q'. (q, i) \<in> set (m_enq m) \<Longrightarrow> (i, q') \<notin> set (m_queueing m)" "\<And>i q. (q, i) \<in> set (m_enq m) \<Longrightarrow> i < m_next_id m"
    "\<And>i. i \<in> set (m_dropped m) \<Longrightarrow> i \<in> snd ` set (m_enq m)" "\<And>i j. lookup (m_db m) i = Some j \<Longrightarrow> i < m_next_id m"
  shows "fresh_ids m"
proof -
  have "set (map snd (m_enq m)) \<inter> set (map fst (m_queueing m)) = {}" using assms(3) by fastforce
  then show ?thesis using assms(1,2,4-6) unfolding fresh_ids_def by auto
qed

lemma in_orderD:
  assumes "in_order m"
  shows "\<exists>rest. (\<not> m_closed m \<longrightarrow> rest = []) \<and>
      filter (\<lambda>k. k \<notin> set (m_dropped m)) (proj q (m_enq m)) = proj q (m_started m) @ pending_of m q @ rest"
    and "(q, i, p) \<in> set (m_runs m) \<Longrightarrow> i \<in> set (proj q (m_started m))"
  using assms unfolding in_order_def by fast+

lemma in_orderI:
  assumes "\<And>q. \<exists>rest. (\<not> m_closed m \<longrightarrow> rest = []) \<and>
      filter (\<lambda>k. k \<notin> set (m_dropped m)) (proj q (m_enq m)) = proj q (m_started m) @ pending_of m q @ rest"
    and "\<And>q i p. (q, i, p) \<in> set (m_runs m) \<Longrightarrow> i \<in> set (proj q (m_started m))"
  shows "in_order m"
  using assms unfolding in_order_def by fast

subsection \<open>Frames\<close>

definition queue_part where
  "queue_part m = (m_db m, m_next_id m, m_running m, m_pending m, m_closed m, m_runs m, m_queueing m,
     m_enq m, m_started m, m_dropped m)"

lemma pending_of_cong: "m_pending m = m_pending m' \<Longrightarrow> pending_of m = pending_of m'"
  by (simp add: pending_of_def fun_eq_iff)

lemma one_run_cong: "m_runs m = m_runs m' \<Longrightarrow> m_running m = m_running m' \<Longrightarrow> one_run m = one_run m'"
  by (simp only: one_run_def)

lemma attended_cong: "m_pending m = m_pending m' \<Longrightarrow> m_running m = m_running m' \<Longrightarrow> attended m = attended m'"
  by (simp only: attended_def pending_of_def)

lemma fresh_ids_cong:
  "m_enq m = m_enq m' \<Longrightarrow> m_dropped m = m_dropped m' \<Longrightarrow> m_queueing m = m_queueing m' \<Longrightarrow> m_next_id m = m_next_id m' \<Longrightarrow> m_db m = m_db m'
     \<Longrightarrow> fresh_ids m = fresh_ids m'"
  by (simp only: fresh_ids_def)

lemma in_order_cong:
  "m_closed m = m_closed m' \<Longrightarrow> m_dropped m = m_dropped m' \<Longrightarrow> m_enq m = m_enq m' \<Longrightarrow> m_started m = m_started m'
     \<Longrightarrow> m_pending m = m_pending m' \<Longrightarrow> m_runs m = m_runs m' \<Longrightarrow> in_order m = in_order m'"
  by (simp only: in_order_def pending_of_def)

lemma at_home_cong:
  "m_queueing m = m_queueing m' \<Longrightarrow> m_pending m = m_pending m' \<Longrightarrow> m_runs m = m_runs m' \<Longrightarrow> m_db m = m_db m'
     \<Longrightarrow> at_home m = at_home m'"
  by (simp only: at_home_def pending_of_def open_job_def known_job_def)

lemma qinv_cong: "queue_part m = queue_part m' \<Longrightarrow> qinv m \<Longrightarrow> qinv m'"
  unfolding queue_part_def prod.inject qinv_def
  using one_run_cong [of m m'] attended_cong [of m m'] fresh_ids_cong [of m m'] in_order_cong [of m m'] at_home_cong [of m m']
  by blast

lemma queue_part_chan [job_simps]:
  "queue_part (closeWatchers i m) = queue_part m" "queue_part (Register k r m) = queue_part m"
  "queue_part (snd (Watch i m)) = queue_part m" "queue_part (close_chan ch m) = queue_part m"
  "queue_part (send_chan ch m) = queue_part m" "queue_part (recv_chan ch m) = queue_part m"
  "queue_part (m\<lparr>m_logs := l\<rparr>) = queue_part m" "queue_part (Unwatch i ch m) = queue_part m"
  "queue_part (close_detached ch m) = queue_part m" "queue_part (m\<lparr>m_cancels := cs\<rparr>) = queue_part m"
  "queue_part (set_cancel i p m) = queue_part m" "queue_part (cancel_close i m) = queue_part m"
  by (auto simp: queue_part_def closeWatchers_def Register_def Watch_def close_chan_def
      send_chan_def recv_chan_def Unwatch_def close_detached_def set_cancel_def cancel_close_def Let_def split: option.splits prod.splits bool.splits nat.splits list.splits)

lemma queue_part_notify [job_simps]: "queue_part (notify i m) = queue_part m"
proof -
  have "queue_part (fold send_chan cs m) = queue_part m" for cs
    by (induction cs arbitrary: m) (simp_all add: job_simps)
  then show ?thesis by (simp add: notify_def)
qed

lemma queue_part_log [job_simps]:
  "queue_part (notifyJob i m) = queue_part m" "queue_part (appendLog i k m) = queue_part m"
  "queue_part (setStepKey i n steps name key args m) = queue_part (SetJobStepKey i n steps name key args m)"
  by (simp_all add: notifyJob_def appendLog_def setStepKey_def job_simps)

lemma queue_part_runs: "queue_part m = queue_part m' \<Longrightarrow> m_runs m = m_runs m'"
  by (simp add: queue_part_def)

text \<open>Changes of a row that keep its queue.\<close>

lemma upd_job_fields [job_simps]:
  "m_next_id (upd_job i f m) = m_next_id m" "m_running (upd_job i f m) = m_running m"
  "m_pending (upd_job i f m) = m_pending m" "m_closed (upd_job i f m) = m_closed m" "m_runs (upd_job i f m) = m_runs m"
  "m_queueing (upd_job i f m) = m_queueing m" "m_enq (upd_job i f m) = m_enq m"
  "m_started (upd_job i f m) = m_started m" "m_dropped (upd_job i f m) = m_dropped m"
  "lookup (m_db (upd_job i f m)) k = (if k = i then map_option f (lookup (m_db m) i) else lookup (m_db m) k)"
  by (auto simp: upd_job_def split: option.splits)

lemma open_job_upd:
  "(\<And>j. jb_queue (f j) = jb_queue j) \<Longrightarrow> k \<noteq> i \<or> (\<forall>j. \<not> Done j \<longrightarrow> \<not> Done (f j)) \<Longrightarrow> open_job m k q \<Longrightarrow> open_job (upd_job i f m) k q"
  by (auto simp: open_job_def job_simps)

lemma known_job_upd: "(\<And>j. jb_queue (f j) = jb_queue j) \<Longrightarrow> known_job m k q \<Longrightarrow> known_job (upd_job i f m) k q"
  by (auto simp: known_job_def job_simps)

lemma qinv_upd_job:
  assumes "qinv m" "\<And>j. jb_queue (f j) = jb_queue j" "\<And>j. \<not> Done j \<Longrightarrow> \<not> Done (f j)"
  shows "qinv (upd_job i f m)"
proof -
  have o: "open_job m k q \<Longrightarrow> open_job (upd_job i f m) k q" and kn: "known_job m k q \<Longrightarrow> known_job (upd_job i f m) k q" for k q
    using assms(2,3) by (auto intro: open_job_upd known_job_upd)
  show ?thesis
    unfolding qinv_def
  proof (intro conjI)
    show "one_run (upd_job i f m)"
      using assms(1) one_run_cong [of m "upd_job i f m"] by (simp add: qinv_def job_simps)
    show "attended (upd_job i f m)"
      using assms(1) attended_cong [of m "upd_job i f m"] by (simp add: qinv_def job_simps)
    show "in_order (upd_job i f m)"
      using assms(1) in_order_cong [of m "upd_job i f m"] by (simp add: qinv_def job_simps)
    show "at_home (upd_job i f m)"
      using assms(1) o kn unfolding qinv_def at_home_def job_simps pending_of_def by blast
    show "fresh_ids (upd_job i f m)"
      using assms(1) by (auto simp: qinv_def fresh_ids_def job_simps split: if_splits)
  qed
qed

lemma set_phase_fields [job_simps]:
  "m_next_id (set_phase q i p m) = m_next_id m" "m_running (set_phase q i p m) = m_running m"
  "m_pending (set_phase q i p m) = m_pending m" "m_closed (set_phase q i p m) = m_closed m"
  "m_queueing (set_phase q i p m) = m_queueing m" "m_enq (set_phase q i p m) = m_enq m" "m_db (set_phase q i p m) = m_db m"
  "m_started (set_phase q i p m) = m_started m" "m_dropped (set_phase q i p m) = m_dropped m"
  "map fst (m_runs (set_phase q i p m)) = map fst (m_runs m)"
  by (auto simp: set_phase_def)

lemma set_phase_runs:
  "(q', i', p') \<in> set (m_runs (set_phase q i p m)) \<longleftrightarrow>
     (if q' = q \<and> i' = i then p' = p \<and> (\<exists>p0. (q, i, p0) \<in> set (m_runs m)) else (q', i', p') \<in> set (m_runs m))"
  by (auto simp: set_phase_def image_iff split: if_splits prod.splits)

text \<open>A job that is at work is nowhere else.\<close>

lemma in_proj: "i \<in> set (proj q xs) \<longleftrightarrow> (q, i) \<in> set xs"
  by (force simp: proj_def)

lemma distinct_proj: "distinct (map snd xs) \<Longrightarrow> distinct (proj q xs)"
  by (induction xs) (auto simp: proj_def)

lemma order_facts:
  assumes "qinv m"
  shows "distinct (proj q (m_started m) @ pending_of m q)"
    and "i \<in> set (proj q (m_started m)) \<union> set (pending_of m q) \<Longrightarrow> (q, i) \<in> set (m_enq m) \<and> i \<notin> set (m_dropped m)"
    and "(q, i, p) \<in> set (m_runs m) \<Longrightarrow> i \<in> set (proj q (m_started m))"
proof -
  obtain rest where r: "filter (\<lambda>i. i \<notin> set (m_dropped m)) (proj q (m_enq m)) = proj q (m_started m) @ pending_of m q @ rest"
    using in_orderD(1) [OF qinvD(5) [OF assms]] by blast
  have "distinct (filter (\<lambda>i. i \<notin> set (m_dropped m)) (proj q (m_enq m)))"
    using fresh_idsD(1) [OF qinvD(4) [OF assms]] by (simp add: distinct_proj)
  then show "distinct (proj q (m_started m) @ pending_of m q)" using r by auto
  show "(q, i) \<in> set (m_enq m) \<and> i \<notin> set (m_dropped m)" if "i \<in> set (proj q (m_started m)) \<union> set (pending_of m q)"
  proof -
    have "i \<in> set (filter (\<lambda>i. i \<notin> set (m_dropped m)) (proj q (m_enq m)))" using that r by auto
    then show ?thesis by (simp add: in_proj)
  qed
  show "i \<in> set (proj q (m_started m))" if "(q, i, p) \<in> set (m_runs m)"
    using in_orderD(2) [OF qinvD(5) [OF assms] that] .
qed

lemma open_known: "open_job m i q \<Longrightarrow> known_job m i q"
  by (auto simp: open_job_def known_job_def)

lemma known_unique: "known_job m i q \<Longrightarrow> known_job m i q' \<Longrightarrow> q' = q"
  by (auto simp: known_job_def)

lemma run_elsewhere:
  assumes "qinv m" "(q, i, p) \<in> set (m_runs m)"
  shows "(i, q') \<notin> set (m_queueing m)" and "i \<notin> set (pending_of m q')"
    and "(q', i, p') \<in> set (m_runs m) \<Longrightarrow> q' = q \<and> p' = p"
proof -
  note home = at_homeD [OF qinvD(3) [OF assms(1)]]
  have st: "i \<in> set (proj q (m_started m))" using order_facts(3) [OF assms] .
  then have "(q, i) \<in> set (m_enq m)" using order_facts(2) [OF assms(1)] by blast
  then show "(i, q') \<notin> set (m_queueing m)" using fresh_idsD(3) [OF qinvD(4) [OF assms(1)]] by blast
  show "i \<notin> set (pending_of m q')"
  proof
    assume pend: "i \<in> set (pending_of m q')"
    then have "q' = q" using known_unique [OF home(3) [OF assms(2)] open_known [OF home(2)]] by blast
    then show False using pend st order_facts(1) [OF assms(1), of q] by auto
  qed
  show "q' = q \<and> p' = p" if r: "(q', i, p') \<in> set (m_runs m)"
  proof -
    have q: "q' = q" using known_unique [OF home(3) [OF assms(2)] home(3) [OF r]] .
    have "distinct (map fst (m_runs m))" using qinvD(1) [OF assms(1)] by (simp add: one_run_def)
    from eq_key_imp_eq_value [OF this] r assms(2) have "(i, p') = (i, p)" unfolding q by blast
    then show ?thesis using q by simp
  qed
qed

lemma qinv_set_phase:
  assumes "qinv m" "(q, i, p0) \<in> set (m_runs m)" "job_over p0 \<longrightarrow> job_over p"
  shows "qinv (set_phase q i p m)"
proof -
  have "one_run (set_phase q i p m)"
    using assms(1,2) unfolding qinv_def one_run_def job_simps set_phase_runs by (auto split: if_splits)
  moreover have "at_home (set_phase q i p m)"
  proof -
    have same: "open_job (set_phase q i p m) = open_job m" "known_job (set_phase q i p m) = known_job m"
      by (auto simp: fun_eq_iff open_job_def known_job_def job_simps)
    have "known_job m i' q' \<and> (\<not> job_over p' \<longrightarrow> open_job m i' q')"
      if "(q', i', p') \<in> set (m_runs (set_phase q i p m))" for q' i' p'
      using that assms unfolding set_phase_runs qinv_def at_home_def by (cases "q' = q \<and> i' = i") auto
    then show ?thesis
      using assms(1) unfolding qinv_def at_home_def job_simps same pending_of_def by blast
  qed
  moreover have "in_order (set_phase q i p m)"
  proof -
    have "i' \<in> set (proj q' (m_started m))" if "(q', i', p') \<in> set (m_runs (set_phase q i p m))" for q' i' p'
      using that assms order_facts(3) [OF assms(1)] unfolding set_phase_runs by (auto split: if_splits)
    then show ?thesis
      using assms(1) unfolding qinv_def in_order_def job_simps pending_of_def by blast
  qed
  ultimately show ?thesis
    using assms(1) attended_cong [of m "set_phase q i p m"] fresh_ids_cong [of m "set_phase q i p m"]
    by (simp add: qinv_def job_simps)
qed

text \<open>Writing the outcome of the job that is at work.\<close>

lemma qinv_finish_run:
  assumes "qinv m" "(q, i, p0) \<in> set (m_runs m)" "\<And>j. jb_queue (f j) = jb_queue j" "job_over over"
  shows "qinv (set_phase q i over (upd_job i f m))"
proof -
  note else = run_elsewhere [OF assms(1,2)]
  let ?m = "set_phase q i over (upd_job i f m)"
  have o: "open_job ?m k q' \<longleftrightarrow> open_job m k q'" if "k \<noteq> i" for k q'
    using that by (simp add: open_job_def job_simps)
  have kn: "known_job m k q' \<Longrightarrow> known_job ?m k q'" for k q'
    using assms(3) by (auto simp: known_job_def job_simps)
  have runs: "(q', i', p') \<in> set (m_runs ?m) \<longleftrightarrow>
      (if q' = q \<and> i' = i then p' = over else (q', i', p') \<in> set (m_runs m))" for q' i' p'
    using assms(2) by (auto simp: set_phase_runs job_simps)
  have "one_run ?m"
    using assms(1,2) unfolding qinv_def one_run_def runs job_simps by (auto split: if_splits)
  moreover have "at_home ?m"
  proof (rule at_homeI)
    note home = at_homeD [OF qinvD(3) [OF assms(1)]]
    have old: "(q', k, p) \<in> set (m_runs m) \<and> k \<noteq> i \<or> q' = q \<and> k = i \<and> p = over"
      if "(q', k, p) \<in> set (m_runs ?m)" for q' k p
      using that else(3) [of q' p] unfolding runs by (auto split: if_splits)
    show "open_job ?m k q'" if "(k, q') \<in> set (m_queueing ?m)" for k q'
    proof -
      have "(k, q') \<in> set (m_queueing m)" using that by (simp add: job_simps)
      then show ?thesis using else(1) [of q'] home(1) o by metis
    qed
    show "open_job ?m k q'" if "k \<in> set (pending_of ?m q')" for k q'
    proof -
      have "k \<in> set (pending_of m q')" using that by (simp add: job_simps pending_of_def)
      then show ?thesis using else(2) [of q'] home(2) o by metis
    qed
    show "known_job ?m k q'" if "(q', k, p) \<in> set (m_runs ?m)" for q' k p
      using old [OF that] home(3) kn assms(2) by metis
    show "open_job ?m k q'" if "(q', k, p) \<in> set (m_runs ?m)" "\<not> job_over p" for q' k p
      using old [OF that(1)] home(4) o that(2) assms(4) by metis
  qed
  moreover have "in_order ?m"
  proof -
    have "i' \<in> set (proj q' (m_started m))" if "(q', i', p') \<in> set (m_runs ?m)" for q' i' p'
      using that assms(2) order_facts(3) [OF assms(1)] unfolding runs by (auto split: if_splits)
    then show ?thesis
      using assms(1) unfolding qinv_def in_order_def job_simps pending_of_def by blast
  qed
  moreover have "fresh_ids ?m"
    using assms(1) by (auto simp: qinv_def fresh_ids_def job_simps split: if_splits)
  moreover have "attended ?m"
    using assms(1) attended_cong [of m ?m] by (simp add: qinv_def job_simps)
  ultimately show ?thesis by (simp add: qinv_def)
qed

subsection \<open>The operations\<close>

lemma pending_put [job_simps]:
  "pending_of (m\<lparr>m_pending := put q l x\<rparr>) q' = (if q' = q then l else pending_of (m\<lparr>m_pending := x\<rparr>) q')"
  "pending_of (m\<lparr>m_pending := del q x\<rparr>) q' = (if q' = q then [] else pending_of (m\<lparr>m_pending := x\<rparr>) q')"
  "pending_of (m\<lparr>m_pending := m_pending m\<rparr>) q' = pending_of m q'"
  by (simp_all add: pending_of_def)

lemma proj_append [job_simps]: "proj q (xs @ [(q', i)]) = proj q xs @ (if q' = q then [i] else [])"
  by (simp add: proj_def)

text \<open>Handing a queue with no goroutine to a job that waits nowhere.\<close>

lemma qinv_spawn:
  assumes "one_run m" "at_home m" "fresh_ids m" "\<And>q'. q' \<noteq> q \<Longrightarrow> pending_of m q' \<noteq> [] \<Longrightarrow> lookup (m_running m) q' \<noteq> None"
    and "lookup (m_running m) q = None" "open_job m i q"
    and "\<And>q'. \<exists>rest. (\<not> m_closed m \<longrightarrow> rest = []) \<and> filter (\<lambda>i. i \<notin> set (m_dropped m)) (proj q' (m_enq m))
          = proj q' (m_started m) @ (if q' = q then [i] else []) @ pending_of m q' @ rest"
    and "\<And>q' k p. (q', k, p) \<in> set (m_runs m) \<Longrightarrow> k \<in> set (proj q' (m_started m))"
  shows "qinv (spawn q i m)"
proof -
  have free: "(q, k, p) \<notin> set (m_runs m)" for k p
    using assms(1,5) unfolding one_run_def by force
  have one: "one_run (spawn q i m)"
    using assms(1) free unfolding one_run_def spawn_def by (auto simp: image_iff)
  have pend: "pending_of (spawn q i m) = pending_of m"
    by (rule pending_of_cong) (simp add: spawn_def)
  have att: "attended (spawn q i m)"
    using assms(4) unfolding attended_def pend by (auto simp: spawn_def)
  have homes: "open_job (spawn q i m) = open_job m" "known_job (spawn q i m) = known_job m"
    by (auto simp: fun_eq_iff open_job_def known_job_def spawn_def)
  have home: "at_home (spawn q i m)"
    using assms(2,6) open_known [OF assms(6)] unfolding at_home_def homes pend by (auto simp: spawn_def)
  have fresh: "fresh_ids (spawn q i m)"
    using assms(3) fresh_ids_cong [of m "spawn q i m"] by (simp add: spawn_def)
  have "in_order (spawn q i m)"
  proof (rule in_orderI)
    fix q'
    obtain rest where "\<not> m_closed m \<longrightarrow> rest = []" "filter (\<lambda>i. i \<notin> set (m_dropped m)) (proj q' (m_enq m))
          = proj q' (m_started m) @ (if q' = q then [i] else []) @ pending_of m q' @ rest"
      using assms(7) [of q'] by blast
    then show "\<exists>rest. (\<not> m_closed (spawn q i m) \<longrightarrow> rest = []) \<and>
        filter (\<lambda>k. k \<notin> set (m_dropped (spawn q i m))) (proj q' (m_enq (spawn q i m)))
          = proj q' (m_started (spawn q i m)) @ pending_of (spawn q i m) q' @ rest"
      unfolding pend by (intro exI [of _ rest]) (auto simp: spawn_def job_simps)
  next
    fix q' k p assume "(q', k, p) \<in> set (m_runs (spawn q i m))"
    then show "k \<in> set (proj q' (m_started (spawn q i m)))"
      using assms(8) by (auto simp: spawn_def job_simps)
  qed
  with one att home fresh show ?thesis by (simp add: qinv_def)
qed

lemma enqueue_open:
  assumes "\<not> m_closed m"
  shows "enqueue i q m = (let m1 = m\<lparr>m_enq := m_enq m @ [(q, i)]\<rparr> in
     if lookup (m_running m) q = None then spawn q i m1 else m1\<lparr>m_pending := put q (pending_of m1 q @ [i]) (m_pending m1)\<rparr>)"
  using assms by (simp add: enqueue_def Let_def)

lemma qinv_enqueue:
  assumes "qinv m" "open_job m i q" "i \<notin> snd ` set (m_enq m)" "i \<notin> fst ` set (m_queueing m)" "i < m_next_id m"
  shows "qinv (enqueue i q m)"
proof (cases "m_closed m")
  case True
  then show ?thesis using assms(1) by (simp add: enqueue_def)
next
  case False
  define m1 where "m1 = m\<lparr>m_enq := m_enq m @ [(q, i)]\<rparr>"
  have parts: "one_run m" "attended m" "at_home m" "fresh_ids m" "in_order m" using assms(1) by (simp_all add: qinv_def)
  have pend1: "pending_of m1 = pending_of m" by (rule pending_of_cong) (simp add: m1_def)
  have m1: "one_run m1" "attended m1" "at_home m1"
    using parts(1-3) one_run_cong [of m m1] attended_cong [of m m1] at_home_cong [of m m1] by (simp_all add: m1_def)
  have fresh1: "fresh_ids m1" using parts(4) assms(3-5) by (auto simp: fresh_ids_def m1_def)
  have keep: "i \<notin> set (m_dropped m)" using parts(4) assms(3) by (auto simp: fresh_ids_def)
  have ord: "filter (\<lambda>i. i \<notin> set (m_dropped m1)) (proj q' (m_enq m1))
      = proj q' (m_started m) @ pending_of m q' @ (if q' = q then [i] else [])" for q'
    using parts(5) False keep by (auto simp: in_order_def m1_def job_simps)
  have open1: "open_job m1 i q" using assms(2) by (simp add: open_job_def m1_def)
  show ?thesis
  proof (cases "lookup (m_running m) q = None")
    case True
    then have "pending_of m q = []" using parts(2) by (auto simp: attended_def)
    then have "qinv (spawn q i m1)"
      using m1 fresh1 ord True open1 parts(5) m1(2)
      by (intro qinv_spawn) (auto simp: pend1 attended_def, auto simp: m1_def in_order_def)
    then show ?thesis using True enqueue_open [OF False] unfolding m1_def by simp
  next
    case busy: False
    define m2 where "m2 = m1\<lparr>m_pending := put q (pending_of m1 q @ [i]) (m_pending m1)\<rparr>"
    have pend2: "pending_of m2 q' = (if q' = q then pending_of m q @ [i] else pending_of m q')" for q'
      by (simp add: m2_def job_simps pend1)
    have "one_run m2" using m1(1) one_run_cong [of m1 m2] by (simp add: m2_def)
    moreover have "attended m2" using parts(2) busy unfolding attended_def pend2 by (auto simp: m2_def m1_def)
    moreover have "at_home m2"
      using parts(3) assms(2) unfolding at_home_def pend2 by (auto simp: m2_def m1_def open_job_def known_job_def)
    moreover have "fresh_ids m2" using fresh1 fresh_ids_cong [of m1 m2] by (simp add: m2_def)
    moreover have "in_order m2"
      using ord parts(5) unfolding in_order_def pend2 by (auto simp: m2_def m1_def)
    ultimately have "qinv m2" by (simp add: qinv_def)
    moreover have "enqueue i q m = m2" 
      using busy unfolding enqueue_open [OF False] Let_def m1_def [symmetric] m2_def [symmetric] by (simp only: if_False)
    ultimately show ?thesis by simp
  qed
qed

lemma distinct_map_remove1: "distinct (map f xs) \<Longrightarrow> distinct (map f (remove1 x xs))"
  by (induction xs) (auto dest: set_remove1_subset [THEN subsetD])

lemma qinv_step_enqueue:
  assumes "qinv m" "(i, q) \<in> set (m_queueing m)"
  shows "qinv (enqueue i q (m\<lparr>m_queueing := remove1 (i, q) (m_queueing m)\<rparr>))"
proof -
  define m1 where "m1 = m\<lparr>m_queueing := remove1 (i, q) (m_queueing m)\<rparr>"
  have parts: "one_run m" "attended m" "at_home m" "fresh_ids m" "in_order m" using assms(1) by (simp_all add: qinv_def)
  have dist: "distinct (map fst (m_queueing m))" using parts(4) by (simp add: fresh_ids_def)
  have sub: "set (m_queueing m1) \<subseteq> set (m_queueing m)" by (simp add: m1_def set_remove1_subset)
  have gone: "i \<notin> fst ` set (m_queueing m1)"
  proof
    assume "i \<in> fst ` set (m_queueing m1)"
    then obtain q' where "(i, q') \<in> set (m_queueing m1)" by auto
    moreover have "distinct (m_queueing m)" using dist by (simp add: distinct_map)
    then have "set (m_queueing m1) = set (m_queueing m) - {(i, q)}" by (simp add: m1_def)
    ultimately have "(i, q') \<in> set (m_queueing m)" "q' \<noteq> q" by auto
    then show False using eq_key_imp_eq_value [OF dist _ assms(2)] by blast
  qed
  have dist1: "distinct (map fst (m_queueing m1))"
    using distinct_map_remove1 [OF dist] by (simp add: m1_def)
  have pend: "pending_of m1 = pending_of m" by (rule pending_of_cong) (simp add: m1_def)
  have "one_run m1" "attended m1" "in_order m1"
    using parts one_run_cong [of m m1] attended_cong [of m m1] in_order_cong [of m m1] by (simp_all add: m1_def)
  moreover have "at_home m1"
  proof -
    have same: "open_job m1 = open_job m" "known_job m1 = known_job m" "m_runs m1 = m_runs m"
      by (auto simp: fun_eq_iff open_job_def known_job_def m1_def)
    show ?thesis
      by (rule at_homeI) (use at_homeD [OF parts(3)] sub in \<open>auto simp: pend same\<close>)
  qed
  moreover have "fresh_ids m1"
  proof (rule fresh_idsI)
    note fr = fresh_idsD [OF parts(4)]
    show "(k, q') \<notin> set (m_queueing m1)" if "(q'', k) \<in> set (m_enq m1)" for k q'' q'
      using that fr(3) [of q'' k q'] sub by (auto simp: m1_def)
    show "j < m_next_id m1" if "(q', j) \<in> set (m_enq m1)" for j q'
      using fr(4) that by (auto simp: m1_def)
    show "j < m_next_id m1" if "lookup (m_db m1) j = Some x" for j x
      using fr(6) that by (auto simp: m1_def)
  qed (use fresh_idsD(1,5) [OF parts(4)] dist1 in \<open>auto simp: m1_def\<close>)
  ultimately have q1: "qinv m1" by (simp add: qinv_def)
  have "open_job m i q" using at_homeD(1) [OF parts(3) assms(2)] .
  then have "open_job m1 i q" "i < m_next_id m1"
    using fresh_idsD(6) [OF parts(4)] by (auto simp: open_job_def m1_def)
  moreover have "i \<notin> snd ` set (m_enq m1)"
    using fresh_idsD(3) [OF parts(4)] assms(2) by (auto simp: m1_def)
  ultimately have "qinv (enqueue i q m1)" using gone by (intro qinv_enqueue [OF q1])
  then show ?thesis by (simp add: m1_def)
qed

lemma qinv_next:
  assumes "qinv m" "(q, i, Leaving) \<in> set (m_runs m)"
  shows "qinv (run_next q i m)"
proof -
  define m1 where "m1 = m\<lparr>m_running := del q (m_running m), m_runs := filter (\<lambda>(q', i', p'). \<not> (q' = q \<and> i' = i)) (m_runs m)\<rparr>"
  have rn: "run_next q i m = (if pending_of m1 q = [] \<or> m_closed m1 then m1\<lparr>m_pending := del q (m_pending m1)\<rparr>
      else spawn q (hd (pending_of m1 q)) (m1\<lparr>m_pending := put q (tl (pending_of m1 q)) (m_pending m1)\<rparr>))"
    by (simp only: run_next_def m1_def Let_def)
  have closed1: "m_closed m1 = m_closed m" by (simp add: m1_def)
  have parts: "one_run m" "attended m" "at_home m" "fresh_ids m" "in_order m" using assms(1) by (simp_all add: qinv_def)
  have runs1: "(q', k, p) \<in> set (m_runs m1) \<longleftrightarrow> (q', k, p) \<in> set (m_runs m) \<and> q' \<noteq> q" for q' k p
    using run_elsewhere(3) [OF assms(1)] assms(2) parts(1)
    by (auto simp: m1_def one_run_def dest: eq_key_imp_eq_value)
  have pend1: "pending_of m1 = pending_of m" by (rule pending_of_cong) (simp add: m1_def)
  have one1: "one_run m1"
  proof -
    have "distinct (map fst (m_runs m1))" using parts(1) by (simp add: m1_def one_run_def distinct_map_filter)
    then show ?thesis using parts(1) unfolding one_run_def runs1 by (auto simp: m1_def)
  qed
  have home1: "at_home m1"
    using parts(3) unfolding at_home_def pend1 by (auto simp: m1_def open_job_def known_job_def)
  have fresh1: "fresh_ids m1" using parts(4) fresh_ids_cong [of m m1] by (simp add: m1_def)
  have free: "lookup (m_running m1) q = None" by (simp add: m1_def)
  have att1: "pending_of m1 q' \<noteq> [] \<Longrightarrow> lookup (m_running m1) q' \<noteq> None" if "q' \<noteq> q" for q'
    using parts(2) that unfolding attended_def pend1 by (auto simp: m1_def)
  have run_started: "\<forall>(q, i, p) \<in> set (m_runs m1). i \<in> set (proj q (m_started m1))"
    using parts(5) by (auto simp: m1_def in_order_def)
  show ?thesis
  proof (cases "pending_of m q = [] \<or> m_closed m")
    case True
    define m2 where "m2 = m1\<lparr>m_pending := del q (m_pending m1)\<rparr>"
    have pend2: "pending_of m2 q' = (if q' = q then [] else pending_of m q')" for q'
      by (simp add: m2_def job_simps pend1)
    have "in_order m2"
    proof -
      have "\<exists>rest. (\<not> m_closed m \<longrightarrow> rest = []) \<and> filter (\<lambda>i. i \<notin> set (m_dropped m)) (proj q' (m_enq m))
          = proj q' (m_started m) @ pending_of m2 q' @ rest" for q'
      proof -
        obtain rest where r: "\<not> m_closed m \<longrightarrow> rest = []" "filter (\<lambda>i. i \<notin> set (m_dropped m)) (proj q' (m_enq m))
          = proj q' (m_started m) @ pending_of m q' @ rest" using parts(5) by (auto simp: in_order_def)
        show ?thesis
          using r True by (cases "q' = q") (auto simp: pend2 intro!: exI [of _ "pending_of m q' @ rest"] exI [of _ rest])
      qed
      then show ?thesis using run_started unfolding in_order_def by (simp add: m2_def m1_def)
    qed
    moreover have "one_run m2" "fresh_ids m2"
      using one1 fresh1 one_run_cong [of m1 m2] fresh_ids_cong [of m1 m2] by (simp_all add: m2_def)
    moreover have "attended m2" using att1 unfolding attended_def pend2 pend1 [symmetric] by (auto simp: m2_def)
    moreover have "at_home m2" using home1 unfolding at_home_def pend2 pend1 by (auto simp: m2_def open_job_def known_job_def)
    ultimately have "qinv m2" by (simp add: qinv_def)
    moreover have "run_next q i m = m2"
      unfolding rn pend1 closed1 m2_def using True by (simp only: if_True)
    ultimately show ?thesis by simp
  next
    case False
    then obtain k l where kl: "pending_of m q = k # l" by (cases "pending_of m q") auto
    define m2 where "m2 = m1\<lparr>m_pending := put q l (m_pending m1)\<rparr>"
    have pend2: "pending_of m2 q' = (if q' = q then l else pending_of m q')" for q'
      by (simp add: m2_def job_simps pend1)
    have "qinv (spawn q k m2)"
    proof (rule qinv_spawn)
      show "one_run m2" "fresh_ids m2"
        using one1 fresh1 one_run_cong [of m1 m2] fresh_ids_cong [of m1 m2] by (simp_all add: m2_def)
      show "at_home m2"
        using home1 kl unfolding at_home_def pend2 pend1 by (auto simp: m2_def open_job_def known_job_def split: if_splits)
      show "lookup (m_running m2) q' \<noteq> None" if "q' \<noteq> q" "pending_of m2 q' \<noteq> []" for q'
        using att1 [OF that(1)] that by (simp add: pend1 pend2) (simp add: m2_def)
      show "lookup (m_running m2) q = None" using free by (simp add: m2_def)
      show "open_job m2 k q"
        using parts(3) kl by (auto simp: at_home_def open_job_def m2_def m1_def)
      show "\<exists>rest. (\<not> m_closed m2 \<longrightarrow> rest = []) \<and> filter (\<lambda>i. i \<notin> set (m_dropped m2)) (proj q' (m_enq m2))
          = proj q' (m_started m2) @ (if q' = q then [k] else []) @ pending_of m2 q' @ rest" for q'
      proof -
        obtain rest where "\<not> m_closed m \<longrightarrow> rest = []" "filter (\<lambda>i. i \<notin> set (m_dropped m)) (proj q' (m_enq m))
          = proj q' (m_started m) @ pending_of m q' @ rest" using parts(5) by (auto simp: in_order_def)
        then show ?thesis
          unfolding pend2 using kl by (intro exI [of _ rest]) (auto simp: m2_def m1_def)
      qed
      show "j \<in> set (proj q' (m_started m2))" if "(q', j, p) \<in> set (m_runs m2)" for q' j p
        using run_started that by (auto simp: m2_def)
    qed
    moreover have "run_next q i m = spawn q k m2"
      unfolding rn pend1 closed1 m2_def using False by (simp only: if_False kl list.sel)
    ultimately show ?thesis by simp
  qed
qed

lemma qinv_same: "qinv m \<Longrightarrow> queue_part m' = queue_part m \<Longrightarrow> qinv m'"
  using qinv_cong [of m m'] by simp

lemma qinv_CreateJob:
  assumes "qinv m" "\<not> Done j"
  shows "qinv (snd (CreateJob j m))"
proof -
  let ?m = "snd (CreateJob j m)" and ?n = "m_next_id m"
  note parts = qinvD [OF assms(1)] and fr = fresh_idsD [OF qinvD(4) [OF assms(1)]] and home = at_homeD [OF qinvD(3) [OF assms(1)]]
  have new: "lookup (m_db m) ?n = None" using fr(6) [of ?n] by (cases "lookup (m_db m) ?n") auto
  have q: "m_queueing ?m = m_queueing m @ [(?n, jb_queue j)]" and pend: "pending_of ?m = pending_of m"
    by (auto simp: CreateJob_def pending_of_def fun_eq_iff)
  have o: "open_job m k q' \<Longrightarrow> open_job ?m k q'" and kn: "known_job m k q' \<Longrightarrow> known_job ?m k q'" for k q'
    using new by (auto simp: open_job_def known_job_def CreateJob_def)
  have mine: "open_job ?m ?n (jb_queue j)" using assms(2) by (simp add: open_job_def CreateJob_def)
  have same: "m_runs ?m = m_runs m" "m_enq ?m = m_enq m" "m_dropped ?m = m_dropped m" "m_next_id ?m = ?n + 1"
    "m_running ?m = m_running m" "m_pending ?m = m_pending m" "m_closed ?m = m_closed m" "m_started ?m = m_started m"
    by (simp_all add: CreateJob_def)
  have "at_home ?m"
    by (rule at_homeI) (use home o kn mine in \<open>auto simp: q pend same\<close>)
  moreover have "fresh_ids ?m"
  proof (rule fresh_idsI)
    have "?n \<notin> fst ` set (m_queueing m)"
    proof
      assume "?n \<in> fst ` set (m_queueing m)"
      then obtain q' where "(?n, q') \<in> set (m_queueing m)" by auto
      then show False using home(1) [of ?n q'] new by (simp add: open_job_def)
    qed
    then show "distinct (map fst (m_queueing ?m))" using fr(2) by (simp add: q)
    show "(k, q') \<notin> set (m_queueing ?m)" if "(q'', k) \<in> set (m_enq ?m)" for k q'' q'
      using fr(3) [of q'' k q'] fr(4) [of q'' k] that by (auto simp: q same)
    show "k < m_next_id ?m" if "(q', k) \<in> set (m_enq ?m)" for k q' using fr(4) [of q' k] that by (simp add: same)
    show "k < m_next_id ?m" if "lookup (m_db ?m) k = Some x" for k x
      using that fr(6) [of k] by (auto simp: CreateJob_def split: if_splits)
  qed (use fr(1,5) in \<open>simp_all add: same\<close>)
  ultimately show ?thesis
    using parts one_run_cong [of m ?m] attended_cong [of m ?m] in_order_cong [of m ?m] by (simp add: qinv_def same)
qed

lemma qinv_Start: "qinv m \<Longrightarrow> qinv (snd (Start tr lang s m))"
  using qinv_CreateJob [of m "spec_job tr lang s"]
  by (auto simp: Start_def split_beta spec_job_def Done_def Let_def)

lemma qinv_Retry:
  assumes "qinv m"
  shows "qinv (snd (Retry lang i m))"
proof -
  have "qinv (appendLog n k (snd (CreateJob j m)))" if "\<not> Done j" for n k j
    using qinv_same [OF qinv_CreateJob [OF assms that]] by (simp add: job_simps)
  then show ?thesis
    using assms by (auto simp: Retry_def split_beta Done_def split: option.splits)
qed

lemma filter_drop_one:
  assumes "distinct xs" "filter P xs = a @ b @ c" "i \<in> set b"
  shows "filter (\<lambda>k. P k \<and> k \<noteq> i) xs = a @ remove1 i b @ c"
proof -
  have "distinct (a @ b @ c)" using assms(1,2) by (metis distinct_filter)
  moreover have "filter (\<lambda>k. P k \<and> k \<noteq> i) xs = filter (\<lambda>k. k \<noteq> i) (filter P xs)" by (simp add: conj_commute)
  moreover have "filter (\<lambda>k. k \<noteq> i) ys = ys" if "i \<notin> set ys" for ys
    using that by (metis (mono_tags, lifting) filter_True)
  moreover have "(\<lambda>k. k \<noteq> i) = (\<noteq>) i" by auto
  moreover have "i \<notin> set a" "i \<notin> set c" "distinct b" using calculation(1) assms(3) by auto
  ultimately show ?thesis
    using assms(2) by (simp add: distinct_remove1_removeAll removeAll_filter_not_eq)
qed

lemma qinv_drop:
  assumes "qinv m" "i \<in> set (pending_of m q)" "\<And>j. jb_queue (f j) = jb_queue j"
  shows "qinv (upd_job i f (m\<lparr>m_pending := put q (remove1 i (pending_of m q)) (m_pending m), m_dropped := i # m_dropped m\<rparr>))"
    (is "qinv ?m")
proof -
  note parts = qinvD [OF assms(1)] and fr = fresh_idsD [OF qinvD(4) [OF assms(1)]] and home = at_homeD [OF qinvD(3) [OF assms(1)]]
  have enq: "(q, i) \<in> set (m_enq m)" using order_facts(2) [OF assms(1)] assms(2) by blast
  have only: "q' = q" if "(q', i) \<in> set (m_enq m)" for q'
    using fr(1) that enq by (metis distinct_map inj_onD prod.inject snd_conv)
  have nrun: "(q', i, p) \<notin> set (m_runs m)" for q' p
    using run_elsewhere(2) [OF assms(1)] assms(2) by metis
  have pend: "pending_of ?m q' = (if q' = q then remove1 i (pending_of m q) else pending_of m q')" for q'
    by (simp add: pending_of_def job_simps)
  have o: "open_job ?m k q' \<longleftrightarrow> open_job m k q'" if "k \<noteq> i" for k q'
    using that by (simp add: open_job_def job_simps)
  have kn: "known_job m k q' \<Longrightarrow> known_job ?m k q'" for k q'
    using assms(3) by (auto simp: known_job_def job_simps)
  have gone: "i \<notin> set (pending_of ?m q')" for q'
  proof (cases "q' = q")
    case True
    then show ?thesis using order_facts(1) [OF assms(1), of q] by (simp add: pend)
  next
    case False
    then show ?thesis using order_facts(2) [OF assms(1), of i q'] only [of q'] by (auto simp: pend)
  qed
  have "one_run ?m" using parts(1) one_run_cong [of m ?m] by (simp add: job_simps)
  moreover have "attended ?m"
    using parts(2) length_pos_if_in_set [OF assms(2)] unfolding attended_def pend by (auto simp: job_simps split: if_splits)
  moreover have "at_home ?m"
  proof (rule at_homeI)
    show "open_job ?m k q'" if "(k, q') \<in> set (m_queueing ?m)" for k q'
      using that home(1) [of k q'] o [of k] fr(3) [OF enq, of q'] by (auto simp: job_simps)
    show "open_job ?m k q'" if "k \<in> set (pending_of ?m q')" for k q'
    proof -
      have "k \<noteq> i" using that gone by metis
      moreover have "k \<in> set (pending_of m q')"
        using that set_remove1_subset [of i "pending_of m q"] unfolding pend by (auto split: if_splits)
      ultimately show ?thesis using o home(2) by metis
    qed
    show "known_job ?m k q'" if "(q', k, p) \<in> set (m_runs ?m)" for q' k p
      using that home(3) [of q' k p] kn by (simp add: job_simps)
    show "open_job ?m k q'" if "(q', k, p) \<in> set (m_runs ?m)" "\<not> job_over p" for q' k p
      using that home(4) [of q' k p] nrun [of q' p] o [of k] by (auto simp: job_simps)
  qed
  moreover have "fresh_ids ?m"
  proof (rule fresh_idsI)
    show "k < m_next_id ?m" if "lookup (m_db ?m) k = Some x" for k x
      using that fr(6) [of k] by (auto simp: job_simps split: if_splits)
    show "k \<in> snd ` set (m_enq ?m)" if "k \<in> set (m_dropped ?m)" for k
      using that fr(5) [of k] enq by (force simp: job_simps)
    show "(k, q') \<notin> set (m_queueing ?m)" if "(q'', k) \<in> set (m_enq ?m)" for k q'' q'
      using fr(3) [of q'' k q'] that by (simp add: job_simps)
    show "k < m_next_id ?m" if "(q', k) \<in> set (m_enq ?m)" for k q' using fr(4) [of q' k] that by (simp add: job_simps)
  qed (use fr(1,2) in \<open>simp_all add: job_simps\<close>)
  moreover have "in_order ?m"
  proof (rule in_orderI)
    fix q'
    obtain rest where r: "\<not> m_closed m \<longrightarrow> rest = []"
      "filter (\<lambda>k. k \<notin> set (m_dropped m)) (proj q' (m_enq m)) = proj q' (m_started m) @ pending_of m q' @ rest"
      using in_orderD(1) [OF parts(5)] by blast
    have "filter (\<lambda>k. k \<notin> set (m_dropped m) \<and> k \<noteq> i) (proj q' (m_enq m)) = proj q' (m_started m) @ pending_of ?m q' @ rest"
    proof (cases "q' = q")
      case True
      then show ?thesis
        using filter_drop_one [OF distinct_proj [OF fr(1)] r(2)] assms(2) by (simp add: pend)
    next
      case False
      then have "i \<notin> set (proj q' (m_enq m))" using only by (auto simp: in_proj)
      then have "filter (\<lambda>k. k \<notin> set (m_dropped m) \<and> k \<noteq> i) (proj q' (m_enq m)) = filter (\<lambda>k. k \<notin> set (m_dropped m)) (proj q' (m_enq m))"
        by (intro filter_cong) auto
      then show ?thesis using r(2) False by (simp add: pend)
    qed
    then show "\<exists>rest. (\<not> m_closed ?m \<longrightarrow> rest = []) \<and>
        filter (\<lambda>k. k \<notin> set (m_dropped ?m)) (proj q' (m_enq ?m)) = proj q' (m_started ?m) @ pending_of ?m q' @ rest"
      using r(1) by (intro exI [of _ rest]) (simp add: job_simps conj_commute)
  next
    show "k \<in> set (proj q' (m_started ?m))" if "(q', k, p) \<in> set (m_runs ?m)" for q' k p
      using that in_orderD(2) [OF parts(5), of q' k p] by (simp add: job_simps)
  qed
  ultimately show ?thesis by (simp add: qinv_def)
qed

lemma put_same: "lookup l k = Some v \<Longrightarrow> put k v l = l"
  by (induction l) (auto simp: lookup_def put_def split: if_splits)

lemma upd_job_id: "upd_job i (\<lambda>j. j) m = m"
  by (simp add: upd_job_def put_same split: option.splits)

lemma Close_fields [job_simps]:
  "m_db (Close m) = m_db m" "m_next_id (Close m) = m_next_id m" "m_running (Close m) = m_running m"
  "m_pending (Close m) = m_pending m" "m_runs (Close m) = m_runs m" "m_queueing (Close m) = m_queueing m"
  "m_enq (Close m) = m_enq m" "m_started (Close m) = m_started m" "m_dropped (Close m) = m_dropped m" "m_closed (Close m)"
  by (simp_all add: Close_def)

lemma qinv_Close:
  assumes "qinv m"
  shows "qinv (Close m)"
proof -
  note parts = qinvD [OF assms]
  have pend: "pending_of (Close m) = pending_of m" by (rule pending_of_cong) (simp add: job_simps)
  have "in_order (Close m)"
  proof (rule in_orderI)
    fix q
    obtain rest where "filter (\<lambda>k. k \<notin> set (m_dropped m)) (proj q (m_enq m)) = proj q (m_started m) @ pending_of m q @ rest"
      using in_orderD(1) [OF parts(5)] by blast
    then show "\<exists>rest. (\<not> m_closed (Close m) \<longrightarrow> rest = []) \<and>
        filter (\<lambda>k. k \<notin> set (m_dropped (Close m))) (proj q (m_enq (Close m))) = proj q (m_started (Close m)) @ pending_of (Close m) q @ rest"
      unfolding pend job_simps by (intro exI [of _ rest]) (simp add: Close_fields)
  next
    show "k \<in> set (proj q (m_started (Close m)))" if "(q, k, p) \<in> set (m_runs (Close m))" for q k p
      using in_orderD(2) [OF parts(5)] that unfolding job_simps .
  qed
  moreover have "one_run (Close m)" by (rule iffD1 [OF one_run_cong parts(1)]) (simp_all add: job_simps)
  moreover have "attended (Close m)" by (rule iffD1 [OF attended_cong parts(2)]) (simp_all add: job_simps)
  moreover have "fresh_ids (Close m)" by (rule iffD1 [OF fresh_ids_cong parts(4)]) (simp_all add: job_simps)
  moreover have "at_home (Close m)" by (rule iffD1 [OF at_home_cong parts(3)]) (simp_all add: job_simps)
  ultimately show ?thesis by (simp add: qinv_def)
qed

lemma set_phase_after_channels: "queue_part m = queue_part m' \<Longrightarrow> queue_part (set_phase q i p m) = queue_part (set_phase q i p m')"
  by (simp add: queue_part_def set_phase_def)

lemma qinv_phase_event:
  assumes "qinv (set_phase q i p m)" "queue_part m' = queue_part m"
  shows "qinv (set_phase q i p m')"
  using qinv_same [OF assms(1) set_phase_after_channels [OF assms(2)]] .

lemma qinv_run_begin:
  assumes "qinv m" "(q, i, Begun) \<in> set (m_runs m)"
  shows "qinv (run_begin q i m)"
  using qinv_set_phase [OF assms] by (simp add: run_begin_def split: option.splits)

lemma qinv_run_record:
  assumes "qinv m" "(q, i, p0) \<in> set (m_runs m)" "job_over p"
  shows "qinv (set_phase q i p (FinishJob i st tx m))"
  unfolding FinishJob_def by (rule qinv_finish_run [OF assms(1,2)]) (simp_all add: assms(3))

lemma qinv_row_phase:
  assumes "qinv m" "(q, i, p0) \<in> set (m_runs m)" "job_over p0 \<longrightarrow> job_over p" "\<And>j. jb_queue (f j) = jb_queue j" "\<And>j. \<not> Done j \<Longrightarrow> \<not> Done (f j)"
  shows "qinv (set_phase q i p (upd_job i f m))"
  using qinv_set_phase [OF qinv_upd_job [OF assms(1,4,5)], of q i p0 i p] assms(2,3) by (simp add: job_simps)

lemma qinv_run_mark: "qinv m \<Longrightarrow> (q, i, Marking) \<in> set (m_runs m) \<Longrightarrow> qinv (run_mark q i m)"
  unfolding run_mark_def MarkJobRunning_def by (rule qinv_row_phase [where ?p0.0 = Marking]) (simp_all add: Done_def)

lemma qinv_run_explain:
  "qinv m \<Longrightarrow> (q, i, Deciding st tx True) \<in> set (m_runs m) \<Longrightarrow> qinv (run_explain q i st tx key args m)"
  unfolding run_explain_def SetJobErrorKey_def by (rule qinv_row_phase [where ?p0.0 = "Deciding st tx True"]) (simp_all add: Done_def)

lemma qinv_run_exec: "qinv m \<Longrightarrow> (q, i, Marked) \<in> set (m_runs m) \<Longrightarrow> qinv (run_exec q i m)"
  unfolding run_exec_def by (rule qinv_phase_event [OF qinv_set_phase [where ?p0.0 = Marked]]) (simp_all add: job_simps)

lemma qinv_run_tell: "qinv m \<Longrightarrow> (q, i, Recorded c) \<in> set (m_runs m) \<Longrightarrow> qinv (run_tell q i c m)"
  unfolding run_tell_def by (rule qinv_phase_event [OF qinv_set_phase [where ?p0.0 = "Recorded c"]]) (simp_all add: job_simps)

lemma qinv_run_close: "qinv m \<Longrightarrow> (q, i, Closing) \<in> set (m_runs m) \<Longrightarrow> qinv (run_close q i m)"
  unfolding run_close_def by (rule qinv_phase_event [OF qinv_set_phase [where ?p0.0 = Closing]]) (simp_all add: job_simps)

lemma qinv_run_collect:
  assumes "qinv m" "(q, i, Exec) \<in> set (m_runs m)"
  shows "qinv (run_collect q i failed m)"
  unfolding run_collect_def
  by (rule qinv_phase_event [OF qinv_set_phase [OF assms]]) (simp_all add: queue_part_def)

lemma qinv_run_report:
  assumes "qinv m" "(q, i, Collected b s f) \<in> set (m_runs m)"
  shows "qinv (run_report q i by_user stopping failed msg m)"
proof -
  have "qinv (set_phase q i p (appendLog i k m))" "qinv (set_phase q i p m)" for p k
    using qinv_phase_event [OF qinv_set_phase [OF assms], of p "appendLog i k m"] qinv_set_phase [OF assms, of p] by (simp_all add: job_simps)
  then show ?thesis by (simp add: run_report_def Let_def split_beta)
qed

subsection \<open>Jobs that are being cancelled\<close>

text \<open>A job taken out of its queue is in no other place, and stays unfinished until it is recorded.\<close>

definition dropping :: "jm \<Rightarrow> bool" where
  "dropping m \<longleftrightarrow> distinct (map fst (m_cancels m)) \<and>
     (\<forall>(i, p) \<in> set (m_cancels m). i \<in> set (m_dropped m) \<and> (p = ToRecord \<longrightarrow> (\<exists>q. open_job m i q)))"

lemma droppingD:
  assumes "dropping m" "(i, p) \<in> set (m_cancels m)"
  shows "i \<in> set (m_dropped m)" "p = ToRecord \<Longrightarrow> \<exists>q. open_job m i q"
  using assms unfolding dropping_def by fast+

lemma droppingI:
  assumes "distinct (map fst (m_cancels m))" "\<And>i p. (i, p) \<in> set (m_cancels m) \<Longrightarrow> i \<in> set (m_dropped m)"
    "\<And>i. (i, ToRecord) \<in> set (m_cancels m) \<Longrightarrow> \<exists>q. open_job m i q"
  shows "dropping m"
  using assms unfolding dropping_def by fast

lemma dropped_elsewhere:
  assumes "qinv m" "i \<in> set (m_dropped m)"
  shows "i \<notin> set (pending_of m q)" "(q, i, p) \<notin> set (m_runs m)" "(i, q) \<notin> set (m_queueing m)"
proof -
  show "i \<notin> set (pending_of m q)" using order_facts(2) [OF assms(1), of i q] assms(2) by blast
  show "(q, i, p) \<notin> set (m_runs m)"
    using order_facts(2) [OF assms(1), of i q] order_facts(3) [OF assms(1), of q i p] assms(2) by blast
  have "i \<in> snd ` set (m_enq m)" using fresh_idsD(5) [OF qinvD(4) [OF assms(1)] assms(2)] .
  then show "(i, q) \<notin> set (m_queueing m)" using fresh_idsD(3) [OF qinvD(4) [OF assms(1)]] by force
qed

text \<open>Writing a row of a job that is nowhere.\<close>

lemma qinv_upd_away:
  assumes "qinv m" "\<And>q. i \<notin> set (pending_of m q)" "\<And>q p. (q, i, p) \<notin> set (m_runs m)" "\<And>q. (i, q) \<notin> set (m_queueing m)"
    and "\<And>j. jb_queue (f j) = jb_queue j"
  shows "qinv (upd_job i f m)"
proof -
  note parts = qinvD [OF assms(1)] and home = at_homeD [OF qinvD(3) [OF assms(1)]] and fr = fresh_idsD [OF qinvD(4) [OF assms(1)]]
  let ?m = "upd_job i f m"
  have pend: "pending_of ?m = pending_of m" by (rule pending_of_cong) (simp add: job_simps)
  have o: "k \<noteq> i \<Longrightarrow> open_job m k q \<Longrightarrow> open_job ?m k q" and kn: "known_job m k q \<Longrightarrow> known_job ?m k q" for k q
    using assms(5) by (auto simp: open_job_def known_job_def job_simps)
  have "at_home ?m"
  proof (rule at_homeI)
    show "open_job ?m k q" if "(k, q) \<in> set (m_queueing ?m)" for k q
      using that home(1) [of k q] o [of k q] assms(4) [of q] by (auto simp: job_simps)
    show "open_job ?m k q" if "k \<in> set (pending_of ?m q)" for k q
      using that home(2) o assms(2) unfolding pend by metis
    show "known_job ?m k q" if "(q, k, p) \<in> set (m_runs ?m)" for q k p
      using that home(3) kn by (simp add: job_simps)
    show "open_job ?m k q" if "(q, k, p) \<in> set (m_runs ?m)" "\<not> job_over p" for q k p
      using that home(4) o assms(3) by (metis upd_job_fields(5))
  qed
  moreover have "fresh_ids ?m"
  proof (rule fresh_idsI)
    show "k < m_next_id ?m" if "lookup (m_db ?m) k = Some x" for k x
      using that fr(6) [of k] by (auto simp: job_simps split: if_splits)
  qed (use fr in \<open>simp_all add: job_simps\<close>)
  ultimately show ?thesis
    using parts one_run_cong [of m ?m] attended_cong [of m ?m] in_order_cong [of m ?m] by (simp add: qinv_def job_simps)
qed

lemma qinv_cancel_act:
  assumes "qinv m"
  shows "qinv (snd (cancel_act i q m))"
proof (cases "i \<in> set (pending_of m q)")
  case True
  have "qinv (m\<lparr>m_pending := put q (remove1 i (pending_of m q)) (m_pending m), m_dropped := i # m_dropped m\<rparr>)"
    using qinv_drop [OF assms True, of "\<lambda>j. j"] by (simp add: upd_job_id)
  then show ?thesis
    using True by (simp add: cancel_act_def) (erule qinv_same, simp add: queue_part_def)
next
  case False
  then show ?thesis
    using assms by (auto simp: cancel_act_def queue_part_def split: option.splits intro: qinv_same)
qed

lemma qinv_cancel_record:
  assumes "qinv m" "dropping m" "(i, ToRecord) \<in> set (m_cancels m)"
  shows "qinv (cancel_record i m)"
proof -
  note away = dropped_elsewhere [OF assms(1) droppingD(1) [OF assms(2,3)]]
  have "qinv (FinishJob i JobCanceled ''jobs.canceledBeforeStart'' m)"
    unfolding FinishJob_def by (rule qinv_upd_away [OF assms(1) away]) simp
  then show ?thesis unfolding cancel_record_def by (rule qinv_same) (simp add: job_simps)
qed

theorem qinv_step: "job_step m m' \<Longrightarrow> qinv m \<Longrightarrow> dropping m \<Longrightarrow> qinv m'"
proof (induction rule: job_step.induct)
  case (SetStep m i n steps name key args)
  have "qinv (SetJobStepKey i n steps name key args m)"
    unfolding SetJobStepKey_def by (intro qinv_upd_job SetStep) (simp_all add: Done_def)
  then show ?case by (rule qinv_same) (simp add: job_simps)
next
  case (SetResume m i resume)
  then show ?case unfolding SetJobResume_def by (intro qinv_upd_job) (simp_all add: Done_def)
next
  case (CancelTell i m)
  then show ?case unfolding cancel_tell_def by (auto intro: qinv_same simp: job_simps)
next
  case (Fail q i m)
  then show ?case unfolding run_fail_def by (auto intro: qinv_run_record)
next
  case (Record q i st tx m)
  then show ?case unfolding run_record_def by (auto intro: qinv_run_record)
qed (simp_all add: qinv_Start qinv_Retry qinv_step_enqueue qinv_run_begin qinv_run_mark qinv_run_exec qinv_run_collect
      qinv_run_report qinv_run_explain qinv_run_tell qinv_run_close qinv_next qinv_cancel_act qinv_cancel_record
      qinv_Close job_simps qinv_same)

end
