(* ===== verification/JobTheorems.thy ===== *)
theory JobTheorems
  imports JobSafety
begin

text \<open>
  From boot on: what recovery does with every stored job, the invariant of the subscriber
  channels, and the properties of the reachable states of the job manager.
\<close>

section \<open>Boot\<close>

definition boot :: "(int \<times> job) list \<Rightarrow> int \<Rightarrow> int strmap \<Rightarrow> (string \<times> bool) list \<Rightarrow> jm" where
  "boot db nid kv kinds = Recover (fold (\<lambda>(k, r). Register k r) kinds (jm_new db nid kv))"

definition jm_start :: "jm \<Rightarrow> bool" where
  "jm_start m \<longleftrightarrow> (\<exists>db nid kv kinds. wf_map db \<and> (\<forall>(i, j) \<in> set db. i < nid) \<and> m = boot db nid kv kinds)"

text \<open>A row of a job that is in no queue may get its outcome.\<close>

lemma qinv_upd_idle:
  assumes "qinv m" "i \<notin> snd ` set (m_enq m)" "i \<notin> fst ` set (m_queueing m)" "\<And>j. jb_queue (f j) = jb_queue j"
  shows "qinv (upd_job i f m)"
proof -
  have "i \<notin> set (pending_of m q)" "(q, i, p) \<notin> set (m_runs m)" "(i, q) \<notin> set (m_queueing m)" for q p
    using order_facts(2) [OF assms(1), of i q] order_facts(3) [OF assms(1), of q i p] assms(2,3) by force+
  then show ?thesis using qinv_upd_away [OF assms(1)] assms(4) by blast
qed

subsection \<open>One job of the recovery\<close>

definition resumes_of :: "jm \<Rightarrow> int \<Rightarrow> int" where
  "resumes_of m i = (case lookup (m_kv m) (resume_key i) of Some n \<Rightarrow> n | None \<Rightarrow> 0)"

definition resumed :: "jm \<Rightarrow> int \<Rightarrow> job \<Rightarrow> bool" where
  "resumed m i j \<longleftrightarrow> IsResumable (jb_kind j) m \<and> resumes_of m i < maxResumes"

lemma notify_rest [job_simps]:
  "m_kv (notify i m) = m_kv m" "m_runners (notify i m) = m_runners m" "m_logs (notify i m) = m_logs m"
proof -
  have "m_kv (fold send_chan cs m) = m_kv m \<and> m_runners (fold send_chan cs m) = m_runners m \<and> m_logs (fold send_chan cs m) = m_logs m" for cs
    by (induction cs arbitrary: m) (auto simp: send_chan_def split: option.splits prod.splits bool.splits)
  then show "m_kv (notify i m) = m_kv m" "m_runners (notify i m) = m_runners m" "m_logs (notify i m) = m_logs m"
    by (simp_all add: notify_def)
qed

lemma log_kv [job_simps]: "m_kv (appendLog i k m) = m_kv m" "m_runners (appendLog i k m) = m_runners m"
  by (simp_all add: appendLog_def job_simps)

lemma upd_job_rest [job_simps]: "m_kv (upd_job i f m) = m_kv m" "m_runners (upd_job i f m) = m_runners m"
  by (simp_all add: upd_job_def split: option.splits)

lemma enqueue_rest [job_simps]:
  "m_kv (enqueue i q m) = m_kv m" "m_runners (enqueue i q m) = m_runners m" "m_db (enqueue i q m) = m_db m"
  "m_queueing (enqueue i q m) = m_queueing m" "m_closed (enqueue i q m) = m_closed m"
  "m_enq (enqueue i q m) = m_enq m @ (if m_closed m then [] else [(q, i)])"
  by (simp_all add: enqueue_def spawn_def Let_def)

lemma log_queue [job_simps]:
  "m_db (appendLog i k m) = m_db m" "m_queueing (appendLog i k m) = m_queueing m" "m_closed (appendLog i k m) = m_closed m"
  "m_enq (appendLog i k m) = m_enq m" "m_next_id (appendLog i k m) = m_next_id m"
  using queue_part_log(2) [of i k m] by (simp_all add: queue_part_def)

lemma recover_one_eq:
  "recover_one (i, j) m =
     (if resumed m i j then enqueue i (jb_queue j) (appendLog i ''jobs.resumedAfterRestart'' (snd (countResume i m)))
      else if IsResumable (jb_kind j) m
      then FinishJob i JobInterrupted ''jobs.resumeLoop'' (appendLog i ''jobs.resumeLoop'' (snd (countResume i m)))
      else FinishJob i JobInterrupted ''jobs.interruptedByRestartShort'' (appendLog i ''jobs.interruptedByRestart'' m))"
  by (simp add: recover_one_def resumed_def resumes_of_def countResume_def Let_def maxResumes_def)

lemma recover_one_frame:
  "m_runners (recover_one (i, j) m) = m_runners m" "m_queueing (recover_one (i, j) m) = m_queueing m"
  "m_closed (recover_one (i, j) m) = m_closed m"
  "k \<noteq> i \<Longrightarrow> lookup (m_db (recover_one (i, j) m)) k = lookup (m_db m) k"
  "k \<noteq> i \<Longrightarrow> resumes_of (recover_one (i, j) m) k = resumes_of m k"
  "\<not> m_closed m \<Longrightarrow> m_enq (recover_one (i, j) m) = m_enq m @ (if resumed m i j then [(jb_queue j, i)] else [])"
  "lookup (m_db (recover_one (i, j) m)) i
     = (if resumed m i j then lookup (m_db m) i else map_option (\<lambda>r. r\<lparr>jb_status := JobInterrupted,
          jb_error := if IsResumable (jb_kind j) m then ''jobs.resumeLoop'' else ''jobs.interruptedByRestartShort''\<rparr>) (lookup (m_db m) i))"
  by (simp_all add: recover_one_eq FinishJob_def job_simps countResume_def resumes_of_def resume_key_def Let_def)

lemma resumed_cong: "m_runners m' = m_runners m \<Longrightarrow> resumes_of m' k = resumes_of m k \<Longrightarrow> resumed m' k = resumed m k"
  by (simp add: resumed_def IsResumable_def fun_eq_iff)

lemma qinv_recover_one:
  assumes "qinv m" "m_queueing m = []" "lookup (m_db m) i = Some j" "\<not> Done j" "i \<notin> snd ` set (m_enq m)"
  shows "qinv (recover_one (i, j) m)"
proof -
  define m1 where "m1 = (if IsResumable (jb_kind j) m then snd (countResume i m) else m)"
  have "queue_part m1 = queue_part m" by (simp add: m1_def countResume_def queue_part_def Let_def)
  then have q: "queue_part (appendLog i k m1) = queue_part m" for k by (simp add: job_simps)
  then have inv: "qinv (appendLog i k m1)" for k using qinv_same [OF assms(1)] by blast
  have same: "m_enq (appendLog i k m1) = m_enq m" "m_queueing (appendLog i k m1) = []" "m_db (appendLog i k m1) = m_db m"
    "m_next_id (appendLog i k m1) = m_next_id m" for k
    using q [of k] assms(2) by (simp_all add: queue_part_def)
  have "qinv (enqueue i (jb_queue j) (appendLog i k m1))" for k
    using assms(3-5) fresh_idsD(6) [OF qinvD(4) [OF assms(1)] assms(3)]
    by (intro qinv_enqueue inv) (simp_all add: same open_job_def)
  moreover have "qinv (FinishJob i JobInterrupted e (appendLog i k m1))" for e k
    unfolding FinishJob_def using assms(5) by (intro qinv_upd_idle inv) (simp_all add: same)
  ultimately show ?thesis unfolding m1_def recover_one_eq resumed_def
    by (cases "IsResumable (jb_kind j) m") simp_all
qed

subsection \<open>All of it\<close>

definition recovering :: "(int \<times> job) list \<Rightarrow> jm \<Rightarrow> bool" where
  "recovering xs m \<longleftrightarrow> qinv m \<and> m_queueing m = [] \<and> \<not> m_closed m \<and> distinct (map fst xs)
     \<and> (\<forall>(i, j) \<in> set xs. lookup (m_db m) i = Some j \<and> \<not> Done j \<and> i \<notin> snd ` set (m_enq m))"

lemma recovering_step: "recovering ((i, j) # xs) m \<Longrightarrow> recovering xs (recover_one (i, j) m)"
proof -
  assume r: "recovering ((i, j) # xs) m"
  then have m: "qinv m" "m_queueing m = []" "lookup (m_db m) i = Some j" "\<not> Done j" "i \<notin> snd ` set (m_enq m)" "\<not> m_closed m"
      "distinct (map fst xs)" "i \<notin> fst ` set xs"
    by (simp_all add: recovering_def)
  have rest: "lookup (m_db m) k = Some x \<and> \<not> Done x \<and> k \<notin> snd ` set (m_enq m) \<and> k \<noteq> i" if "(k, x) \<in> set xs" for k x
    using r that m(8) by (force simp: recovering_def)
  have "lookup (m_db (recover_one (i, j) m)) k = Some x \<and> \<not> Done x \<and> k \<notin> snd ` set (m_enq (recover_one (i, j) m))"
    if "(k, x) \<in> set xs" for k x
    using rest [OF that] m(6) by (auto simp: recover_one_frame)
  moreover have "qinv (recover_one (i, j) m)" by (rule qinv_recover_one [OF m(1-5)])
  ultimately show ?thesis using m(2,6,7) unfolding recovering_def recover_one_frame by auto
qed

lemma recovering_fold: "recovering xs m \<Longrightarrow> qinv (fold recover_one xs m)"
  by (induction xs arbitrary: m) (auto simp: recovering_def [of "[]"] dest!: recovering_step)

lemma recover_others:
  "recovering xs m \<Longrightarrow> k \<notin> fst ` set xs \<Longrightarrow> lookup (m_db (fold recover_one xs m)) k = lookup (m_db m) k
     \<and> (k \<in> snd ` set (m_enq (fold recover_one xs m)) \<longleftrightarrow> k \<in> snd ` set (m_enq m))"
proof (induction xs arbitrary: m)
  case (Cons x xs)
  obtain i j where x: "x = (i, j)" by (cases x)
  have "recovering xs (recover_one x m)" using Cons.prems(1) recovering_step by (simp add: x)
  moreover have "\<not> m_closed m" using Cons.prems(1) by (simp add: recovering_def)
  ultimately show ?case
    using Cons.IH [of "recover_one x m"] Cons.prems(2) by (auto simp: x recover_one_frame)
qed simp

lemma recover_each:
  assumes "recovering xs m" "(i, j) \<in> set xs"
  shows "lookup (m_db (fold recover_one xs m)) i = Some (if resumed m i j then j else j\<lparr>jb_status := JobInterrupted,
          jb_error := if IsResumable (jb_kind j) m then ''jobs.resumeLoop'' else ''jobs.interruptedByRestartShort''\<rparr>)"
    and "i \<in> snd ` set (m_enq (fold recover_one xs m)) \<longleftrightarrow> resumed m i j"
proof -
  have "lookup (m_db (fold recover_one xs m)) i = Some (if resumed m i j then j else j\<lparr>jb_status := JobInterrupted,
          jb_error := if IsResumable (jb_kind j) m then ''jobs.resumeLoop'' else ''jobs.interruptedByRestartShort''\<rparr>)
     \<and> (i \<in> snd ` set (m_enq (fold recover_one xs m)) \<longleftrightarrow> resumed m i j)"
    using assms
  proof (induction xs arbitrary: m)
    case (Cons x xs)
    obtain i' j' where x: "x = (i', j')" by (cases x)
    let ?m = "recover_one x m"
    have rec: "recovering xs ?m" using Cons.prems(1) recovering_step by (simp add: x)
    have open_m: "\<not> m_closed m" using Cons.prems(1) by (simp add: recovering_def)
    show ?case
    proof (cases "(i, j) = x")
      case True
      then have "i \<notin> fst ` set xs" "lookup (m_db m) i = Some j" "i \<notin> snd ` set (m_enq m)"
        using Cons.prems(1) by (auto simp: recovering_def x)
      then show ?thesis
        using recover_others [OF rec, of i] True open_m by (auto simp: x recover_one_frame)
    next
      case False
      then have mem: "(i, j) \<in> set xs" using Cons.prems(2) by simp
      then have "i \<noteq> i'" using Cons.prems(1) by (force simp: recovering_def x)
      then have "resumed ?m i = resumed m i" "IsResumable (jb_kind j) ?m = IsResumable (jb_kind j) m"
        by (intro resumed_cong; simp add: x recover_one_frame) (simp add: x IsResumable_def recover_one_frame)
      then show ?thesis using Cons.IH [OF rec mem] by simp
    qed
  qed simp
  then show "lookup (m_db (fold recover_one xs m)) i = Some (if resumed m i j then j else j\<lparr>jb_status := JobInterrupted,
          jb_error := if IsResumable (jb_kind j) m then ''jobs.resumeLoop'' else ''jobs.interruptedByRestartShort''\<rparr>)"
    and "i \<in> snd ` set (m_enq (fold recover_one xs m)) \<longleftrightarrow> resumed m i j" by blast+
qed

lemma registered:
  "queue_part (fold (\<lambda>(k, r). Register k r) kinds m) = queue_part m"
  "m_kv (fold (\<lambda>(k, r). Register k r) kinds m) = m_kv m"
  "m_watchers (fold (\<lambda>(k, r). Register k r) kinds m) = m_watchers m"
  "m_chans (fold (\<lambda>(k, r). Register k r) kinds m) = m_chans m"
  "m_closing (fold (\<lambda>(k, r). Register k r) kinds m) = m_closing m"
  "m_panic (fold (\<lambda>(k, r). Register k r) kinds m) = m_panic m"
  by (induction kinds arbitrary: m; force simp: job_simps Register_def queue_part_def)+

lemma recovering_boot:
  fixes kinds :: "(string \<times> bool) list" and kv :: "int strmap" and nid :: int and db :: "(int \<times> job) list"
  assumes "wf_map db" "\<forall>(i, j) \<in> set db. i < nid"
  defines "m \<equiv> fold (\<lambda>(k, r). Register k r) kinds (jm_new db nid kv)"
  shows "recovering (UnfinishedJobs m) m" and "(i, j) \<in> set (UnfinishedJobs m) \<longleftrightarrow> lookup db i = Some j \<and> \<not> Done j"
proof -
  have qp: "queue_part m = queue_part (jm_new db nid kv)" by (simp add: m_def registered)
  have db: "m_db m = db" "m_queueing m = []" "\<not> m_closed m" "m_enq m = []"
    using qp by (simp_all add: queue_part_def jm_new_def)
  have "i < nid" if "lookup db i = Some j" for i j
    using assms(2) lookup_in_set [OF that] by auto
  then have "qinv (jm_new db nid kv)"
    by (auto simp: qinv_def qinv_defs jm_new_def pending_of_def proj_def)
  then have "qinv m" using qinv_same qp by blast
  moreover have u: "(i, j) \<in> set (UnfinishedJobs m) \<longleftrightarrow> lookup db i = Some j \<and> \<not> Done j" for i j
    using assms(1) by (auto simp: UnfinishedJobs_def db in_set_lookup dest: lookup_in_set)
  moreover have "distinct (map fst (UnfinishedJobs m))"
  proof -
    have "distinct (map fst (filter (\<lambda>(jid, j). \<not> Done j) db))"
      using assms(1) by (simp add: wf_map_def distinct_filter_fst)
    then have "distinct (filter (\<lambda>(jid, j). \<not> Done j) db)" "inj_on fst (set (filter (\<lambda>(jid, j). \<not> Done j) db))"
      by (simp_all only: distinct_map)
    then show ?thesis by (simp add: UnfinishedJobs_def db distinct_map)
  qed
  ultimately show "recovering (UnfinishedJobs m) m" by (auto simp: recovering_def db)
  show "(i, j) \<in> set (UnfinishedJobs m) \<longleftrightarrow> lookup db i = Some j \<and> \<not> Done j" by (rule u)
qed

lemma qinv_start: "jm_start m \<Longrightarrow> qinv m"
  unfolding jm_start_def boot_def Recover_def using recovering_fold recovering_boot(1) by blast

subsection \<open>Jobs that are being cancelled\<close>

definition cancel_part where
  "cancel_part m = (m_cancels m, m_dropped m)"

lemma dropping_frame:
  assumes "dropping m" "cancel_part m' = cancel_part m" "\<And>i q. (i, ToRecord) \<in> set (m_cancels m) \<Longrightarrow> open_job m i q \<Longrightarrow> open_job m' i q"
  shows "dropping m'"
proof (rule droppingI)
  have same: "m_cancels m' = m_cancels m" "m_dropped m' = m_dropped m" using assms(2) by (simp_all add: cancel_part_def)
  show "distinct (map fst (m_cancels m'))" using assms(1) by (simp add: same dropping_def)
  show "i \<in> set (m_dropped m')" if "(i, p) \<in> set (m_cancels m')" for i p
    using droppingD(1) [OF assms(1)] that by (simp add: same)
  show "\<exists>q. open_job m' i q" if "(i, ToRecord) \<in> set (m_cancels m')" for i
    using droppingD(2) [OF assms(1), of i ToRecord] assms(3) that by (auto simp: same)
qed

lemma dropping_same: "dropping m \<Longrightarrow> cancel_part m' = cancel_part m \<Longrightarrow> m_db m' = m_db m \<Longrightarrow> dropping m'"
  by (erule dropping_frame) (simp_all add: open_job_def)

lemma cancel_part_simps [job_simps]:
  "cancel_part (closeWatchers i m) = cancel_part m" "cancel_part (Register k r m) = cancel_part m"
  "cancel_part (snd (Watch i m)) = cancel_part m" "cancel_part (close_chan ch m) = cancel_part m"
  "cancel_part (send_chan ch m) = cancel_part m" "cancel_part (recv_chan ch m) = cancel_part m"
  "cancel_part (m\<lparr>m_logs := l\<rparr>) = cancel_part m" "cancel_part (Unwatch i ch m) = cancel_part m"
  "cancel_part (close_detached ch m) = cancel_part m" "cancel_part (set_phase q i p m) = cancel_part m"
  "cancel_part (upd_job i f m) = cancel_part m" "cancel_part (spawn q i m) = cancel_part m"
  "cancel_part (enqueue i q m) = cancel_part m" "cancel_part (run_next q i m) = cancel_part m"
  "cancel_part (Close m) = cancel_part m" "cancel_part (snd (CreateJob j m)) = cancel_part m"
  "cancel_part (run_collect q i b m) = cancel_part m" "cancel_part (snd (countResume i m)) = cancel_part m"
  "cancel_part (m\<lparr>m_queueing := xs\<rparr>) = cancel_part m" "cancel_part (m\<lparr>m_ucanceled := u, m_stopped := v\<rparr>) = cancel_part m"
  by (auto simp: cancel_part_def closeWatchers_def Register_def Watch_def close_chan_def send_chan_def recv_chan_def Unwatch_def
      close_detached_def set_phase_def upd_job_def spawn_def enqueue_def run_next_def Close_def CreateJob_def run_collect_def
      countResume_def Let_def split: option.splits prod.splits bool.splits nat.splits)

lemma cancel_part_notify [job_simps]:
  "cancel_part (notify i m) = cancel_part m" "cancel_part (notifyJob i m) = cancel_part m" "cancel_part (appendLog i k m) = cancel_part m"
proof -
  have n: "cancel_part (notify i m) = cancel_part m" for m
  proof -
    have "cancel_part (fold send_chan cs m) = cancel_part m" for cs by (induction cs arbitrary: m) (simp_all add: job_simps)
    then show ?thesis by (simp add: notify_def)
  qed
  then show "cancel_part (notify i m) = cancel_part m" "cancel_part (notifyJob i m) = cancel_part m" "cancel_part (appendLog i k m) = cancel_part m"
    by (simp_all add: notifyJob_def appendLog_def job_simps)
qed

lemma queue_part_db: "queue_part m' = queue_part m \<Longrightarrow> m_db m' = m_db m"
  by (simp add: queue_part_def)

lemma db_frame:
  "m_db (closeWatchers k m) = m_db m" "m_db (notify k m) = m_db m" "m_db (notifyJob k m) = m_db m"
  "m_db (appendLog k s m) = m_db m" "m_db (Register a b m) = m_db m" "m_db (snd (Watch k m)) = m_db m"
  "m_db (Unwatch k ch m) = m_db m" "m_db (recv_chan ch m) = m_db m" "m_db (close_detached ch m) = m_db m"
  "m_db (set_cancel k p m) = m_db m" "m_db (m\<lparr>m_cancels := cs\<rparr>) = m_db m"
  by (rule queue_part_db, simp add: job_simps)+

lemma db_frame_queue:
  "m_db (set_phase q k p m) = m_db m" "m_db (enqueue k q m) = m_db m" "m_db (run_collect q k c m) = m_db m"
  "m_db (run_next q k m) = m_db m" "m_db (Close m) = m_db m" "m_db (m\<lparr>m_queueing := xs\<rparr>) = m_db m"
  "m_db (m\<lparr>m_pending := y, m_dropped := z\<rparr>) = m_db m" "m_db (m\<lparr>m_ucanceled := u, m_stopped := v\<rparr>) = m_db m"
  by (simp_all add: job_simps run_collect_def run_next_def spawn_def Let_def)

text \<open>A row that a goroutine writes is not the row of a job that is being cancelled.\<close>

lemma dropping_run:
  assumes "dropping m" "qinv m" "(q, i, p0) \<in> set (m_runs m)" "cancel_part m' = cancel_part m"
    and "\<And>k. k \<noteq> i \<Longrightarrow> lookup (m_db m') k = lookup (m_db m) k"
  shows "dropping m'"
proof (rule dropping_frame [OF assms(1,4)])
  fix k q' assume k: "(k, ToRecord) \<in> set (m_cancels m)" "open_job m k q'"
  then have "k \<noteq> i" using dropped_elsewhere(2) [OF assms(2) droppingD(1) [OF assms(1) k(1)]] assms(3) by metis
  then show "open_job m' k q'" using k(2) assms(5) [of k] by (simp add: open_job_def)
qed

lemma cancels_set [job_simps]: "map fst (m_cancels (set_cancel i p m)) = map fst (m_cancels m)"
  "m_dropped (set_cancel i p m) = m_dropped m"
  "(k, p') \<in> set (m_cancels (set_cancel i p m)) \<longleftrightarrow> (if k = i then p' = p \<and> i \<in> fst ` set (m_cancels m) else (k, p') \<in> set (m_cancels m))"
  by (force simp: set_cancel_def split: prod.splits if_splits)+

lemma dropping_set_cancel:
  assumes "dropping m" "i \<in> fst ` set (m_cancels m)" "p \<noteq> ToRecord" "cancel_part m' = cancel_part m"
    and "\<And>k q. k \<noteq> i \<Longrightarrow> open_job m k q \<Longrightarrow> open_job m' k q"
  shows "dropping (set_cancel i p m')"
proof (rule droppingI)
  have same: "m_cancels m' = m_cancels m" "m_dropped m' = m_dropped m" using assms(4) by (simp_all add: cancel_part_def)
  show "distinct (map fst (m_cancels (set_cancel i p m')))" using assms(1) by (simp add: job_simps same dropping_def)
  show "k \<in> set (m_dropped (set_cancel i p m'))" if "(k, c) \<in> set (m_cancels (set_cancel i p m'))" for k c
    using that droppingD(1) [OF assms(1)] assms(2) by (auto simp: job_simps same split: if_splits)
  show "\<exists>q. open_job (set_cancel i p m') k q" if "(k, ToRecord) \<in> set (m_cancels (set_cancel i p m'))" for k
    using that droppingD(2) [OF assms(1), of k ToRecord] assms(3,5) by (auto simp: job_simps same open_job_def db_frame split: if_splits)
qed

lemma dropping_cancel_act:
  assumes "dropping m" "qinv m"
  shows "dropping (snd (cancel_act i q m))"
proof (cases "i \<in> set (pending_of m q)")
  case True
  then have new: "i \<notin> set (m_dropped m)" using order_facts(2) [OF assms(2), of i q] by blast
  then have "i \<notin> fst ` set (m_cancels m)" using droppingD(1) [OF assms(1)] by auto
  moreover have "open_job m i q" using True at_homeD(2) [OF qinvD(3) [OF assms(2)]] by blast
  ultimately show ?thesis
    using True assms(1) by (auto simp: cancel_act_def dropping_def open_job_def)
next
  case False
  then show ?thesis
    by (auto simp: cancel_act_def job_simps db_frame_queue split: option.splits intro: dropping_same [OF assms(1)] assms(1))
qed

lemma dropping_CreateJob:
  assumes "dropping m" "qinv m"
  shows "dropping (snd (CreateJob j m))"
proof (rule dropping_frame [OF assms(1)])
  show "open_job (snd (CreateJob j m)) k q" if "open_job m k q" for k q
  proof -
    have "k \<noteq> m_next_id m" using that fresh_idsD(6) [OF qinvD(4) [OF assms(2)], of k] by (auto simp: open_job_def)
    then show ?thesis using that by (simp add: open_job_def CreateJob_def)
  qed
qed (simp add: job_simps)

lemma dropping_upd_job:
  assumes "dropping m" "\<And>j. jb_queue (f j) = jb_queue j" "\<And>j. \<not> Done j \<Longrightarrow> \<not> Done (f j)"
  shows "dropping (upd_job i f m)"
  by (rule dropping_frame [OF assms(1)]) (use assms(2,3) in \<open>auto simp: job_simps intro: open_job_upd\<close>)

lemma dropping_step: "job_step m m' \<Longrightarrow> qinv m \<Longrightarrow> dropping m \<Longrightarrow> dropping m'"
proof (induction rule: job_step.induct)
  case (Start m tr lang s)
  then show ?case using dropping_CreateJob by (auto simp: Start_def split_beta)
next
  case (Retry m lang i)
  have "dropping (appendLog n k (snd (CreateJob j m)))" for n k j
    by (rule dropping_same [OF dropping_CreateJob [OF Retry(2,1)]]) (simp_all add: job_simps db_frame)
  then show ?case using Retry by (auto simp: Retry_def split_beta split: option.splits)
next
  case (Begin q i m)
  show ?case by (rule dropping_same [OF Begin(3)]) (simp_all add: run_begin_def job_simps split: option.splits)
next
  case (Fail q i m)
  show ?case by (rule dropping_run [OF Fail(3,2,1)]) (simp_all add: run_fail_def FinishJob_def job_simps)
next
  case (Mark q i m)
  show ?case by (rule dropping_run [OF Mark(3,2,1)]) (simp_all add: run_mark_def MarkJobRunning_def job_simps)
next
  case (Explain q i st tx m key args)
  show ?case by (rule dropping_run [OF Explain(3,2,1)]) (simp_all add: run_explain_def SetJobErrorKey_def job_simps)
next
  case (Record q i st tx m)
  show ?case by (rule dropping_run [OF Record(3,2,1)]) (simp_all add: run_record_def FinishJob_def job_simps)
next
  case (CancelAct m i j)
  show ?case by (rule dropping_cancel_act [OF CancelAct(3,2)])
next
  case (CancelRecord i m)
  have "i \<in> fst ` set (m_cancels m)" using CancelRecord(1) by force
  then show ?case
    unfolding cancel_record_def
    by (rule dropping_set_cancel [OF CancelRecord(3)]) (simp_all add: open_job_def FinishJob_def job_simps)
next
  case (CancelTell i m)
  have "i \<in> fst ` set (m_cancels m)" using CancelTell(1) by force
  then show ?case
    unfolding cancel_tell_def
    by (rule dropping_set_cancel [OF CancelTell(3)]) (simp_all add: job_simps open_job_def db_frame)
next
  case (CancelClose i m)
  have "dropping (m\<lparr>m_cancels := filter (\<lambda>(k, p). k \<noteq> i) (m_cancels m)\<rparr>)"
    by (rule droppingI) (use CancelClose(3) droppingD [OF CancelClose(3)] in \<open>auto simp: dropping_def distinct_filter_fst open_job_def\<close>)
  then show ?case
    unfolding cancel_close_def by (rule dropping_same) (simp_all add: job_simps db_frame)
next
  case (SetStep m i n steps name key args)
  have "dropping (SetJobStepKey i n steps name key args m)"
    unfolding SetJobStepKey_def by (rule dropping_upd_job [OF SetStep(2)]) (simp_all add: Done_def)
  then show ?case unfolding setStepKey_def by (rule dropping_same) (simp_all add: job_simps db_frame)
next
  case (SetResume m i resume)
  show ?case unfolding SetJobResume_def by (rule dropping_upd_job [OF SetResume(2)]) (simp_all add: Done_def)
next
  case (Report q i b s f m msg)
  show ?case
    by (rule dropping_same [OF Report(3)]) (simp_all add: run_report_def Let_def split_beta job_simps db_frame)
qed (erule dropping_same; simp add: job_simps db_frame db_frame_queue run_exec_def run_tell_def run_close_def)+

lemma dropping_start:
  assumes "jm_start m"
  shows "dropping m"
proof -
  have one: "m_cancels (recover_one x m) = m_cancels m" for x m
  proof -
    have "cancel_part (recover_one x m) = cancel_part m"
      by (cases x) (simp add: recover_one_eq FinishJob_def job_simps)
    then show ?thesis by (simp add: cancel_part_def)
  qed
  then have "m_cancels (fold recover_one xs m) = m_cancels m" for xs m
    by (induction xs arbitrary: m) simp_all
  moreover have "m_cancels (fold (\<lambda>(k, r). Register k r) kinds m) = m_cancels m" for kinds m
    by (induction kinds arbitrary: m) (auto simp: Register_def)
  ultimately have "m_cancels m = []"
    using assms by (auto simp: jm_start_def boot_def Recover_def jm_new_def)
  then show ?thesis by (simp add: dropping_def)
qed

definition jobs_inv :: "jm \<Rightarrow> bool" where
  "jobs_inv m \<longleftrightarrow> qinv m \<and> dropping m"

interpretation queues: step_system jm_start job_step jobs_inv
  by unfold_locales (auto simp: jobs_inv_def intro: qinv_start qinv_step dropping_start dropping_step)

lemma reached_qinv: "jm_start m0 \<Longrightarrow> job_step\<^sup>*\<^sup>* m0 m \<Longrightarrow> qinv m"
  using queues.inv_reachable by (auto simp: jobs_inv_def)

section \<open>The channels\<close>

text \<open>Every channel a goroutine may still use is open and has one owner.\<close>

definition cinv :: "jm \<Rightarrow> bool" where
  "cinv m \<longleftrightarrow> \<not> m_panic m \<and> distinct (m_closing m) \<and> (\<forall>i. distinct (watchers_of m i))
     \<and> (\<forall>i k. i \<noteq> k \<longrightarrow> set (watchers_of m i) \<inter> set (watchers_of m k) = {})
     \<and> (\<forall>i. set (watchers_of m i) \<inter> set (m_closing m) = {})
     \<and> (\<forall>ch. ch \<in> set (m_closing m) \<or> (\<exists>i. ch \<in> set (watchers_of m i)) \<longrightarrow> (\<exists>n. lookup (m_chans m) ch = Some (n, False)))
     \<and> (\<forall>ch. lookup (m_chans m) ch \<noteq> None \<longrightarrow> ch < length (m_chans m))"

definition chan_part where
  "chan_part m = (m_watchers m, m_chans m, m_closing m, m_panic m)"

lemma cinv_same: "cinv m \<Longrightarrow> chan_part m' = chan_part m \<Longrightarrow> cinv m'"
  by (simp add: cinv_def chan_part_def watchers_of_def)

lemma chan_part_queue [job_simps]:
  "chan_part (set_phase q i p m) = chan_part m" "chan_part (upd_job i f m) = chan_part m"
  "chan_part (spawn q i m) = chan_part m" "chan_part (enqueue i q m) = chan_part m"
  "chan_part (run_next q i m) = chan_part m" "chan_part (Close m) = chan_part m"
  "chan_part (snd (CreateJob j m)) = chan_part m" "chan_part (run_collect q i b m) = chan_part m"
  "chan_part (Register k r m) = chan_part m" "chan_part (snd (countResume i m)) = chan_part m"
  "chan_part (m\<lparr>m_logs := l\<rparr>) = chan_part m" "chan_part (m\<lparr>m_queueing := xs\<rparr>) = chan_part m"
  "chan_part (m\<lparr>m_pending := x, m_dropped := y\<rparr>) = chan_part m" "chan_part (set_cancel i c m) = chan_part m"
  "chan_part (m\<lparr>m_cancels := z\<rparr>) = chan_part m"
  by (auto simp: chan_part_def set_phase_def upd_job_def spawn_def enqueue_def run_next_def Close_def CreateJob_def
      run_collect_def Register_def countResume_def set_cancel_def Let_def split: option.splits)

lemma chan_part_rows [job_simps]:
  "chan_part (FinishJob i s t m) = chan_part m" "chan_part (MarkJobRunning i m) = chan_part m"
  "chan_part (SetJobStepKey i n st nm k a m) = chan_part m" "chan_part (SetJobResume i r m) = chan_part m"
  "chan_part (SetJobErrorKey i k a m) = chan_part m"
  by (simp_all add: FinishJob_def MarkJobRunning_def SetJobStepKey_def SetJobResume_def SetJobErrorKey_def job_simps)

lemma length_put: "lookup m k \<noteq> None \<Longrightarrow> length (put k v m) = length m"
  by (induction m) (auto simp: lookup_def put_def split: if_splits)

lemma cinvD:
  assumes "cinv m"
  shows "\<not> m_panic m" "distinct (m_closing m)" "distinct (watchers_of m i)"
    "ch \<in> set (watchers_of m i) \<Longrightarrow> ch \<in> set (watchers_of m k) \<Longrightarrow> i = k"
    "ch \<in> set (watchers_of m i) \<Longrightarrow> ch \<notin> set (m_closing m)"
    "ch \<in> set (m_closing m) \<Longrightarrow> \<exists>n. lookup (m_chans m) ch = Some (n, False)"
    "ch \<in> set (watchers_of m i) \<Longrightarrow> \<exists>n. lookup (m_chans m) ch = Some (n, False)"
    "lookup (m_chans m) ch \<noteq> None \<Longrightarrow> ch < length (m_chans m)"
  using assms unfolding cinv_def by blast+

lemma cinvI:
  assumes "\<not> m_panic m" "distinct (m_closing m)" "\<And>i. distinct (watchers_of m i)"
    "\<And>ch i k. ch \<in> set (watchers_of m i) \<Longrightarrow> ch \<in> set (watchers_of m k) \<Longrightarrow> i = k"
    "\<And>ch i. ch \<in> set (watchers_of m i) \<Longrightarrow> ch \<notin> set (m_closing m)"
    "\<And>ch. ch \<in> set (m_closing m) \<Longrightarrow> \<exists>n. lookup (m_chans m) ch = Some (n, False)"
    "\<And>ch i. ch \<in> set (watchers_of m i) \<Longrightarrow> \<exists>n. lookup (m_chans m) ch = Some (n, False)"
    "\<And>ch. lookup (m_chans m) ch \<noteq> None \<Longrightarrow> ch < length (m_chans m)"
  shows "cinv m"
  using assms unfolding cinv_def by blast

lemma cinv_chan_update:
  assumes "cinv m" "lookup (m_chans m) ch = Some x"
    and "\<And>i. c = True \<Longrightarrow> ch \<notin> set (watchers_of m i)" "c = True \<Longrightarrow> ch \<notin> set (m_closing m)" "\<not> snd x \<Longrightarrow> c \<longleftrightarrow> c"
    and "snd x \<longrightarrow> c"
  shows "cinv (m\<lparr>m_chans := put ch (n, c) (m_chans m)\<rparr>)"
proof -
  let ?m = "m\<lparr>m_chans := put ch (n, c) (m_chans m)\<rparr>"
  note d = cinvD [OF assms(1)]
  have w: "watchers_of ?m = watchers_of m" by (simp add: watchers_of_def fun_eq_iff)
  show ?thesis
  proof (rule cinvI)
    show "\<exists>n. lookup (m_chans ?m) k = Some (n, False)" if "k \<in> set (m_closing ?m)" for k
      using d(6) [of k] that assms(4) by (cases c) auto
    show "\<exists>n. lookup (m_chans ?m) k = Some (n, False)" if "k \<in> set (watchers_of ?m i)" for k i
      using d(7) [of k i] that assms(3) [of i] unfolding w by (cases c) auto
    show "k < length (m_chans ?m)" if "lookup (m_chans ?m) k \<noteq> None" for k
      using d(8) [of k] that assms(2) length_put [of "m_chans m" ch "(n, c)"] by (auto split: if_splits)
    show "i = k" if "j \<in> set (watchers_of ?m i)" "j \<in> set (watchers_of ?m k)" for j i k
      using d(4) that unfolding w by blast
  qed (use d(1-3,5) in \<open>simp_all add: w\<close>)
qed

lemma cinv_send: "cinv m \<Longrightarrow> ch \<in> set (watchers_of m i) \<Longrightarrow> cinv (send_chan ch m) \<and> watchers_of (send_chan ch m) = watchers_of m"
proof -
  assume inv: "cinv m" and mem: "ch \<in> set (watchers_of m i)"
  from cinvD(7) [OF this] obtain n where n: "lookup (m_chans m) ch = Some (n, False)" by blast
  then show ?thesis
    using inv cinv_chan_update [OF inv n, of False "Suc n"] by (simp add: send_chan_def) (simp add: watchers_of_def fun_eq_iff)
qed

lemma cinv_notify: "cinv m \<Longrightarrow> cinv (notify i m)"
proof -
  have "cinv (fold send_chan cs m)" if "cinv m" "set cs \<subseteq> set (watchers_of m i)" for cs m
    using that by (induction cs arbitrary: m) (auto dest: cinv_send)
  then show "cinv m \<Longrightarrow> cinv (notify i m)" by (simp add: notify_def)
qed

lemma cinv_notifyJob: "cinv m \<Longrightarrow> cinv (notifyJob i m)"
  by (simp add: notifyJob_def cinv_notify)

lemma cinv_appendLog: "cinv m \<Longrightarrow> cinv (appendLog i k m)"
  unfolding appendLog_def by (intro cinv_notify) (erule cinv_same, simp add: job_simps)

lemma cinv_closeWatchers:
  assumes "cinv m"
  shows "cinv (closeWatchers i m)"
proof (cases "lookup (m_watchers m) i")
  case None
  then show ?thesis using assms by (simp add: closeWatchers_def)
next
  case (Some l)
  let ?m = "closeWatchers i m"
  note d = cinvD [OF assms]
  have l: "watchers_of m i = l" by (simp add: watchers_of_def Some)
  have w: "watchers_of ?m k = (if k = i then [] else watchers_of m k)" for k
    by (simp add: closeWatchers_def Some watchers_of_def)
  have same: "m_chans ?m = m_chans m" "m_panic ?m = m_panic m" "m_closing ?m = m_closing m @ l"
    by (simp_all add: closeWatchers_def Some)
  show ?thesis
  proof (rule cinvI)
    show "distinct (m_closing ?m)" using d(2) d(3) [of i] d(5) [of _ i] by (auto simp: same l)
    show "ch \<notin> set (m_closing ?m)" if "ch \<in> set (watchers_of ?m k)" for ch k
      using that d(4) [of ch k i] d(5) [of ch k] by (auto simp: same w l split: if_splits)
    show "\<exists>n. lookup (m_chans ?m) ch = Some (n, False)" if "ch \<in> set (m_closing ?m)" for ch
      using that d(6) d(7) [of ch i] by (auto simp: same l)
    show "j = k" if "ch \<in> set (watchers_of ?m j)" "ch \<in> set (watchers_of ?m k)" for ch j k
      using d(4) [of ch j k] that unfolding w by (auto split: if_splits)
    show "\<exists>n. lookup (m_chans ?m) ch = Some (n, False)" if "ch \<in> set (watchers_of ?m k)" for ch k
      using that d(7) [of ch k] by (auto simp: same w split: if_splits)
  qed (use d(1,3,8) in \<open>simp_all add: w same\<close>)
qed

lemma cinv_Watch:
  assumes "cinv m"
  shows "cinv (snd (Watch i m))"
proof -
  let ?m = "snd (Watch i m)" and ?ch = "length (m_chans m)"
  note d = cinvD [OF assms]
  have w: "watchers_of ?m k = (if k = i then watchers_of m i @ [?ch] else watchers_of m k)" for k
    by (simp add: Watch_def Let_def watchers_of_def)
  have new: "lookup (m_chans m) ?ch = None" using d(8) [of ?ch] by (cases "lookup (m_chans m) ?ch") auto
  have chans: "lookup (m_chans ?m) k = (if k = ?ch then Some (0, False) else lookup (m_chans m) k)" for k
    using new by (auto simp: Watch_def Let_def lookup_def map_add_def split: option.splits)
  have same: "m_panic ?m = m_panic m" "m_closing ?m = m_closing m" "length (m_chans ?m) = Suc ?ch"
    by (simp_all add: Watch_def Let_def)
  have nowhere: "?ch \<notin> set (watchers_of m k)" "?ch \<notin> set (m_closing m)" for k
    using d(6) [of ?ch] d(7) [of ?ch k] new by auto
  show ?thesis
  proof (rule cinvI)
    show "distinct (watchers_of ?m k)" for k using d(3) nowhere(1) by (simp add: w)
    show "j = k" if "ch \<in> set (watchers_of ?m j)" "ch \<in> set (watchers_of ?m k)" for ch j k
      using d(4) [of ch j k] that nowhere(1) unfolding w by (auto split: if_splits)
    show "ch \<notin> set (m_closing ?m)" if "ch \<in> set (watchers_of ?m k)" for ch k
      using that d(5) [of ch k] nowhere(2) by (auto simp: same w split: if_splits)
    show "\<exists>n. lookup (m_chans ?m) ch = Some (n, False)" if "ch \<in> set (m_closing ?m)" for ch
      using that d(6) by (simp add: same chans)
    show "\<exists>n. lookup (m_chans ?m) ch = Some (n, False)" if "ch \<in> set (watchers_of ?m k)" for ch k
      using that d(7) [of ch k] by (auto simp: chans w split: if_splits)
    show "ch < length (m_chans ?m)" if "lookup (m_chans ?m) ch \<noteq> None" for ch
      using that d(8) [of ch] by (auto simp: same chans split: if_splits)
  qed (use d(1,2) in \<open>simp_all add: same\<close>)
qed

text \<open>Closing a channel that its owner has given up.\<close>

lemma cinv_close:
  assumes "cinv m" "lookup (m_chans m) ch = Some (n, False)" "\<And>i. ch \<notin> set (watchers_of m i)" "ch \<notin> set (m_closing m)"
  shows "cinv (close_chan ch m)"
  using cinv_chan_update [OF assms(1,2), of True n] assms by (simp add: close_chan_def)

lemma cinv_Unwatch:
  assumes "cinv m"
  shows "cinv (Unwatch i ch m)"
proof (cases "ch \<in> set (watchers_of m i)")
  case True
  let ?m = "m\<lparr>m_watchers := put i (remove1 ch (watchers_of m i)) (m_watchers m)\<rparr>"
  note d = cinvD [OF assms]
  have w: "watchers_of ?m k = (if k = i then remove1 ch (watchers_of m i) else watchers_of m k)" for k
    by (simp add: watchers_of_def)
  have sub: "set (watchers_of ?m k) \<subseteq> set (watchers_of m k)" for k
    by (simp add: w set_remove1_subset)
  have inv: "cinv ?m"
  proof (rule cinvI)
    show "distinct (watchers_of ?m k)" for k using d(3) by (simp add: w)
    show "j = k" if "x \<in> set (watchers_of ?m j)" "x \<in> set (watchers_of ?m k)" for x j k
      using d(4) that sub by blast
    show "x \<notin> set (m_closing ?m)" if "x \<in> set (watchers_of ?m k)" for x k using d(5) [of x k] that sub by auto
    show "\<exists>n. lookup (m_chans ?m) x = Some (n, False)" if "x \<in> set (watchers_of ?m k)" for x k
      using d(7) [of x k] that sub by auto
  qed (use d(1,2,6,8) in simp_all)
  obtain n where n: "lookup (m_chans ?m) ch = Some (n, False)" using d(7) [OF True] by auto
  have "ch \<notin> set (watchers_of ?m k)" for k
    using d(3) [of i] d(4) [OF True, of k] by (auto simp: w)
  moreover have "ch \<notin> set (m_closing ?m)" using d(5) [OF True] by simp
  ultimately show ?thesis using cinv_close [OF inv n] True by (simp add: Unwatch_def)
qed (simp add: Unwatch_def assms)

lemma cinv_close_detached:
  assumes "cinv m"
  shows "cinv (close_detached ch m)"
proof (cases "ch \<in> set (m_closing m)")
  case True
  let ?m = "m\<lparr>m_closing := remove1 ch (m_closing m)\<rparr>"
  note d = cinvD [OF assms]
  have w: "watchers_of ?m = watchers_of m" by (simp add: watchers_of_def fun_eq_iff)
  have sub: "set (m_closing ?m) \<subseteq> set (m_closing m)" by (simp add: set_remove1_subset)
  have inv: "cinv ?m"
  proof (rule cinvI)
    show "k \<notin> set (m_closing ?m)" if "k \<in> set (watchers_of ?m i)" for k i using d(5) [of k i] that sub by (auto simp: w)
    show "\<exists>n. lookup (m_chans ?m) k = Some (n, False)" if "k \<in> set (m_closing ?m)" for k using d(6) [of k] that sub by auto
    show "i = j" if "k \<in> set (watchers_of ?m i)" "k \<in> set (watchers_of ?m j)" for k i j using d(4) that by (simp add: w)
  qed (use d(1-3,7,8) in \<open>simp_all add: w\<close>)
  obtain n where n: "lookup (m_chans ?m) ch = Some (n, False)" using d(6) [OF True] by auto
  have "ch \<notin> set (watchers_of ?m k)" for k using d(5) [of ch k] True by (auto simp: w)
  then show ?thesis using cinv_close [OF inv n] d(2) True by (simp add: close_detached_def)
qed (simp add: close_detached_def assms)

lemma cinv_recv: "cinv m \<Longrightarrow> cinv (recv_chan ch m)"
  using cinvD(6,7) [of m ch]
  by (auto simp: recv_chan_def split: option.splits nat.splits intro!: cinv_chan_update)

lemma cinv_cong: "chan_part m' = chan_part m \<Longrightarrow> cinv m' = cinv m"
  using cinv_same by metis

lemmas cinv_frame = chan_part_queue [THEN cinv_cong] chan_part_rows [THEN cinv_cong]

lemmas cinv_keep = cinv_appendLog cinv_notify cinv_notifyJob cinv_closeWatchers cinv_Watch cinv_Unwatch cinv_recv cinv_close_detached

lemmas run_parts = run_begin_def run_fail_def run_mark_def run_exec_def run_explain_def run_record_def run_tell_def run_close_def

lemma cinv_step: "job_step m m' \<Longrightarrow> cinv m \<Longrightarrow> cinv m'"
proof (induction rule: job_step.induct)
  case (Start m tr lang s)
  then show ?case by (simp add: Start_def split_beta cinv_frame)
next
  case (Retry m lang i)
  then show ?case by (auto simp: Retry_def split_beta cinv_frame cinv_keep split: option.splits)
next
  case (Begin q i m)
  then show ?case by (auto simp: run_begin_def cinv_frame split: option.splits)
next
  case (Report q i b s f m msg)
  then show ?case by (simp add: run_report_def cinv_frame cinv_keep Let_def split_beta)
next
  case (CancelAct m i j)
  have "cinv (m\<lparr>m_ucanceled := x, m_stopped := y\<rparr>) = cinv m" for x y
    by (rule cinv_cong) (simp add: chan_part_def)
  with CancelAct show ?case by (auto simp: cancel_act_def cinv_frame split: option.splits)
next
  case (CancelClose i m)
  then show ?case unfolding cancel_close_def by (intro cinv_closeWatchers) (simp add: cinv_frame)
next
  case (SetStep m i n steps name key args)
  then show ?case by (simp add: setStepKey_def cinv_frame cinv_keep)
qed (simp_all add: run_parts cancel_record_def cancel_tell_def cinv_frame cinv_keep)

lemma cinv_start: "jm_start m \<Longrightarrow> cinv m"
proof -
  have new: "cinv (jm_new db nid kv)" for db nid kv
    by (rule cinvI) (simp_all add: jm_new_def watchers_of_def)
  have one: "cinv m \<Longrightarrow> cinv (recover_one x m)" for x m
    by (cases x) (simp add: recover_one_eq cinv_frame cinv_keep)
  have "cinv m \<Longrightarrow> cinv (fold recover_one xs m)" for xs m
    by (induction xs arbitrary: m) (simp_all add: one)
  moreover have "cinv (fold (\<lambda>(k, r). Register k r) kinds (jm_new db nid kv))" for kinds db nid kv
    using new by (rule cinv_same) (simp add: chan_part_def registered)
  ultimately show "jm_start m \<Longrightarrow> cinv m" by (auto simp: jm_start_def boot_def Recover_def)
qed

interpretation channels: step_system jm_start job_step cinv
  by unfold_locales (auto intro: cinv_start cinv_step)

section \<open>A finished job stays finished\<close>

definition outcome :: "jm \<Rightarrow> int \<Rightarrow> (job_status \<times> string) option" where
  "outcome m i = (case lookup (m_db m) i of Some j \<Rightarrow> if Done j then Some (jb_status j, jb_error j) else None | None \<Rightarrow> None)"

lemma outcome_db: "m_db m' = m_db m \<Longrightarrow> outcome m' i = outcome m i"
  by (simp add: outcome_def)

lemmas outcome_frame = db_frame [THEN outcome_db] db_frame_queue [THEN outcome_db]

lemma outcome_upd:
  "k \<noteq> i \<or> (\<forall>j. jb_status (f j) = jb_status j \<and> jb_error (f j) = jb_error j) \<or> outcome m i = None
     \<Longrightarrow> outcome m i = Some x \<Longrightarrow> outcome (upd_job k f m) i = Some x"
  by (auto simp: outcome_def job_simps Done_def split: option.splits if_splits)

lemma open_outcome: "open_job m i q \<Longrightarrow> outcome m i = None"
  by (auto simp: outcome_def open_job_def)

lemma outcome_finish: "open_job m k q \<Longrightarrow> outcome m i = Some x \<Longrightarrow> outcome (upd_job k f m) i = Some x"
  using open_outcome by (intro outcome_upd) auto

lemma outcome_CreateJob: "fresh_ids m \<Longrightarrow> outcome m i = Some x \<Longrightarrow> outcome (snd (CreateJob j m)) i = Some x"
  using fresh_idsD(6) [of m i] by (auto simp: outcome_def CreateJob_def split: option.splits)

text \<open>The row of a job that a goroutine or a cancelling request still has to record has no outcome.\<close>

lemma outcome_of_run: "qinv m \<Longrightarrow> (q, k, p) \<in> set (m_runs m) \<Longrightarrow> \<not> job_over p \<Longrightarrow> outcome m k = None"
  using at_homeD(4) [OF qinvD(3)] open_outcome by metis

lemma outcome_write: "outcome m k = None \<Longrightarrow> outcome m i = Some x \<Longrightarrow> outcome (upd_job k f m) i = Some x"
  by (rule outcome_upd) auto

lemma outcome_step: "job_step m m' \<Longrightarrow> jobs_inv m \<Longrightarrow> outcome m i = Some x \<Longrightarrow> outcome m' i = Some x"
  unfolding jobs_inv_def
proof (induction rule: job_step.induct)
  case (Start m tr lang s)
  then show ?case using outcome_CreateJob [OF qinvD(4)] by (auto simp: Start_def split_beta)
next
  case (Retry m lang k)
  then show ?case
    using outcome_CreateJob [OF qinvD(4)] by (auto simp: Retry_def split_beta outcome_frame split: option.splits)
next
  case (Begin q k m)
  then show ?case by (simp add: run_begin_def outcome_frame split: option.splits)
next
  case (Fail q k m)
  then have "outcome m k = None" using outcome_of_run by fastforce
  then show ?case using Fail by (simp add: run_fail_def FinishJob_def outcome_frame outcome_write)
next
  case (Mark q k m)
  then have "outcome m k = None" using outcome_of_run by fastforce
  then show ?case using Mark by (simp add: run_mark_def MarkJobRunning_def outcome_frame outcome_write)
next
  case (Report q k b s f m msg)
  then show ?case by (simp add: run_report_def Let_def split_beta outcome_frame)
next
  case (Explain q k st tx m key args)
  then have "outcome m k = None" using outcome_of_run by fastforce
  then show ?case using Explain by (simp add: run_explain_def SetJobErrorKey_def outcome_frame outcome_write)
next
  case (Record q k st tx m)
  then have "outcome m k = None" using outcome_of_run by fastforce
  then show ?case using Record by (simp add: run_record_def FinishJob_def outcome_frame outcome_write)
next
  case (CancelAct m k j)
  then show ?case by (auto simp: cancel_act_def outcome_frame split: option.splits)
next
  case (CancelRecord k m)
  then have "outcome m k = None" using droppingD(2) open_outcome by blast
  then show ?case using CancelRecord by (simp add: cancel_record_def FinishJob_def outcome_frame outcome_write)
next
  case (SetStep m k n steps name key args)
  then show ?case by (auto simp: setStepKey_def SetJobStepKey_def outcome_frame intro!: outcome_upd)
next
  case (SetResume m k resume)
  then show ?case by (auto simp: SetJobResume_def intro!: outcome_upd)
qed (simp_all add: outcome_frame run_exec_def run_tell_def run_close_def cancel_tell_def cancel_close_def)

lemma outcome_steps: "job_step\<^sup>*\<^sup>* m m' \<Longrightarrow> jobs_inv m \<Longrightarrow> outcome m i = Some x \<Longrightarrow> outcome m' i = Some x"
proof (induction rule: rtranclp_induct)
  case (step y z)
  then show ?case using outcome_step [OF step(2)] queues.inv_steps [OF step(1)] by blast
qed

section \<open>A waiting job gets its turn\<close>

text \<open>One step of the goroutine of a queue, with what the runner and its error leave open.\<close>

fun goroutine :: "phase \<Rightarrow> string \<Rightarrow> int \<Rightarrow> bool \<Rightarrow> string \<Rightarrow> string \<Rightarrow> string \<Rightarrow> jm \<Rightarrow> jm" where
  "goroutine Begun q i failed msg key args m = run_begin q i m"
| "goroutine Failing q i failed msg key args m = run_fail q i m"
| "goroutine Marking q i failed msg key args m = run_mark q i m"
| "goroutine Marked q i failed msg key args m = run_exec q i m"
| "goroutine Exec q i failed msg key args m = run_collect q i failed m"
| "goroutine (Collected b s f) q i failed msg key args m = run_report q i b s f msg m"
| "goroutine (Deciding st tx True) q i failed msg key args m = run_explain q i st tx key args m"
| "goroutine (Deciding st tx False) q i failed msg key args m = run_record q i st tx m"
| "goroutine (Recorded c) q i failed msg key args m = run_tell q i c m"
| "goroutine Closing q i failed msg key args m = run_close q i m"
| "goroutine Leaving q i failed msg key args m = run_next q i m"

definition own_step :: "string \<Rightarrow> jm \<Rightarrow> jm \<Rightarrow> bool" where
  "own_step q m m' \<longleftrightarrow> (\<exists>i p failed msg key args. (q, i, p) \<in> set (m_runs m) \<and> m' = goroutine p q i failed msg key args m)"

lemma goroutine_step: "(q, i, p) \<in> set (m_runs m) \<Longrightarrow> job_step m (goroutine p q i failed msg key args m)"
  by (cases "(p, q, i, failed, msg, key, args, m)" rule: goroutine.cases) (auto intro: job_step.intros)

lemma own_job_step: "own_step q m m' \<Longrightarrow> job_step m m'"
  by (auto simp: own_step_def goroutine_step)

text \<open>How far a goroutine is from handing its queue over, and a waiting job from its start.\<close>

fun phase_rank :: "phase \<Rightarrow> nat" where
  "phase_rank Begun = 10"
| "phase_rank Marking = 9"
| "phase_rank Marked = 8"
| "phase_rank Exec = 7"
| "phase_rank (Collected b s f) = 6"
| "phase_rank (Deciding st tx True) = 5"
| "phase_rank (Deciding st tx False) = 4"
| "phase_rank Failing = 4"
| "phase_rank (Recorded c) = 3"
| "phase_rank Closing = 2"
| "phase_rank Leaving = 1"

lemma phase_rank_bounds: "1 \<le> phase_rank p" "phase_rank p \<le> 10"
  by (cases p rule: phase_rank.cases; simp)+

definition ahead :: "int \<Rightarrow> int list \<Rightarrow> nat" where
  "ahead i xs = length (takeWhile (\<lambda>k. k \<noteq> i) xs)"

lemma ahead_append: "i \<in> set xs \<Longrightarrow> ahead i (xs @ ys) = ahead i xs"
  by (auto simp: ahead_def takeWhile_append1)

lemma ahead_remove1: "j \<noteq> i \<Longrightarrow> ahead i (remove1 j xs) \<le> ahead i xs"
  by (induction xs) (auto simp: ahead_def)

lemma own_run_unique:
  assumes "qinv m" "(q, i, p) \<in> set (m_runs m)" "(q, i', p') \<in> set (m_runs m)"
  shows "i' = i \<and> p' = p"
  using assms eq_key_imp_eq_value [of "m_runs m" q "(i, p)" "(i', p')"] by (auto simp: qinv_def one_run_def)

lemma waiting_attended:
  assumes "qinv m" "i \<in> set (pending_of m q)"
  obtains k p where "(q, k, p) \<in> set (m_runs m)"
proof -
  have "pending_of m q \<noteq> []" using assms(2) by auto
  then show ?thesis using assms(1) that by (simp add: qinv_def attended_def one_run_def) metis
qed

lemma frame_queue:
  "queue_part m' = queue_part m \<Longrightarrow> m_runs m' = m_runs m \<and> pending_of m' q = pending_of m q \<and> m_started m' = m_started m
     \<and> m_dropped m' = m_dropped m \<and> m_closed m' = m_closed m"
  by (simp add: queue_part_def pending_of_def)

lemma frame_row:
  "pending_of (upd_job i f m) q = pending_of m q" "pending_of (set_phase q' i p m) q = pending_of m q"
  by (simp_all add: pending_of_def job_simps)

text \<open>What a step that is not one of the queue's own goroutine can do to the queue.\<close>

definition queue_kept :: "string \<Rightarrow> jm \<Rightarrow> jm \<Rightarrow> bool" where
  "queue_kept q m m' \<longleftrightarrow> (\<forall>x \<in> set (m_runs m). fst x = q \<longrightarrow> x \<in> set (m_runs m'))
     \<and> (\<exists>ys. pending_of m' q = pending_of m q @ ys \<or> (\<exists>j. pending_of m' q = remove1 j (pending_of m q) \<and> j \<in> set (m_dropped m')))"

lemma queue_keptI:
  "(\<And>i p. (q, i, p) \<in> set (m_runs m) \<Longrightarrow> (q, i, p) \<in> set (m_runs m')) \<Longrightarrow> pending_of m' q = pending_of m q \<Longrightarrow> queue_kept q m m'"
  unfolding queue_kept_def by (auto intro!: exI [of _ "[]"])

lemma kept_same: "queue_part m' = queue_part m \<Longrightarrow> queue_kept q m m'"
  using frame_queue [of m' m q] by (intro queue_keptI) simp_all

lemma kept_row: "queue_kept q m (upd_job i f m)"
  by (rule queue_keptI) (simp_all add: job_simps frame_row)

lemma kept_trans_same:
  assumes "queue_kept q m m1" "queue_part m2 = queue_part m1"
  shows "queue_kept q m m2"
proof -
  have "m_runs m2 = m_runs m1" "pending_of m2 q = pending_of m1 q" "m_dropped m2 = m_dropped m1"
    using frame_queue [OF assms(2)] by simp_all
  then show ?thesis using assms(1) unfolding queue_kept_def by metis
qed

lemma runs_rows [job_simps]: "m_runs (FinishJob i st tx m) = m_runs m" "m_runs (MarkJobRunning i m) = m_runs m"
  "m_runs (SetJobErrorKey i k a m) = m_runs m" "pending_of (FinishJob i st tx m) = pending_of m"
  "pending_of (MarkJobRunning i m) = pending_of m" "pending_of (SetJobErrorKey i k a m) = pending_of m"
  by (simp_all add: FinishJob_def MarkJobRunning_def SetJobErrorKey_def job_simps frame_row fun_eq_iff)

lemma runs_events [job_simps]: "m_runs (notifyJob i m) = m_runs m" "m_runs (closeWatchers i m) = m_runs m" "m_runs (appendLog i k m) = m_runs m"
  "pending_of (notifyJob i m) = pending_of m" "pending_of (closeWatchers i m) = pending_of m" "pending_of (appendLog i k m) = pending_of m"
  using frame_queue [of "notifyJob i m" m] frame_queue [of "closeWatchers i m" m] frame_queue [of "appendLog i k m" m]
  by (simp_all add: job_simps fun_eq_iff)

text \<open>The goroutine changes its own phase and nothing else of the queues, until it hands over.\<close>

lemma goroutine_form:
  assumes "p \<noteq> Leaving"
  shows "\<exists>p1 m1. goroutine p q i failed msg key args m = set_phase q i p1 m1 \<and> phase_rank p1 < phase_rank p
     \<and> m_runs m1 = m_runs m \<and> pending_of m1 = pending_of m"
proof -
  have form: "\<exists>p1 m1. set_phase q i x m2 = set_phase q i p1 m1 \<and> phase_rank p1 < r \<and> m_runs m1 = m_runs m \<and> pending_of m1 = pending_of m"
    if "phase_rank x < r" "m_runs m2 = m_runs m" "pending_of m2 = pending_of m" for x m2 r
    using that by blast
  have u: "pending_of (m\<lparr>m_ucanceled := x\<rparr>) = pending_of m" for x by (simp add: pending_of_def fun_eq_iff)
  show ?thesis
    using assms
    by (cases p rule: phase_rank.cases; simp add: run_parts run_collect_def run_report_def Let_def split_beta split: option.split)
      (auto intro!: form simp: job_simps u)
qed

lemma goroutine_phase:
  assumes "p \<noteq> Leaving" "(q, i, p) \<in> set (m_runs m)"
  shows "\<exists>p'. phase_rank p' < phase_rank p \<and> (q, i, p') \<in> set (m_runs (goroutine p q i failed msg key args m))
     \<and> (\<forall>q' k r. q' \<noteq> q \<longrightarrow> (q', k, r) \<in> set (m_runs m) \<longrightarrow> (q', k, r) \<in> set (m_runs (goroutine p q i failed msg key args m)))
     \<and> pending_of (goroutine p q i failed msg key args m) = pending_of m"
proof -
  obtain p1 m1 where f: "goroutine p q i failed msg key args m = set_phase q i p1 m1" "phase_rank p1 < phase_rank p"
    "m_runs m1 = m_runs m" "pending_of m1 = pending_of m"
    using goroutine_form [OF assms(1)] by blast
  show ?thesis
    unfolding f(1) by (rule exI [of _ p1]) (use f(2-4) assms(2) in \<open>auto simp: set_phase_runs frame_row fun_eq_iff\<close>)
qed

lemma run_next_other:
  assumes "(q', k, r) \<in> set (m_runs m)" "q' \<noteq> q"
  shows "(q', k, r) \<in> set (m_runs (run_next q i m)) \<and> pending_of (run_next q i m) q' = pending_of m q'"
  using assms by (auto simp: run_next_def spawn_def pending_of_def Let_def)

text \<open>Handing over: the first of the waiting jobs is started.\<close>

lemma run_next_served:
  assumes "i \<in> set (pending_of m q)" "\<not> m_closed (run_next q k m)"
  shows "(q, hd (pending_of m q), Begun) \<in> set (m_runs (run_next q k m))"
    and "pending_of (run_next q k m) q = tl (pending_of m q)"
    and "(q, hd (pending_of m q)) \<in> set (m_started (run_next q k m))"
proof -
  let ?m1 = "m\<lparr>m_running := del q (m_running m), m_runs := filter (\<lambda>(q', i', p'). \<not> (q' = q \<and> i' = k)) (m_runs m)\<rparr>"
  have "m_closed (run_next q k m) = m_closed m" by (simp add: run_next_def spawn_def Let_def)
  then have "\<not> m_closed m" using assms(2) by simp
  moreover have "pending_of ?m1 q = pending_of m q" by (simp add: pending_of_def)
  moreover have "pending_of m q \<noteq> []" using assms(1) by auto
  ultimately have "run_next q k m = spawn q (hd (pending_of m q)) (?m1\<lparr>m_pending := put q (tl (pending_of m q)) (m_pending ?m1)\<rparr>)"
    by (simp add: run_next_def Let_def)
  then show "(q, hd (pending_of m q), Begun) \<in> set (m_runs (run_next q k m))"
    and "pending_of (run_next q k m) q = tl (pending_of m q)"
    and "(q, hd (pending_of m q)) \<in> set (m_started (run_next q k m))"
    by (simp_all add: spawn_def pending_of_def)
qed

text \<open>Steps of other goroutines, requests and events.\<close>

lemma own_or_kept:
  assumes "(q', i, p) \<in> set (m_runs m)"
  shows "own_step q m (goroutine p q' i failed msg key args m) \<or> queue_kept q m (goroutine p q' i failed msg key args m)"
proof (cases "q' = q")
  case True
  then have "own_step q m (goroutine p q' i failed msg key args m)" using assms unfolding own_step_def by blast
  then show ?thesis ..
next
  case False
  have "queue_kept q m (goroutine p q' i failed msg key args m)"
  proof (cases "p = Leaving")
    case True
    have pend: "pending_of (run_next q' i m) q = pending_of m q"
      using False by (auto simp: run_next_def spawn_def pending_of_def Let_def)
    show ?thesis unfolding True by (rule queue_keptI) (use run_next_other False pend in auto)
  next
    case leaving: False
    from goroutine_phase [OF this assms, of failed msg key args] show ?thesis using False by (intro queue_keptI) auto
  qed
  then show ?thesis ..
qed

lemma kept_enqueue:
  assumes "qinv m" "i \<in> set (pending_of m q)"
  shows "queue_kept q m (enqueue k q' (m\<lparr>m_queueing := x\<rparr>))"
proof -
  obtain r p where "(q, r, p) \<in> set (m_runs m)" using waiting_attended [OF assms] by blast
  then have busy: "lookup (m_running m) q \<noteq> None" using assms(1) by (auto simp: qinv_def one_run_def)
  have "pending_of (enqueue k q' (m\<lparr>m_queueing := x\<rparr>)) q = pending_of m q @ (if q' = q \<and> \<not> m_closed m then [k] else [])"
    using busy by (auto simp: enqueue_def Let_def pending_of_def spawn_def)
  moreover have "set (m_runs m) \<subseteq> set (m_runs (enqueue k q' (m\<lparr>m_queueing := x\<rparr>)))"
    by (auto simp: enqueue_def Let_def spawn_def)
  ultimately show ?thesis unfolding queue_kept_def by blast
qed

lemma kept_cancel_act: "queue_kept q m (snd (cancel_act i q' m))"
proof (cases "i \<in> set (pending_of m q')")
  case True
  have "pending_of (snd (cancel_act i q' m)) q = (if q' = q then remove1 i (pending_of m q) else pending_of m q)"
    using True by (simp add: cancel_act_def pending_of_def)
  moreover have "i \<in> set (m_dropped (snd (cancel_act i q' m)))" "m_runs (snd (cancel_act i q' m)) = m_runs m"
    using True by (simp_all add: cancel_act_def)
  ultimately show ?thesis unfolding queue_kept_def by (cases "q' = q") (auto intro!: exI [of _ "[]"])
next
  case False
  then show ?thesis
    by (intro queue_keptI) (simp_all add: cancel_act_def pending_of_def split: option.splits)
qed

lemma kept_create: "queue_kept q m (snd (CreateJob j m))"
  by (rule queue_keptI) (simp_all add: CreateJob_def pending_of_def)

lemma step_own_or_kept:
  "job_step m m' \<Longrightarrow> qinv m \<Longrightarrow> i \<in> set (pending_of m q) \<Longrightarrow> own_step q m m' \<or> queue_kept q m m'"
proof (induction rule: job_step.induct)
  case (Start m tr lang s)
  show ?case using kept_create kept_same [of m m] by (auto simp: Start_def split_beta)
next
  case (Retry m lang k)
  have "queue_kept q m (appendLog n key (snd (CreateJob j m)))" for n key j
    by (rule kept_trans_same [OF kept_create]) (simp add: job_simps)
  then show ?case using kept_same [of m m] by (auto simp: Retry_def split_beta split: option.splits)
next
  case (Enqueue k q' m)
  then show ?case using kept_enqueue by blast
next
  case (Begin q' k m) then show ?case using own_or_kept [OF Begin(1)] by simp
next
  case (Fail q' k m) then show ?case using own_or_kept [OF Fail(1)] by simp
next
  case (Mark q' k m) then show ?case using own_or_kept [OF Mark(1)] by simp
next
  case (Exec q' k m) then show ?case using own_or_kept [OF Exec(1)] by simp
next
  case (Collect q' k m failed) then show ?case using own_or_kept [OF Collect(1), of q failed] by simp
next
  case (Report q' k b s f m msg) then show ?case using own_or_kept [OF Report(1), of q _ msg] by simp
next
  case (Explain q' k st tx m key args) then show ?case using own_or_kept [OF Explain(1), of q _ _ key args] by simp
next
  case (Record q' k st tx m) then show ?case using own_or_kept [OF Record(1)] by simp
next
  case (Tell q' k c m) then show ?case using own_or_kept [OF Tell(1)] by simp
next
  case (CloseRun q' k m) then show ?case using own_or_kept [OF CloseRun(1)] by simp
next
  case (Next q' k m) then show ?case using own_or_kept [OF Next(1)] by simp
next
  case (CancelAct m k j)
  show ?case using kept_cancel_act by blast
next
  case (CancelRecord k m)
  have "queue_kept q m (cancel_record k m)"
    unfolding cancel_record_def FinishJob_def by (rule kept_trans_same [OF kept_row]) (simp add: job_simps)
  then show ?case ..
next
  case (SetStep m k n steps name key args)
  have "queue_kept q m (setStepKey k n steps name key args m)"
    unfolding setStepKey_def SetJobStepKey_def by (rule kept_trans_same [OF kept_row]) (simp add: job_simps)
  then show ?case ..
next
  case (SetResume m k resume)
  then show ?case unfolding SetJobResume_def using kept_row by blast
next
  case (Close m)
  have "queue_kept q m (Close m)" by (rule queue_keptI) (simp_all add: job_simps pending_of_def)
  then show ?case ..
qed (rule disjI2, rule kept_same, simp add: job_simps cancel_tell_def)+

text \<open>The history of the queues only grows, and a closed manager stays closed.\<close>

definition history :: "jm \<Rightarrow> (string \<times> int) list \<times> int list \<times> bool" where
  "history m = (m_started m, m_dropped m, m_closed m)"

definition grows :: "jm \<Rightarrow> jm \<Rightarrow> bool" where
  "grows m m' \<longleftrightarrow> set (m_started m) \<subseteq> set (m_started m') \<and> set (m_dropped m) \<subseteq> set (m_dropped m') \<and> (m_closed m \<longrightarrow> m_closed m')"

lemma grows_same: "history m' = history m \<Longrightarrow> grows m m'"
  by (simp add: history_def grows_def)

lemma history_frame: "queue_part m' = queue_part m \<Longrightarrow> history m' = history m"
  by (simp add: queue_part_def history_def)

lemma history_fields [job_simps]:
  "history (m\<lparr>m_ucanceled := u\<rparr>) = history m" "history (m\<lparr>m_cancels := c\<rparr>) = history m" "history (m\<lparr>m_queueing := n\<rparr>) = history m"
  "history (set_phase q i p m) = history m" "history (upd_job i f m) = history m"
  by (simp_all add: history_def set_phase_def upd_job_def split: option.split)

lemma history_rows [job_simps]:
  "history (FinishJob i st tx m) = history m" "history (MarkJobRunning i m) = history m" "history (SetJobErrorKey i k a m) = history m"
  "history (SetJobStepKey i n tot na k a m) = history m" "history (SetJobResume i r m) = history m" "history (snd (CreateJob j m)) = history m"
  by (simp_all add: FinishJob_def MarkJobRunning_def SetJobErrorKey_def SetJobStepKey_def SetJobResume_def CreateJob_def job_simps)
    (simp add: history_def)

lemma history_events [job_simps]:
  "history (notifyJob i m) = history m" "history (closeWatchers i m) = history m" "history (appendLog i k m) = history m"
  "history (setStepKey i n tot na k a m) = history m"
proof -
  show ev: "history (notifyJob i m) = history m" for m by (rule history_frame) (simp add: job_simps)
  show "history (closeWatchers i m) = history m" "history (appendLog i k m) = history m" by (rule history_frame, simp add: job_simps)+
  show "history (setStepKey i n tot na k a m) = history m" by (simp add: setStepKey_def ev history_rows)
qed

lemma grows_goroutine: "grows m (goroutine p q i failed msg key args m)"
proof (cases "p = Leaving")
  case True
  then show ?thesis by (auto simp: grows_def run_next_def spawn_def Let_def)
next
  case False
  then have "history (goroutine p q i failed msg key args m) = history m"
    by (cases p rule: phase_rank.cases) (simp_all add: run_parts run_collect_def run_report_def Let_def split_beta job_simps split: option.split)
  then show ?thesis by (rule grows_same)
qed

lemma grows_step: "job_step m m' \<Longrightarrow> grows m m'"
proof (induction rule: job_step.induct)
  case (Start m tr lang s)
  show ?case by (rule grows_same) (simp add: Start_def split_beta job_simps)
next
  case (Retry m lang i)
  show ?case by (rule grows_same) (simp add: Retry_def split_beta job_simps split: option.split)
next
  case (Enqueue i q m)
  show ?case by (auto simp: grows_def enqueue_def spawn_def Let_def)
next
  case (Begin q i m) show ?case using grows_goroutine [of m Begun q i] by simp
next
  case (Fail q i m) show ?case using grows_goroutine [of m Failing q i] by simp
next
  case (Mark q i m) show ?case using grows_goroutine [of m Marking q i] by simp
next
  case (Exec q i m) show ?case using grows_goroutine [of m Marked q i] by simp
next
  case (Collect q i m failed) show ?case using grows_goroutine [of m Exec q i failed] by simp
next
  case (Report q i b s f m msg) show ?case using grows_goroutine [of m "Collected b s f" q i _ msg] by simp
next
  case (Explain q i st tx m key args) show ?case using grows_goroutine [of m "Deciding st tx True" q i _ _ key args] by simp
next
  case (Record q i st tx m) show ?case using grows_goroutine [of m "Deciding st tx False" q i] by simp
next
  case (Tell q i c m) show ?case using grows_goroutine [of m "Recorded c" q i] by simp
next
  case (CloseRun q i m) show ?case using grows_goroutine [of m Closing q i] by simp
next
  case (Next q i m) show ?case using grows_goroutine [of m Leaving q i] by simp
next
  case (CancelAct m i j)
  show ?case by (auto simp: grows_def cancel_act_def split: option.splits)
next
  case (CancelRecord i m)
  show ?case by (rule grows_same) (simp add: cancel_record_def set_cancel_def job_simps)
next
  case (CancelTell i m)
  show ?case by (rule grows_same) (simp add: cancel_tell_def set_cancel_def job_simps)
next
  case (Close m)
  show ?case by (auto simp: grows_def Close_def)
next
  case (SetStep m i n steps name key args)
  show ?case by (rule grows_same) (simp add: job_simps)
next
  case (SetResume m i resume)
  show ?case by (rule grows_same) (simp add: job_simps)
qed (rule grows_same, rule history_frame, simp add: job_simps)+

subsection \<open>The distance\<close>

definition wait_for :: "jm \<Rightarrow> string \<Rightarrow> int \<Rightarrow> phase \<Rightarrow> nat" where
  "wait_for m q i p = 10 * ahead i (pending_of m q) + phase_rank p"

text \<open>The job was cancelled while it waited, or it is started, or it still waits and is at most that far.\<close>

definition served :: "jm \<Rightarrow> string \<Rightarrow> int \<Rightarrow> nat \<Rightarrow> bool" where
  "served m q i n \<longleftrightarrow> i \<in> set (m_dropped m) \<or> (q, i) \<in> set (m_started m)
     \<or> (i \<in> set (pending_of m q) \<and> (\<exists>k p. (q, k, p) \<in> set (m_runs m) \<and> wait_for m q i p \<le> n))"

lemma served_own:
  assumes "qinv m" "own_step q m m'" "\<not> m_closed m'" "i \<in> set (pending_of m q)" "(q, k, p) \<in> set (m_runs m)"
  shows "served m' q i (wait_for m q i p - 1)"
proof -
  obtain k' p' failed msg key args where o: "(q, k', p') \<in> set (m_runs m)" "m' = goroutine p' q k' failed msg key args m"
    using assms(2) by (auto simp: own_step_def)
  then have same: "k' = k" "p' = p" using own_run_unique [OF assms(1,5) o(1)] by simp_all
  show ?thesis
  proof (cases "p = Leaving")
    case True
    then have m': "m' = run_next q k m" using o(2) same by simp
    note next_facts = run_next_served [OF assms(4) assms(3) [unfolded m']]
    show ?thesis
    proof (cases "i = hd (pending_of m q)")
      case True
      then show ?thesis using next_facts(3) by (simp add: served_def m')
    next
      case False
      obtain x xs where l: "pending_of m q = x # xs" using assms(4) by (cases "pending_of m q") auto
      have "i \<in> set (pending_of m' q)" using assms(4) False by (simp add: m' next_facts(2) l)
      moreover have "wait_for m' q i Begun \<le> wait_for m q i p - 1"
        using False \<open>p = Leaving\<close> by (simp add: wait_for_def m' next_facts(2) l ahead_def)
      ultimately show ?thesis using next_facts(1) unfolding served_def m' by blast
    qed
  next
    case False
    obtain p1 where p1: "phase_rank p1 < phase_rank p" "(q, k, p1) \<in> set (m_runs m')" "pending_of m' = pending_of m"
      using goroutine_phase [OF False assms(5), of failed msg key args] unfolding o(2) same by blast
    have "wait_for m' q i p1 \<le> wait_for m q i p - 1" using p1(1,3) by (simp add: wait_for_def)
    then show ?thesis using p1(2,3) assms(4) unfolding served_def by auto
  qed
qed

lemma served_kept:
  assumes "queue_kept q m m'" "i \<in> set (pending_of m q)" "(q, k, p) \<in> set (m_runs m)"
  shows "served m' q i (wait_for m q i p)"
proof -
  have run: "(q, k, p) \<in> set (m_runs m')" using assms(1,3) by (auto simp: queue_kept_def)
  from assms(1) consider (app) ys where "pending_of m' q = pending_of m q @ ys"
    | (rem) j where "pending_of m' q = remove1 j (pending_of m q)" "j \<in> set (m_dropped m')"
    by (auto simp: queue_kept_def)
  then show ?thesis
  proof cases
    case app
    then show ?thesis using run assms(2) ahead_append [OF assms(2), of ys] unfolding served_def wait_for_def by fastforce
  next
    case rem
    show ?thesis
    proof (cases "j = i")
      case False
      then have "wait_for m' q i p \<le> wait_for m q i p" using ahead_remove1 [OF False] by (simp add: wait_for_def rem(1))
      moreover have "i \<in> set (pending_of m' q)" using assms(2) False by (simp add: rem(1) in_set_remove1)
      ultimately show ?thesis using run unfolding served_def by blast
    qed (use rem(2) in \<open>simp add: served_def\<close>)
  qed
qed

lemma served_mono: "served m q i n \<Longrightarrow> n \<le> n' \<Longrightarrow> served m q i n'"
  unfolding served_def using order_trans by blast

lemma served_step:
  assumes "jobs_inv m" "job_step m m'" "\<not> m_closed m'" "served m q i n"
  shows "served m' q i n" and "own_step q m m' \<Longrightarrow> served m' q i (n - 1)"
proof -
  have inv: "qinv m" using assms(1) by (simp add: jobs_inv_def)
  note g = grows_step [OF assms(2), unfolded grows_def]
  have over: "served m' q i l" if "i \<in> set (m_dropped m) \<or> (q, i) \<in> set (m_started m)" for l
    using g that by (auto simp: served_def)
  show "served m' q i n"
  proof (cases "i \<in> set (m_dropped m) \<or> (q, i) \<in> set (m_started m)")
    case False
    then obtain k p where w: "i \<in> set (pending_of m q)" "(q, k, p) \<in> set (m_runs m)" "wait_for m q i p \<le> n"
      using assms(4) by (auto simp: served_def)
    from step_own_or_kept [OF assms(2) inv w(1)] show ?thesis
    proof
      assume "own_step q m m'"
      from served_own [OF inv this assms(3) w(1,2)] show ?thesis by (rule served_mono) (use w(3) in simp)
    next
      assume "queue_kept q m m'"
      from served_kept [OF this w(1,2)] show ?thesis by (rule served_mono) (rule w(3))
    qed
  qed (rule over)
  show "served m' q i (n - 1)" if own: "own_step q m m'"
  proof (cases "i \<in> set (m_dropped m) \<or> (q, i) \<in> set (m_started m)")
    case False
    then obtain k p where w: "i \<in> set (pending_of m q)" "(q, k, p) \<in> set (m_runs m)" "wait_for m q i p \<le> n"
      using assms(4) by (auto simp: served_def)
    from served_own [OF inv own assms(3) w(1,2)] show ?thesis by (rule served_mono) (use w(3) in simp)
  qed (rule over)
qed

text \<open>A run in which the goroutines of a queue make at least that many steps, whatever else happens in between.\<close>

inductive turns :: "string \<Rightarrow> nat \<Rightarrow> jm \<Rightarrow> jm \<Rightarrow> bool" for q :: string where
  Stay: "turns q 0 m m"
| Own: "turns q n m m1 \<Longrightarrow> own_step q m1 m2 \<Longrightarrow> turns q (Suc n) m m2"
| Other: "turns q n m m1 \<Longrightarrow> job_step m1 m2 \<Longrightarrow> turns q n m m2"

lemma turns_steps: "turns q n m m' \<Longrightarrow> job_step\<^sup>*\<^sup>* m m'"
  by (induction rule: turns.induct) (auto dest: own_job_step)

lemma served_turns:
  assumes "turns q n m m'" "jobs_inv m" "served m q i l" "\<not> m_closed m'"
  shows "served m' q i (l - n)"
  using assms
proof (induction rule: turns.induct)
  case (Own n m m1 m2)
  have step: "job_step m1 m2" using Own(2) by (rule own_job_step)
  have "\<not> m_closed m1" using grows_step [OF step] Own.prems(3) by (simp add: grows_def)
  then have "served m1 q i (l - n)" using Own.IH Own.prems by blast
  moreover have "jobs_inv m1" using queues.inv_steps [OF turns_steps [OF Own(1)] Own.prems(1)] .
  ultimately have "served m2 q i (l - n - 1)" using served_step(2) step Own.prems(3) Own(2) by blast
  then show ?case by simp
next
  case (Other n m m1 m2)
  have "\<not> m_closed m1" using grows_step [OF Other(2)] Other.prems(3) by (simp add: grows_def)
  then have "served m1 q i (l - n)" using Other.IH Other.prems by blast
  moreover have "jobs_inv m1" using queues.inv_steps [OF turns_steps [OF Other(1)] Other.prems(1)] .
  ultimately show ?case using served_step(1) Other(2) Other.prems(3) by blast
qed simp

section \<open>Properties\<close>

text \<open>C20. At every moment of every run of the manager, a queue has at most one goroutine at work.\<close>

theorem one_job_per_queue:
  assumes "jm_start m0" "job_step\<^sup>*\<^sup>* m0 m"
  shows "length (filter (\<lambda>(q', i, p). q' = q) (m_runs m)) \<le> 1"
proof -
  have "distinct (map fst (m_runs m))" using reached_qinv [OF assms] by (simp add: qinv_def one_run_def)
  then have "distinct (map fst (filter (\<lambda>(q', i, p). q' = q) (m_runs m)))" by (rule distinct_filter_fst)
  moreover have "set (map fst (filter (\<lambda>(q', i, p). q' = q) (m_runs m))) \<subseteq> {q}" by auto
  ultimately show ?thesis by (metis card_mono card.empty card_insert_disjoint distinct_card empty_iff finite.emptyI finite_insert length_map One_nat_def)
qed

text \<open>C21. A waiting job gets its turn: its queue has a goroutine that can go on, and in every run,
  whatever other goroutines, requests and subscribers do in between, at most ten steps of the
  goroutines of the queue for every job ahead and ten more start the job, unless it is cancelled
  while it waits or the manager is closed. (A step is a return of the runner, a write or a lock
  section, so the runners have to return.)\<close>

theorem no_job_forgotten:
  assumes "jm_start m0" "job_step\<^sup>*\<^sup>* m0 m" "i \<in> set (pending_of m q)"
  shows "(\<exists>m'. own_step q m m')
    \<and> (\<forall>n m'. turns q n m m' \<and> \<not> m_closed m' \<and> 10 * Suc (ahead i (pending_of m q)) \<le> n
         \<longrightarrow> i \<in> set (m_dropped m') \<or> (q, i) \<in> set (m_started m'))"
proof -
  have inv: "jobs_inv m" by (rule queues.inv_reachable [OF assms(1,2)])
  then have "qinv m" by (simp add: jobs_inv_def)
  then obtain k p where run: "(q, k, p) \<in> set (m_runs m)" using assms(3) by (rule waiting_attended)
  have "served m q i (wait_for m q i p)" using assms(3) run by (auto simp: served_def)
  moreover have "wait_for m q i p \<le> 10 * Suc (ahead i (pending_of m q))" using phase_rank_bounds(2) [of p] by (simp add: wait_for_def)
  ultimately have s: "served m q i (10 * Suc (ahead i (pending_of m q)))" by (rule served_mono)
  have "i \<in> set (m_dropped m') \<or> (q, i) \<in> set (m_started m')"
    if "turns q n m m'" "\<not> m_closed m'" "10 * Suc (ahead i (pending_of m q)) \<le> n" for n m'
  proof -
    have "served m' q i 0" using served_turns [OF that(1) inv s that(2)] that(3) by simp
    moreover have "wait_for m' q i p' \<noteq> 0" for p' using phase_rank_bounds(1) [of p'] by (simp add: wait_for_def)
    ultimately show ?thesis by (auto simp: served_def)
  qed
  then show ?thesis using run unfolding own_step_def by blast
qed

text \<open>C22. Until the manager closes, the jobs of a queue that were not cancelled while waiting are started
  in the order they were queued, and the rest waits in that order.\<close>

theorem queue_is_fifo:
  assumes "jm_start m0" "job_step\<^sup>*\<^sup>* m0 m" "\<not> m_closed m"
  shows "filter (\<lambda>i. i \<notin> set (m_dropped m)) (proj q (m_enq m)) = proj q (m_started m) @ pending_of m q"
  using in_orderD(1) [OF qinvD(5) [OF reached_qinv [OF assms(1,2)]], of q] assms(3) by auto

text \<open>C23. A recorded outcome is final: once a job is succeeded, failed, cancelled or interrupted, no later
  step changes its status or its message, whatever cancels and restarts race with it.\<close>

theorem outcome_is_final:
  assumes "jm_start m0" "job_step\<^sup>*\<^sup>* m0 m" "job_step\<^sup>*\<^sup>* m m'" "outcome m i = Some x"
  shows "outcome m' i = Some x"
  using outcome_steps [OF assms(3) queues.inv_reachable [OF assms(1,2)] assms(4)] .

text \<open>C24. No interleaving of events, unsubscribing and the end of a job sends on a closed channel or closes
  one twice: the process does not panic.\<close>

theorem channels_never_panic:
  assumes "jm_start m0" "job_step\<^sup>*\<^sup>* m0 m"
  shows "\<not> m_panic m"
  using channels.inv_reachable [OF assms] by (simp add: cinv_def)

text \<open>C25. Recovery after a restart: a finished job is left alone, an unfinished one is queued again with
  its row unchanged when its runner can resume and it was resumed fewer than three times, and is
  marked interrupted otherwise.\<close>

theorem recovery_outcome:
  fixes kv :: "int strmap"
  assumes "wf_map db" "\<forall>(i, j) \<in> set db. i < nid" "lookup db i = Some j"
  shows "let m = boot db nid kv kinds;
             can = IsResumable (jb_kind j) (fold (\<lambda>(k, r). Register k r) kinds (jm_new db nid kv));
             n = (case lookup kv (resume_key i) of Some n \<Rightarrow> n | None \<Rightarrow> 0) in
    if Done j then lookup (m_db m) i = Some j \<and> i \<notin> snd ` set (m_enq m)
    else if can \<and> n < maxResumes then lookup (m_db m) i = Some j \<and> i \<in> snd ` set (m_enq m)
    else outcome m i = Some (JobInterrupted, if can then ''jobs.resumeLoop'' else ''jobs.interruptedByRestartShort'')
         \<and> i \<notin> snd ` set (m_enq m)"
proof -
  define m where "m = fold (\<lambda>(k, r). Register k r) kinds (jm_new db nid kv)"
  have rec: "recovering (UnfinishedJobs m) m" and u: "(i, k) \<in> set (UnfinishedJobs m) \<longleftrightarrow> lookup db i = Some k \<and> \<not> Done k" for i k
    using recovering_boot [OF assms(1,2)] by (auto simp: m_def)
  have b: "boot db nid kv kinds = fold recover_one (UnfinishedJobs m) m" by (simp add: boot_def Recover_def m_def)
  have "queue_part m = queue_part (jm_new db nid kv)" "m_kv m = kv" by (simp_all add: m_def registered) (simp add: jm_new_def)
  then have db: "m_db m = db" "m_enq m = []" "m_kv m = kv" by (simp_all add: queue_part_def jm_new_def)
  have r: "resumed m i j \<longleftrightarrow> IsResumable (jb_kind j) m \<and> (case lookup kv (resume_key i) of Some n \<Rightarrow> n | None \<Rightarrow> 0) < maxResumes"
    by (simp add: resumed_def resumes_of_def db)
  show ?thesis
  proof (cases "Done j")
    case True
    then have "i \<notin> fst ` set (UnfinishedJobs m)" using u assms(3) by auto
    then show ?thesis using recover_others [OF rec, of i] True assms(3) by (simp add: b db Let_def)
  next
    case False
    then have "(i, j) \<in> set (UnfinishedJobs m)" using u assms(3) by blast
    note e = recover_each [OF rec this]
    show ?thesis using e r False unfolding b m_def [symmetric] Let_def by (simp add: outcome_def Done_def)
  qed
qed

end
