(* ===== verification/JobExamples.thy ===== *)
theory JobExamples
  imports JobTheorems
begin

text \<open>
  A run of the job manager on concrete jobs: the witnesses of its properties, and the race by
  which cancelling one job stops the next job of the queue.
\<close>

definition ex_spec :: spec where
  "ex_spec = \<lparr>sp_kind = ''install'', sp_title = ''t'', sp_queue = ''host1'', sp_author = ''root'', sp_lang = ''en'',
     sp_params = [], sp_steps = 2, sp_title_key = [], sp_title_args = []\<rparr>"

definition ex_old :: job where
  "ex_old = spec_job (\<lambda>_ k _. k) ''en'' ex_spec"

definition ej0 :: jm where "ej0 = boot [(1, ex_old)] 2 [] [(''install'', False)]"
definition ej1 :: jm where "ej1 = snd (Start (\<lambda>_ k _. k) ''en'' ex_spec ej0)"
definition ej2 :: jm where "ej2 = enqueue 2 ''host1'' (ej1\<lparr>m_queueing := remove1 (2, ''host1'') (m_queueing ej1)\<rparr>)"
definition ej3 :: jm where "ej3 = snd (Start (\<lambda>_ k _. k) ''en'' ex_spec ej2)"
definition ej4 :: jm where "ej4 = enqueue 3 ''host1'' (ej3\<lparr>m_queueing := remove1 (3, ''host1'') (m_queueing ej3)\<rparr>)"
definition ej5 :: jm where "ej5 = run_begin ''host1'' 2 ej4"
definition ej6 :: jm where "ej6 = run_mark ''host1'' 2 ej5"
definition ej7 :: jm where "ej7 = run_exec ''host1'' 2 ej6"
definition ej8 :: jm where "ej8 = run_collect ''host1'' 2 False ej7"
definition ej9 :: jm where "ej9 = run_report ''host1'' 2 False False False [] ej8"
definition ej10 :: jm where "ej10 = run_record ''host1'' 2 JobSucceeded [] ej9"
definition ej11 :: jm where "ej11 = run_tell ''host1'' 2 True ej10"
definition ej12 :: jm where "ej12 = run_close ''host1'' 2 ej11"
definition ej13 :: jm where "ej13 = run_next ''host1'' 2 ej12"
definition ej14 :: jm where "ej14 = run_begin ''host1'' 3 ej13"
definition ej15 :: jm where "ej15 = run_mark ''host1'' 3 ej14"
definition ej16 :: jm where "ej16 = run_exec ''host1'' 3 ej15"

lemma ej_start: "jm_start ej0"
proof -
  have "wf_map [(1, ex_old)]" "\<forall>(i, j) \<in> set [(1 :: int, ex_old)]. i < 2" by (simp_all add: wf_map_def)
  then show ?thesis unfolding jm_start_def ej0_def by blast
qed

lemma ej_members:
  "(2, ''host1'') \<in> set (m_queueing ej1)" "(3, ''host1'') \<in> set (m_queueing ej3)"
  by code_simp+

lemma ej_phases:
  "(''host1'', 2, Begun) \<in> set (m_runs ej4)" "(''host1'', 2, Marking) \<in> set (m_runs ej5)"
  "(''host1'', 2, Marked) \<in> set (m_runs ej6)" "(''host1'', 2, Exec) \<in> set (m_runs ej7)"
  "(''host1'', 2, Collected False False False) \<in> set (m_runs ej8)"
  "(''host1'', 2, Deciding JobSucceeded [] False) \<in> set (m_runs ej9)"
  "(''host1'', 2, Recorded True) \<in> set (m_runs ej10)" "(''host1'', 2, Closing) \<in> set (m_runs ej11)"
  "(''host1'', 2, Leaving) \<in> set (m_runs ej12)" "(''host1'', 3, Begun) \<in> set (m_runs ej13)"
  "(''host1'', 3, Marking) \<in> set (m_runs ej14)" "(''host1'', 3, Marked) \<in> set (m_runs ej15)"
  by code_simp+

lemma ej_steps4: "job_step\<^sup>*\<^sup>* ej0 ej4"
proof -
  have "job_step ej0 ej1" unfolding ej1_def by (rule job_step.Start)
  moreover have "job_step ej1 ej2" unfolding ej2_def by (rule job_step.Enqueue [OF ej_members(1)])
  moreover have "job_step ej2 ej3" unfolding ej3_def by (rule job_step.Start)
  moreover have "job_step ej3 ej4" unfolding ej4_def by (rule job_step.Enqueue [OF ej_members(2)])
  ultimately show ?thesis by (meson converse_rtranclp_into_rtranclp rtranclp.rtrancl_refl)
qed

lemma ej_own:
  "own_step ''host1'' ej4 ej5" "own_step ''host1'' ej5 ej6" "own_step ''host1'' ej6 ej7" "own_step ''host1'' ej7 ej8"
  "own_step ''host1'' ej8 ej9" "own_step ''host1'' ej9 ej10" "own_step ''host1'' ej10 ej11" "own_step ''host1'' ej11 ej12"
  "own_step ''host1'' ej12 ej13" "own_step ''host1'' ej13 ej14" "own_step ''host1'' ej14 ej15" "own_step ''host1'' ej15 ej16"
  unfolding own_step_def
  using ej_phases goroutine.simps [where msg = "[]" and failed = False]
  by (metis ej5_def, metis ej6_def, metis ej7_def, metis ej8_def, metis ej9_def, metis ej10_def, metis ej11_def, metis ej12_def,
      metis ej13_def, metis ej14_def, metis ej15_def, metis ej16_def)

lemma ej_turns: "turns ''host1'' 10 ej4 ej14"
proof -
  have "turns ''host1'' 0 ej4 ej4" by (rule turns.Stay)
  from turns.Own [OF turns.Own [OF turns.Own [OF turns.Own [OF turns.Own [OF this ej_own(1)] ej_own(2)] ej_own(3)] ej_own(4)] ej_own(5)]
  have "turns ''host1'' 5 ej4 ej9" by (simp add: eval_nat_numeral)
  from turns.Own [OF turns.Own [OF turns.Own [OF turns.Own [OF turns.Own [OF this ej_own(6)] ej_own(7)] ej_own(8)] ej_own(9)] ej_own(10)]
  show ?thesis by (simp add: eval_nat_numeral)
qed

lemma ej_steps16: "job_step\<^sup>*\<^sup>* ej4 ej16"
  using turns_steps [OF turns.Own [OF turns.Own [OF ej_turns ej_own(11)] ej_own(12)]] .

lemma one_job_per_queue_witness: "length (filter (\<lambda>(q', i, p). q' = ''host1'') (m_runs ej4)) \<le> 1"
  by (rule one_job_per_queue [OF ej_start ej_steps4])

lemma no_job_forgotten_witness:
  "turns ''host1'' 10 ej4 ej14 \<and> \<not> m_closed ej14 \<and> (''host1'', 3) \<in> set (m_started ej14)"
proof -
  have c: "3 \<in> set (pending_of ej4 ''host1'')" "ahead 3 (pending_of ej4 ''host1'') = 0" "\<not> m_closed ej14" "3 \<notin> set (m_dropped ej14)"
    by code_simp+
  then show ?thesis using no_job_forgotten [OF ej_start ej_steps4 c(1)] ej_turns by (metis One_nat_def mult.right_neutral order_refl)
qed

lemma queue_is_fifo_witness:
  "filter (\<lambda>i. i \<notin> set (m_dropped ej4)) (proj ''host1'' (m_enq ej4)) = [2] @ [3]"
proof -
  have "\<not> m_closed ej4" "proj ''host1'' (m_started ej4) = [2]" "pending_of ej4 ''host1'' = [3]" by code_simp+
  then show ?thesis using queue_is_fifo [OF ej_start ej_steps4, of "''host1''"] by simp
qed

lemma ej_reach16: "job_step\<^sup>*\<^sup>* ej0 ej16"
  using ej_steps4 ej_steps16 by (rule rtranclp_trans)

lemma outcome_is_final_witness: "outcome ej16 1 = Some (JobInterrupted, ''jobs.interruptedByRestartShort'')"
  by (rule outcome_is_final [OF ej_start ej_steps4 ej_steps16]) code_simp

lemma channels_never_panic_witness: "\<not> m_panic ej16"
  by (rule channels_never_panic [OF ej_start ej_reach16])

lemma recovery_outcome_witness:
  "outcome ej0 1 = Some (JobInterrupted, ''jobs.interruptedByRestartShort'')"
proof -
  have "\<not> Done ex_old" "\<not> IsResumable (jb_kind ex_old) (fold (\<lambda>(k, r). Register k r) [(''install'', False)] (jm_new [(1, ex_old)] 2 []))"
    by code_simp+
  then show ?thesis
    using recovery_outcome [of "[(1, ex_old)]" 2 1 ex_old "[]" "[(''install'', False)]"]
    unfolding ej0_def by (simp add: wf_map_def lookup_def Let_def del: fold_simps)
qed

text \<open>C26. Cancelling is not tied to the job it names: the row is read before the lock is taken, so when
  the job ends in between, the request reports success, stops the next job of the queue and
  does not mark that job as cancelled by a user, so that it will be recorded as failed.\<close>

theorem cancel_hits_successor:
  "\<exists>m0 m1 m2 i k q. jm_start m0 \<and> job_step\<^sup>*\<^sup>* m0 m1 \<and> job_step\<^sup>*\<^sup>* m1 m2
     \<and> cancel_read i m1 = Inr q \<and> outcome m2 i = Some (JobSucceeded, []) \<and> i \<noteq> k
     \<and> (q, k, Exec) \<in> set (m_runs m2) \<and> k \<notin> set (m_stopped m2)
     \<and> fst (cancel_act i q m2) = None
     \<and> k \<in> set (m_stopped (snd (cancel_act i q m2))) \<and> k \<notin> set (m_ucanceled (snd (cancel_act i q m2)))"
proof -
  have "cancel_read 2 ej4 = Inr ''host1''" "outcome ej16 2 = Some (JobSucceeded, [])"
    "(''host1'', 3, Exec) \<in> set (m_runs ej16)" "3 \<notin> set (m_stopped ej16)" "fst (cancel_act 2 ''host1'' ej16) = None"
    "3 \<in> set (m_stopped (snd (cancel_act 2 ''host1'' ej16)))" "3 \<notin> set (m_ucanceled (snd (cancel_act 2 ''host1'' ej16)))"
    by code_simp+
  then show ?thesis
    using ej_start ej_steps4 ej_steps16
    by (intro exI [of _ ej0] exI [of _ ej4] exI [of _ ej16] exI [of _ 2] exI [of _ 3] exI [of _ "''host1''"]) simp
qed

end
