(* ===== verification/GoNetFacts.thy ===== *)
theory GoNetFacts
  imports GoNet
begin

text \<open>
  Texts of IPv4 addresses: printing and parsing are inverse, and such a text holds nothing
  but digits and points, so trimming and searching leave it alone.
\<close>

section \<open>Trimming plain text\<close>

definition plain_byte :: "char \<Rightarrow> bool" where
  "plain_byte c \<longleftrightarrow> (let n = of_char c :: nat in 32 < n \<and> n < 127)"

lemma plain_not_space: "plain_byte c \<Longrightarrow> \<not> ascii_space c"
  by (auto simp: plain_byte_def ascii_space_def Let_def)

lemma high_spaces: "x \<in> set spaces2 \<union> set spaces3 \<Longrightarrow> \<not> plain_byte (hd x)"
  by (auto simp: spaces2_def spaces3_def plain_byte_def)

lemma space_len_plain: "s \<noteq> [] \<Longrightarrow> plain_byte (hd s) \<Longrightarrow> space_len s = 0"
proof -
  assume s: "s \<noteq> []" "plain_byte (hd s)"
  have "hd (take 2 s) = hd s" "hd (take 3 s) = hd s" using s(1) by (cases s; simp)+
  then have "take 2 s \<notin> set spaces2" "take 3 s \<notin> set spaces3"
    using high_spaces [of "take 2 s"] high_spaces [of "take 3 s"] s(2) by auto
  with plain_not_space [OF s(2)] show ?thesis by (simp add: space_len_def)
qed

lemma space_len_rev_plain: "list_all plain_byte r \<Longrightarrow> space_len_rev r = 0"
proof -
  assume r: "list_all plain_byte r"
  have "space_len (rev (take n r)) = 0" for n
  proof (cases "take n r = []")
    case True
    then have "rev (take n r) = []" by simp
    then show ?thesis by (simp only: space_len_def spaces2_def spaces3_def) simp
  next
    case False
    then have "hd (rev (take n r)) \<in> set r"
      by (metis hd_in_set in_set_takeD rev_is_Nil_conv set_rev)
    with r show ?thesis by (intro space_len_plain) (use False in \<open>auto simp: list_all_iff\<close>)
  qed
  then show ?thesis by (simp add: space_len_rev_def)
qed

lemma trim_space_plain: "list_all plain_byte s \<Longrightarrow> trim_space s = s"
proof -
  assume s: "list_all plain_byte s"
  have "trim_left s = s"
    by (subst trim_left.simps) (use s space_len_plain in \<open>cases s; auto\<close>)
  moreover have "trim_right_rev (rev s) = rev s"
    by (subst trim_right_rev.simps) (use s space_len_rev_plain [of "rev s"] in simp)
  ultimately show ?thesis by (simp add: trim_space_def)
qed

section \<open>Printing and parsing\<close>

lemma ipv4_str_chars: "c \<in> set (ipv4_str w) \<Longrightarrow> is_digit c \<or> c = CHR ''.''"
  using nat_str_digits unfolding ipv4_str_def by (auto simp: join_def list_all_iff)

lemma ipv4_str_nonempty: "ipv4_str w \<noteq> []"
  by (simp add: ipv4_str_def join_def)

lemma ipv4_str_plain: "list_all plain_byte (ipv4_str w)"
  using ipv4_str_chars by (fastforce simp: list_all_iff plain_byte_def is_digit_def Let_def)

lemma hd_nat_str: "0 < n \<Longrightarrow> hd (nat_str n) \<noteq> CHR ''0''"
proof (induction n rule: nat_str.induct)
  case (1 n)
  have digit: "digit_char m \<noteq> CHR ''0''" if "0 < m" "m < 10" for m
  proof
    assume "digit_char m = CHR ''0''"
    then have "digit_val (digit_char m) = 0" by (simp add: digit_val_def)
    with that show False by (simp add: gostr)
  qed
  show ?case
    using 1 digit by (subst nat_str.simps) (auto simp: hd_append)
qed

lemma octet_nat_str: "n < 256 \<Longrightarrow> octet (nat_str n) = Some n"
proof -
  assume n: "n < 256"
  have "\<not> (1 < length (nat_str n) \<and> hd (nat_str n) = CHR ''0'')"
    using hd_nat_str [of n] by (cases "n = 0") (auto simp: nat_str.simps [of 0])
  with n show ?thesis by (simp add: octet_def nat_str_digits digits_val_nat_str)
qed

lemma split_ipv4_str:
  "split_char CHR ''.'' (ipv4_str w) = map (\<lambda>k. nat_str (unat (take_bit 8 (drop_bit k w)))) [24, 16, 8, 0]"
  unfolding ipv4_str_def
proof (rule split_char_join)
  have "CHR ''.'' \<notin> set (nat_str n)" for n
    using nat_str_digits [of n] by (auto simp: list_all_iff is_digit_def Let_def)
  then show "\<forall>s\<in>set (map (\<lambda>k. nat_str (unat (take_bit 8 (drop_bit k w)))) [24, 16, 8, 0]). CHR ''.'' \<notin> set s"
    by simp
qed simp

lemma byte_step: "v = drop_bit 8 v * 256 + take_bit 8 (v :: 32 word)"
proof -
  have "push_bit 8 (drop_bit 8 v) + take_bit 8 v = v" by (rule bits_ident)
  then show ?thesis by (simp add: push_bit_eq_mult)
qed

lemma pack4_bytes:
  "pack4 (unat (take_bit 8 (drop_bit 24 w))) (unat (take_bit 8 (drop_bit 16 w)))
     (unat (take_bit 8 (drop_bit 8 w))) (unat (take_bit 8 w)) = w"
proof -
  have top: "take_bit 8 (drop_bit 24 w) = drop_bit 24 w"
    by (simp add: take_bit_drop_bit take_bit_word_eq_self)
  have drop: "drop_bit 8 (drop_bit k w) = drop_bit (8 + k) w" for k
    by (simp only: drop_bit_drop_bit)
  show ?thesis
    using byte_step [of w] byte_step [of "drop_bit 8 w"] byte_step [of "drop_bit 16 w"] drop [of 8] drop [of 16]
    by (simp add: pack4_def top)
qed

lemma octet_byte: "octet (nat_str (unat (take_bit 8 v))) = Some (unat (take_bit 8 (v :: 32 word)))"
proof -
  have "unat (take_bit 8 v) < 256"
    using take_bit_nat_less_exp [of 8 "unat v"] by (simp add: unsigned_take_bit_eq)
  then show ?thesis by (rule octet_nat_str)
qed

lemma parse_ipv4_str: "parse_ipv4 (ipv4_str w) = Some w"
  unfolding parse_ipv4_def split_ipv4_str
  using pack4_bytes [of w] by (simp add: octet_byte)

lemma find_append_None: "find P xs = None \<Longrightarrow> find P (xs @ ys) = find P ys"
  by (induction xs) (auto split: if_splits)

lemma parse_addr_str: "parse_addr (ipv4_str w) = Some (V4 w)"
proof -
  let ?P = "\<lambda>c. c = CHR ''.'' \<or> c = CHR '':'' \<or> c = CHR ''%''"
  let ?b = "nat_str (unat (take_bit 8 (drop_bit 24 w)))"
  obtain t where t: "ipv4_str w = ?b @ CHR ''.'' # t" by (simp add: ipv4_str_def join_def)
  have "find ?P ?b = None"
    using nat_str_digits [of "unat (take_bit 8 (drop_bit 24 w))"]
    by (auto simp: find_None_iff list_all_iff is_digit_def Let_def)
  then have "find ?P (ipv4_str w) = Some CHR ''.''" by (simp add: t find_append_None)
  then show ?thesis by (simp add: parse_addr_def parse_ipv4_str)
qed

end
