(* ===== verification/GoFloat.thy ===== *)
theory GoFloat
  imports GoNet Complex_Main
begin

text \<open>
  64-bit floating-point numbers as the code uses them: \<open>strconv.ParseFloat\<close>, comparisons, sums
  and the conversion to integers. A finite number is an exact rational: rounding is not
  modelled, NaN, the infinities and the range error are.
\<close>

datatype gofloat = Fin rat | NaN | PInf | NInf

fun f_gt :: "gofloat \<Rightarrow> gofloat \<Rightarrow> bool" where
  "f_gt NaN _ = False"
| "f_gt _ NaN = False"
| "f_gt (Fin a) (Fin b) = (a > b)"
| "f_gt PInf b = (b \<noteq> PInf)"
| "f_gt a NInf = (a \<noteq> NInf)"
| "f_gt _ _ = False"

definition f_eq :: "gofloat \<Rightarrow> gofloat \<Rightarrow> bool" where
  "f_eq a b \<longleftrightarrow> a = b \<and> a \<noteq> NaN"

fun f_neg :: "gofloat \<Rightarrow> gofloat" where
  "f_neg (Fin a) = Fin (- a)"
| "f_neg NaN = NaN"
| "f_neg PInf = NInf"
| "f_neg NInf = PInf"

fun f_add :: "gofloat \<Rightarrow> gofloat \<Rightarrow> gofloat" where
  "f_add (Fin a) (Fin b) = Fin (a + b)"
| "f_add NaN _ = NaN"
| "f_add _ NaN = NaN"
| "f_add PInf NInf = NaN"
| "f_add NInf PInf = NaN"
| "f_add PInf _ = PInf"
| "f_add NInf _ = NInf"
| "f_add _ b = b"

text \<open>Multiplication by a positive whole number.\<close>

fun f_times :: "gofloat \<Rightarrow> int \<Rightarrow> gofloat" where
  "f_times (Fin a) n = Fin (a * of_int n)"
| "f_times a n = a"

section \<open>ParseFloat\<close>

definition hex_char :: "char \<Rightarrow> bool" where
  "hex_char c \<longleftrightarrow> hex_val c \<noteq> None"

text \<open>
  Where underscores may stand: each between digits, or after the prefix of a base. The state is
  the last thing seen: \<open>^\<close> the start, \<open>0\<close> a digit, \<open>_\<close> an underscore, \<open>!\<close> something else.
\<close>

fun us_loop :: "bool \<Rightarrow> char \<Rightarrow> string \<Rightarrow> bool" where
  "us_loop hex st [] = (st \<noteq> CHR ''_'')"
| "us_loop hex st (c # s) =
     (if is_digit c \<or> hex \<and> hex_char c then us_loop hex CHR ''0'' s
      else if c = CHR ''_'' then st = CHR ''0'' \<and> us_loop hex CHR ''_'' s
      else st \<noteq> CHR ''_'' \<and> us_loop hex CHR ''!'' s)"

definition strip_sign :: "string \<Rightarrow> bool \<times> string" where
  "strip_sign s = (case s of c # r \<Rightarrow> if c = CHR ''-'' then (True, r) else if c = CHR ''+'' then (False, r) else (False, s)
     | [] \<Rightarrow> (False, []))"

definition underscore_ok :: "string \<Rightarrow> bool" where
  "underscore_ok s =
     (let r = snd (strip_sign s) in
      case r of
        z # b # rest \<Rightarrow>
          if z = CHR ''0'' \<and> lower_char b \<in> {CHR ''b'', CHR ''o'', CHR ''x''}
          then us_loop (lower_char b = CHR ''x'') CHR ''0'' rest
          else us_loop False CHR ''^'' r
      | _ \<Rightarrow> us_loop False CHR ''^'' r)"

text \<open>The digits of the mantissa with at most one point: value, places after the point, whether a
  digit was seen, what is left.\<close>

fun mantissa :: "bool \<Rightarrow> bool \<Rightarrow> int \<Rightarrow> nat \<Rightarrow> bool \<Rightarrow> string \<Rightarrow> int \<times> nat \<times> bool \<times> string" where
  "mantissa hex dot v places seen [] = (v, places, seen, [])"
| "mantissa hex dot v places seen (c # s) =
     (if c = CHR ''_'' then mantissa hex dot v places seen s
      else if c = CHR ''.'' then (if dot then (v, places, seen, c # s) else mantissa hex True v places seen s)
      else if is_digit c \<or> hex \<and> hex_char c
      then mantissa hex dot (v * (if hex then 16 else 10) + (case hex_val c of Some d \<Rightarrow> int d | None \<Rightarrow> 0))
             (if dot then Suc places else places) True s
      else (v, places, seen, c # s))"

fun exp_digits :: "nat \<Rightarrow> string \<Rightarrow> nat \<times> string" where
  "exp_digits e [] = (e, [])"
| "exp_digits e (c # s) =
     (if c = CHR ''_'' then exp_digits e s
      else if is_digit c then exp_digits (if e < 10000 then e * 10 + digit_val c else e) s
      else (e, c # s))"

text \<open>The exponent after its letter: None is a syntax error.\<close>

definition exponent :: "string \<Rightarrow> (int \<times> string) option" where
  "exponent s =
     (let (neg, r) = strip_sign s in
      if r = [] \<or> \<not> is_digit (hd r) then None
      else let (e, rest) = exp_digits 0 r in Some (if neg then - int e else int e, rest))"

definition rat_pow :: "int \<Rightarrow> int \<Rightarrow> rat" where
  "rat_pow b e = (if e \<ge> 0 then of_int (b ^ nat e) else 1 / of_int (b ^ nat (- e)))"

definition float_limit :: rat where
  "float_limit = of_int (2 ^ 1024 - 2 ^ 970)"

definition f_range :: "bool \<Rightarrow> rat \<Rightarrow> gofloat \<times> bool" where
  "f_range neg v = (if v \<ge> float_limit then (if neg then NInf else PInf, False) else (Fin (if neg then - v else v), True))"

definition special :: "string \<Rightarrow> gofloat option" where
  "special s =
     (let (neg, r) = strip_sign s; l = map lower_char r in
      if l = ''inf'' \<or> l = ''infinity'' then Some (if neg then NInf else PInf)
      else if l = ''nan'' \<and> r = s then Some NaN else None)"

text \<open>\<open>strconv.ParseFloat\<close> to 64 bits: the value and whether the error is nil; a syntax error gives 0.\<close>

definition parse_float :: "string \<Rightarrow> gofloat \<times> bool" where
  "parse_float s =
     (case special s of
        Some f \<Rightarrow> (f, True)
      | None \<Rightarrow>
         (let (neg, r) = strip_sign s;
              hex = (length r > 2 \<and> hd r = CHR ''0'' \<and> lower_char (r ! 1) = CHR ''x'');
              (v, places, seen, rest) = mantissa hex False 0 0 False (if hex then drop 2 r else r);
              bad = (Fin 0, False)
          in if \<not> seen \<or> (CHR ''_'' \<in> set s \<and> \<not> underscore_ok s) then bad
             else if rest = [] then (if hex then bad else f_range neg (of_int v * rat_pow 10 (- int places)))
             else if lower_char (hd rest) = (if hex then CHR ''p'' else CHR ''e'')
             then (case exponent (tl rest) of
                     Some (e, []) \<Rightarrow> f_range neg (of_int v * (if hex then rat_pow 2 (e - 4 * int places) else rat_pow 10 (e - int places)))
                   | _ \<Rightarrow> bad)
             else bad))"

section \<open>To integers\<close>

text \<open>\<open>int64(math.Ceil(x))\<close>: what a machine does with a number out of range is its own, the parameter.\<close>

definition ceil_int64 :: "(rat \<Rightarrow> int) \<Rightarrow> rat \<Rightarrow> int" where
  "ceil_int64 big v =
     (let c = \<lceil>v\<rceil> in if - 9223372036854775808 \<le> c \<and> c \<le> 9223372036854775807 then c else big v)"

lemma f_gt_irrefl: "\<not> f_gt a a"
  by (cases a) auto

end
