(* ===== verification/ComposeYaml.thy ===== *)
theory ComposeYaml
  imports GoFloat
begin

text \<open>
  Trees of \<open>gopkg.in/yaml.v3\<close> as the compose code walks them, and the limits of a token on a
  compose stack (\<open>src/internal/deploy/tokenlimits.go\<close>): what a service may not ask for, what it
  takes, and the ceilings written into it. Reading and printing YAML are the parameters \<open>unm\<close>
  and \<open>mar\<close>.
\<close>

section \<open>Nodes\<close>

datatype ykind = DocumentNode | SequenceNode | MappingNode | ScalarNode | AliasNode

text \<open>The content of a mapping alternates keys and values. An alias carries the name of its anchor
  and no content; the code never follows it.\<close>

datatype ynode = YNode (y_kind: ykind) (y_tag: string) (y_quoted: bool) (y_value: string) (y_content: "ynode list")

definition set_content :: "ynode list \<Rightarrow> ynode \<Rightarrow> ynode" where
  "set_content c n = YNode (y_kind n) (y_tag n) (y_quoted n) (y_value n) c"

definition str_node :: "string \<Rightarrow> ynode" where
  "str_node v = YNode ScalarNode ''!!str'' False v []"

definition quoted_node :: "string \<Rightarrow> ynode" where
  "quoted_node v = YNode ScalarNode ''!!str'' True v []"

definition map_node :: "ynode list \<Rightarrow> ynode" where
  "map_node c = YNode MappingNode ''!!map'' False [] c"

text \<open>The value of the first key of that name, and changing it in place.\<close>

fun map_value_in :: "ynode list \<Rightarrow> string \<Rightarrow> ynode option" where
  "map_value_in (k # v # rest) key = (if y_value k = key then Some v else map_value_in rest key)"
| "map_value_in _ key = None"

fun set_first :: "string \<Rightarrow> (ynode \<Rightarrow> ynode) \<Rightarrow> ynode list \<Rightarrow> ynode list" where
  "set_first key f (k # v # rest) = (if y_value k = key then k # f v # rest else k # v # set_first key f rest)"
| "set_first key f c = c"

definition mapValue :: "ynode option \<Rightarrow> string \<Rightarrow> ynode option" where
  "mapValue n key = (case n of None \<Rightarrow> None | Some m \<Rightarrow> map_value_in (y_content m) key)"

definition scalar :: "ynode option \<Rightarrow> string" where
  "scalar n = (case n of Some m \<Rightarrow> if y_kind m = ScalarNode then y_value m else [] | None \<Rightarrow> [])"

lemma map_value_append_new:
  "even (length c) \<Longrightarrow> map_value_in c key = None \<Longrightarrow> map_value_in (c @ [k, v]) key = (if y_value k = key then Some v else None)"
  by (induction c key rule: map_value_in.induct) (auto split: if_splits)

lemma map_value_append:
  "map_value_in c key = Some x \<Longrightarrow> map_value_in (c @ d) key = Some x"
  by (induction c key rule: map_value_in.induct) (auto split: if_splits)

lemma map_value_set_first:
  "map_value_in (set_first k f c) key = (if key = k then map_option f (map_value_in c k) else map_value_in c key)"
  by (induction k f c rule: set_first.induct) auto

lemma length_set_first [simp]: "length (set_first k f c) = length c"
  by (induction k f c rule: set_first.induct) auto

lemma y_fields_set [simp]:
  "y_content (set_content c n) = c" "y_kind (set_content c n) = y_kind n" "y_value (set_content c n) = y_value n"
  by (simp_all add: set_content_def)

lemma node_fields [simp]:
  "y_kind (str_node v) = ScalarNode" "y_value (str_node v) = v" "y_kind (quoted_node v) = ScalarNode" "y_value (quoted_node v) = v"
  "y_kind (map_node c) = MappingNode" "y_content (map_node c) = c"
  by (simp_all add: str_node_def quoted_node_def map_node_def)

section \<open>Errors\<close>

datatype compose_err = ComposeYAML string | TokenServiceCPU string gofloat gofloat | TokenServiceMem string int int
  | TokenServiceUnsafe string string | MarshalError string | ComposeSpecBad string string | ImageServiceMissing string

section \<open>Amounts of memory\<close>

text \<open>The white space of \<open>\s\<close> in a regular expression.\<close>

definition re_space :: "char \<Rightarrow> bool" where
  "re_space c \<longleftrightarrow> (let n = of_char c :: nat in n = 9 \<or> n = 10 \<or> n = 12 \<or> n = 13 \<or> n = 32)"

text \<open>The pattern of an amount: the number and the unit letter in lower case.\<close>

definition memRe :: "string \<Rightarrow> (string \<times> string) option" where
  "memRe s =
     (let s0 = dropWhile re_space s;
          ip = takeWhile is_digit s0; r0 = dropWhile is_digit s0;
          (fp, r1) = (case r0 of d # r \<Rightarrow> if d = CHR ''.'' \<and> r \<noteq> [] \<and> is_digit (hd r)
                                          then (d # takeWhile is_digit r, dropWhile is_digit r) else ([], r0)
                      | [] \<Rightarrow> ([], r0));
          r2 = dropWhile re_space r1;
          (un, r3) = (case r2 of c # r \<Rightarrow> if lower_char c \<in> {CHR ''k'', CHR ''m'', CHR ''g'', CHR ''t''} then ([lower_char c], r)
                                          else if take 3 r2 = [CHR 0xE2, CHR 0x84, CHR 0xAA] then (''k'', drop 3 r2) else ([], r2)
                      | [] \<Rightarrow> ([], r2));
          r4 = (case r3 of c # r \<Rightarrow> if lower_char c = CHR ''i'' then r else r3 | [] \<Rightarrow> r3);
          r5 = (case r4 of c # r \<Rightarrow> if lower_char c = CHR ''b'' then r else r4 | [] \<Rightarrow> r4)
      in if ip \<noteq> [] \<and> dropWhile re_space r5 = [] then Some (ip @ fp, un) else None)"

definition parseMemMB :: "(rat \<Rightarrow> int) \<Rightarrow> string \<Rightarrow> int \<times> bool" where
  "parseMemMB big s =
     (case memRe s of
        None \<Rightarrow> (0, False)
      | Some (num, un) \<Rightarrow>
          (case parse_float num of
             (Fin v, True) \<Rightarrow>
               (ceil_int64 big (if un = [] then v / 1048576 else if un = ''k'' then v / 1024
                  else if un = ''g'' then v * 1024 else if un = ''t'' then v * 1048576 else v), True)
           | _ \<Rightarrow> (0, False)))"

section \<open>The limits of a service\<close>

definition limits_node :: "ynode \<Rightarrow> ynode option" where
  "limits_node svc = mapValue (mapValue (mapValue (Some svc) ''deploy'') ''resources'') ''limits''"

definition cpu_of :: "ynode option \<Rightarrow> gofloat" where
  "cpu_of n = fst (parse_float (trim_space (scalar n)))"

definition serviceLimits :: "(rat \<Rightarrow> int) \<Rightarrow> ynode \<Rightarrow> gofloat \<times> int" where
  "serviceLimits big svc =
     (let lim = limits_node svc;
          cpu = (if lim = None then Fin 0 else cpu_of (mapValue lim ''cpus''));
          mem = (if lim = None then 0 else fst (parseMemMB big (scalar (mapValue lim ''memory''))));
          cpu = (if f_eq cpu (Fin 0) then cpu_of (mapValue (Some svc) ''cpus'') else cpu);
          mem = (if mem = 0 then fst (parseMemMB big (scalar (mapValue (Some svc) ''mem_limit''))) else mem)
      in (cpu, mem))"

text \<open>Descending into a child mapping, made at the end when it is not there.\<close>

definition with_child :: "string \<Rightarrow> (ynode \<Rightarrow> ynode) \<Rightarrow> ynode \<Rightarrow> ynode" where
  "with_child k f parent =
     (case mapValue (Some parent) k of
        Some v \<Rightarrow> if y_kind v = MappingNode then set_content (set_first k f (y_content parent)) parent
                 else set_content (y_content parent @ [str_node k, f (map_node [])]) parent
      | None \<Rightarrow> set_content (y_content parent @ [str_node k, f (map_node [])]) parent)"

definition setLimit :: "string \<Rightarrow> string \<Rightarrow> ynode \<Rightarrow> ynode" where
  "setLimit key value =
     with_child ''deploy'' (with_child ''resources'' (with_child ''limits''
       (\<lambda>lim. set_content (y_content lim @ [str_node key, quoted_node value]) lim)))"

section \<open>What may not leave the stack\<close>

definition hostPathOutside :: "string \<Rightarrow> bool" where
  "hostPathOutside src =
     (if src = [] then False
      else if contains src ''docker.sock'' then True
      else if has_prefix src ''/'' \<or> has_prefix src ''~'' \<or> has_prefix src ''$'' then True
      else if has_prefix src ''.'' then
        (let clean = trim_prefix src ''./''
         in clean = ''..'' \<or> has_prefix clean ''../'' \<or> contains clean ''/../'')
      else False)"

definition volume_source :: "ynode \<Rightarrow> string" where
  "volume_source v =
     (case y_kind v of
        ScalarNode \<Rightarrow> (case cut (y_value v) '':'' of (a, _, found) \<Rightarrow> if found then a else [])
      | MappingNode \<Rightarrow> if scalar (mapValue (Some v) ''type'') = ''bind'' then scalar (mapValue (Some v) ''source'') else []
      | _ \<Rightarrow> [])"

definition host_modes :: "string list" where
  "host_modes = [''network_mode'', ''pid'', ''ipc'', ''userns_mode'', ''uts'']"

definition bad_mode :: "ynode \<Rightarrow> string \<Rightarrow> bool" where
  "bad_mode svc k = (let v = scalar (mapValue (Some svc) k) in v = ''host'' \<or> has_prefix v ''container:'')"

definition has_items :: "ynode \<Rightarrow> string \<Rightarrow> bool" where
  "has_items svc k = (case mapValue (Some svc) k of Some n \<Rightarrow> y_content n \<noteq> [] | None \<Rightarrow> False)"

definition items :: "ynode \<Rightarrow> string \<Rightarrow> ynode list" where
  "items svc k = (case mapValue (Some svc) k of Some n \<Rightarrow> y_content n | None \<Rightarrow> [])"

definition checkServiceSafety :: "(string \<Rightarrow> string) \<Rightarrow> string \<Rightarrow> ynode \<Rightarrow> compose_err option" where
  "checkServiceSafety ulow name svc =
     (let bad = (\<lambda>what. Some (TokenServiceUnsafe name what));
          pv = to_lower ulow (scalar (mapValue (Some svc) ''privileged''))
      in if pv = ''true'' \<or> pv = ''yes'' then bad ''privileged''
         else case find (bad_mode svc) host_modes of
           Some k \<Rightarrow> bad (k @ '': '' @ scalar (mapValue (Some svc) k))
         | None \<Rightarrow>
             if has_items svc ''cap_add'' then bad ''cap_add''
             else if has_items svc ''devices'' then bad ''devices''
             else case find (\<lambda>o'. contains (scalar (Some o')) ''unconfined'') (items svc ''security_opt'') of
               Some o' \<Rightarrow> bad (''security_opt: '' @ scalar (Some o'))
             | None \<Rightarrow> (case find (\<lambda>v. hostPathOutside (volume_source v)) (items svc ''volumes'') of
                  Some v \<Rightarrow> bad (''volume '' @ volume_source v)
                | None \<Rightarrow> None))"

section \<open>The stack under the ceilings of a token\<close>

record service_caps =
  cap_cpu :: gofloat
  cap_mem :: int

record stack_need =
  need_cpu :: gofloat
  need_mem :: int
  need_unlimited :: "string list"

definition replicas_of :: "ynode \<Rightarrow> int" where
  "replicas_of svc =
     (case mapValue (Some svc) ''deploy'' of
        None \<Rightarrow> 1
      | Some dep \<Rightarrow> (case atoi (scalar (mapValue (Some dep) ''replicas'')) of (r, ok) \<Rightarrow> if ok \<and> r > 0 then r else 1))"

definition eps :: rat where "eps = 1 / 1000000000"

definition itoa_mem :: "int \<Rightarrow> string" where
  "itoa_mem m = itoa m @ ''M''"

text \<open>One service: its node with the ceilings written in, and what it adds to the need. \<open>fmt\<close>
  prints a ceiling of processors in its shortest decimal form.\<close>

definition limit_service ::
  "(string \<Rightarrow> string) \<Rightarrow> (rat \<Rightarrow> int) \<Rightarrow> (gofloat \<Rightarrow> string) \<Rightarrow> service_caps \<Rightarrow> string \<Rightarrow> ynode \<Rightarrow> stack_need
     \<Rightarrow> compose_err + (ynode \<times> stack_need)" where
  "limit_service ulow big fmt caps name svc need =
     (case checkServiceSafety ulow name svc of
        Some e \<Rightarrow> Inl e
      | None \<Rightarrow>
         (let (cpu, mem) = serviceLimits big svc; replicas = replicas_of svc in
          if f_gt (cap_cpu caps) (Fin 0) \<and> f_gt cpu (f_add (cap_cpu caps) (Fin eps)) then Inl (TokenServiceCPU name cpu (cap_cpu caps))
          else if cap_mem caps > 0 \<and> mem > cap_mem caps then Inl (TokenServiceMem name mem (cap_mem caps))
          else let give_cpu = f_eq cpu (Fin 0) \<and> f_gt (cap_cpu caps) (Fin 0);
                   give_mem = (mem = 0 \<and> cap_mem caps > 0);
                   svc = (if give_cpu then setLimit ''cpus'' (fmt (cap_cpu caps)) svc else svc);
                   svc = (if give_mem then setLimit ''memory'' (itoa_mem (cap_mem caps)) svc else svc);
                   cpu = (if give_cpu then cap_cpu caps else cpu);
                   mem = (if give_mem then cap_mem caps else mem)
               in Inr (svc, need\<lparr>need_unlimited := (if f_eq cpu (Fin 0) \<or> mem = 0 then need_unlimited need @ [name] else need_unlimited need),
                    need_cpu := f_add (need_cpu need) (f_times cpu replicas),
                    need_mem := wrap64 (need_mem need + wrap64 (mem * replicas))\<rparr>)))"

fun limit_services ::
  "(string \<Rightarrow> string) \<Rightarrow> (rat \<Rightarrow> int) \<Rightarrow> (gofloat \<Rightarrow> string) \<Rightarrow> service_caps \<Rightarrow> ynode list \<Rightarrow> stack_need
     \<Rightarrow> compose_err + (ynode list \<times> stack_need)" where
  "limit_services ulow big fmt caps (k # svc # rest) need =
     (if y_kind svc \<noteq> MappingNode then
        (case limit_services ulow big fmt caps rest need of Inl e \<Rightarrow> Inl e | Inr (c, n) \<Rightarrow> Inr (k # svc # c, n))
      else case limit_service ulow big fmt caps (y_value k) svc need of
          Inl e \<Rightarrow> Inl e
        | Inr (svc', need') \<Rightarrow>
            (case limit_services ulow big fmt caps rest need' of Inl e \<Rightarrow> Inl e | Inr (c, n) \<Rightarrow> Inr (k # svc' # c, n)))"
| "limit_services ulow big fmt caps c need = Inr (c, need)"

definition no_need :: stack_need where
  "no_need = \<lparr>need_cpu = Fin 0, need_mem = 0, need_unlimited = []\<rparr>"

text \<open>The tree of a file: None when it is not a document with a mapping.\<close>

definition doc_root :: "ynode \<Rightarrow> ynode option" where
  "doc_root doc = (case y_content doc of r # _ \<Rightarrow> if y_kind r = MappingNode then Some r else None | [] \<Rightarrow> None)"

definition set_root :: "(ynode \<Rightarrow> ynode) \<Rightarrow> ynode \<Rightarrow> ynode" where
  "set_root f doc = (case y_content doc of r # rest \<Rightarrow> set_content (f r # rest) doc | [] \<Rightarrow> doc)"

definition services_of :: "ynode \<Rightarrow> ynode option" where
  "services_of tree = (case mapValue (Some tree) ''services'' of
      Some s \<Rightarrow> if y_kind s = MappingNode then Some s else None | None \<Rightarrow> None)"

definition put_services :: "ynode list \<Rightarrow> ynode \<Rightarrow> ynode" where
  "put_services c = set_root (\<lambda>tree. set_content (set_first ''services'' (set_content c) (y_content tree)) tree)"

definition ApplyTokenLimits ::
  "(string \<Rightarrow> string + ynode) \<Rightarrow> (ynode \<Rightarrow> string + string) \<Rightarrow> (string \<Rightarrow> string) \<Rightarrow> (rat \<Rightarrow> int) \<Rightarrow> (gofloat \<Rightarrow> string)
     \<Rightarrow> string \<Rightarrow> service_caps \<Rightarrow> compose_err + (string \<times> stack_need)" where
  "ApplyTokenLimits unm mar ulow big fmt text caps =
     (case unm text of
        Inl e \<Rightarrow> Inl (ComposeYAML e)
      | Inr doc \<Rightarrow>
         (case doc_root doc of
            None \<Rightarrow> Inl (ComposeYAML ''not a mapping'')
          | Some tree \<Rightarrow>
             (case services_of tree of
                None \<Rightarrow> Inr (text, no_need)
              | Some services \<Rightarrow>
                 (case limit_services ulow big fmt caps (y_content services) no_need of
                    Inl e \<Rightarrow> Inl e
                  | Inr (c, need) \<Rightarrow>
                     (case mar (put_services c doc) of Inl e \<Rightarrow> Inl (MarshalError e) | Inr out \<Rightarrow> Inr (out, need))))))"

end
