(* ===== verification/ComposePorts.thy ===== *)
theory ComposePorts
  imports ComposeYaml
begin

text \<open>
  Published ports of a compose stack (\<open>src/internal/deploy/compose_bind.go\<close> and
  \<open>compose_ports_conflict.go\<close>): writing an address into every publication that has none, and two
  publications that cannot come up together. From \<open>compose.go\<close>: images, ports and environment
  references put into the copy of the file. Reading and printing YAML are the parameters \<open>unm\<close>, \<open>mar\<close>.
\<close>

section \<open>Addresses of publications\<close>

definition DefaultBind :: string where "DefaultBind = ''127.0.0.1''"

definition BindAddr :: "string \<Rightarrow> string" where
  "BindAddr bind = (if bind = [] then DefaultBind else bind)"

definition validateBind :: "string \<Rightarrow> compose_err option" where
  "validateBind bind =
     (if bind = [] then None
      else if parse_addr bind = None \<or> contains bind ''%'' then Some (ComposeSpecBad ''compose.bind'' bind)
      else None)"

definition is4in6 :: "128 word \<Rightarrow> bool" where
  "is4in6 w \<longleftrightarrow> drop_bit 32 w = 65535"

text \<open>\<open>Addr.String\<close> of any address.\<close>

fun addr_string :: "ip \<Rightarrow> string" where
  "addr_string (V6 w z) = (if is4in6 w then ''::ffff:'' @ ipv4_str (ucast w) @ (if z = [] then [] else ''%'' @ z) else ipv6_str w z)"
| "addr_string a = addr_str a"

fun formatAddr :: "ip \<Rightarrow> string" where
  "formatAddr (V6 w z) = (if is4in6 w then addr_string (V6 w z) else ''['' @ addr_string (V6 w z) @ '']'')"
| "formatAddr a = addr_string a"

definition count_char :: "char \<Rightarrow> string \<Rightarrow> nat" where
  "count_char c s = length (filter ((=) c) s)"

definition before_slash :: "string \<Rightarrow> string" where
  "before_slash p = takeWhile (\<lambda>c. c \<noteq> CHR ''/'') p"

definition splitPortAddr :: "string \<Rightarrow> (string \<times> string) option" where
  "splitPortAddr p =
     (if has_prefix p ''['' then
        (case str_index p '']:'' of
           None \<Rightarrow> None
         | Some i \<Rightarrow> Some (take (i - 1) (drop 1 p), drop (i + 2) p))
      else let n = count_char CHR '':'' (before_slash p) in
        if n \<le> 1 then Some ([], p)
        else if n = 2 then (case cut p '':'' of (a, r, _) \<Rightarrow> Some (a, r))
        else None)"

text \<open>The new entry, whether it differs, and whether it could be read.\<close>

definition bindShort :: "string \<Rightarrow> ip \<Rightarrow> bool \<Rightarrow> string \<times> bool \<times> bool" where
  "bindShort p bind force =
     (if contains p ''${'' \<or> contains p ''$'' then (p, False, False)
      else case splitPortAddr p of
        None \<Rightarrow> (p, False, False)
      | Some (addr, rest) \<Rightarrow>
          if addr \<noteq> [] \<and> \<not> force then (p, False, True)
          else let rest = (if contains (before_slash rest) '':'' then rest else '':'' @ rest);
                   out = formatAddr bind @ '':'' @ rest
               in (out, out \<noteq> p, True))"

record port_change =
  pc_service :: string
  pc_from :: string
  pc_to :: string
  pc_kept :: bool
  pc_skipped :: bool

definition scalarOr :: "ynode option \<Rightarrow> string \<Rightarrow> string" where
  "scalarOr n def = (case n of None \<Rightarrow> def | Some m \<Rightarrow> if y_value m = [] then def else y_value m)"

definition set_value :: "string \<Rightarrow> bool \<Rightarrow> ynode \<Rightarrow> ynode" where
  "set_value v q n = YNode (y_kind n) ''!!str'' q v (y_content n)"

text \<open>One entry of the list: the node, its change (none for other kinds) and whether the file is touched.\<close>

definition bind_entry :: "string \<Rightarrow> ip \<Rightarrow> bool \<Rightarrow> ynode \<Rightarrow> ynode \<times> port_change list \<times> bool" where
  "bind_entry name addr force p =
     (case y_kind p of
        ScalarNode \<Rightarrow>
          (let (out, changed, ok) = bindShort (y_value p) addr force;
               ch = \<lparr>pc_service = name, pc_from = y_value p, pc_to = [], pc_kept = False, pc_skipped = False\<rparr>
           in if \<not> ok then (p, [ch\<lparr>pc_skipped := True\<rparr>], False)
              else if changed then (set_value out True p, [ch\<lparr>pc_to := out\<rparr>], True)
              else (p, [ch\<lparr>pc_kept := True\<rparr>], False))
      | MappingNode \<Rightarrow>
          (let target = scalarOr (mapValue (Some p) ''target'') ''?'';
               from = (case mapValue (Some p) ''published'' of None \<Rightarrow> ''target '' @ target | Some pub \<Rightarrow> y_value pub @ '':'' @ target);
               ch = \<lparr>pc_service = name, pc_from = from, pc_to = [], pc_kept = False, pc_skipped = False\<rparr>
           in case mapValue (Some p) ''host_ip'' of
                Some ipn \<Rightarrow>
                  if \<not> force then (p, [ch\<lparr>pc_from := y_value ipn @ '':'' @ from, pc_kept := True\<rparr>], False)
                  else (set_content (set_first ''host_ip'' (set_value (addr_string addr) (y_quoted ipn)) (y_content p)) p,
                        [ch\<lparr>pc_from := y_value ipn @ '':'' @ from, pc_to := addr_string addr @ '':'' @ from\<rparr>], True)
              | None \<Rightarrow> (set_content (y_content p @ [str_node ''host_ip'', str_node (addr_string addr)]) p,
                        [ch\<lparr>pc_to := addr_string addr @ '':'' @ from\<rparr>], True))
      | _ \<Rightarrow> (p, [], False))"

fun bind_entries :: "string \<Rightarrow> ip \<Rightarrow> bool \<Rightarrow> ynode list \<Rightarrow> ynode list \<times> port_change list \<times> bool" where
  "bind_entries name addr force [] = ([], [], False)"
| "bind_entries name addr force (p # ps) =
     (let (p', ch, t) = bind_entry name addr force p; (ps', chs, ts) = bind_entries name addr force ps
      in (p' # ps', ch @ chs, t \<or> ts))"

text \<open>The \<open>ports\<close> of a service when they are a list.\<close>

definition ports_of :: "ynode \<Rightarrow> ynode list option" where
  "ports_of svc = (case mapValue (Some svc) ''ports'' of
      Some n \<Rightarrow> if y_kind n = SequenceNode then Some (y_content n) else None | None \<Rightarrow> None)"

definition bind_service :: "string \<Rightarrow> ip \<Rightarrow> bool \<Rightarrow> ynode \<Rightarrow> ynode \<times> port_change list \<times> bool" where
  "bind_service name addr force svc =
     (case (y_kind svc, ports_of svc) of
        (MappingNode, Some ps) \<Rightarrow>
          (let (ps', chs, t) = bind_entries name addr force ps
           in (set_content (set_first ''ports'' (set_content ps') (y_content svc)) svc, chs, t))
      | _ \<Rightarrow> (svc, [], False))"

fun bind_services :: "ip \<Rightarrow> bool \<Rightarrow> ynode list \<Rightarrow> ynode list \<times> port_change list \<times> bool" where
  "bind_services addr force (k # svc # rest) =
     (let (svc', ch, t) = bind_service (y_value k) addr force svc; (rest', chs, ts) = bind_services addr force rest
      in (k # svc' # rest', ch @ chs, t \<or> ts))"
| "bind_services addr force c = (c, [], False)"

definition BindPorts :: "(string \<Rightarrow> string + ynode) \<Rightarrow> (ynode \<Rightarrow> string + string) \<Rightarrow> string \<Rightarrow> string \<Rightarrow> bool
    \<Rightarrow> compose_err + (string \<times> port_change list)" where
  "BindPorts unm mar text bind force =
     (case parse_addr bind of
        None \<Rightarrow> Inl (ComposeSpecBad ''compose.bind'' bind)
      | Some addr \<Rightarrow>
          if is_unspecified addr \<and> \<not> force then Inr (text, [])
          else case unm text of
            Inl e \<Rightarrow> Inl (ComposeYAML e)
          | Inr doc \<Rightarrow>
              (case doc_root doc of None \<Rightarrow> Inr (text, [])
               | Some tree \<Rightarrow> (case services_of tree of None \<Rightarrow> Inr (text, [])
                  | Some services \<Rightarrow>
                      (let (c, chs, touched) = bind_services addr force (y_content services);
                           chs = sort_key pc_service chs
                       in if \<not> touched then Inr (text, chs)
                          else case mar (put_services c doc) of Inl e \<Rightarrow> Inl (MarshalError e) | Inr out \<Rightarrow> Inr (out, chs)))))"

section \<open>Conflicts inside a stack\<close>

record port_pub =
  pp_service :: string
  pp_addr :: string
  pp_proto :: string
  pp_port :: int

record port_conflict =
  cf_port :: int
  cf_proto :: string
  cf_a :: string
  cf_b :: string

definition pub_str :: "port_pub \<Rightarrow> string" where
  "pub_str p = pp_service p @ '' '' @ (if pp_addr p = [] then ''0.0.0.0'' else pp_addr p) @ '':'' @ itoa (pp_port p)"

definition trim_brackets :: "string \<Rightarrow> string" where
  "trim_brackets a = (let br = (\<lambda>c. c = CHR ''['' \<or> c = CHR '']'') in rev (dropWhile br (rev (dropWhile br a))))"

definition wildAddr :: "string \<Rightarrow> bool" where
  "wildAddr a \<longleftrightarrow> trim_brackets a \<in> {[], ''0.0.0.0'', ''::'', ''*''}"

text \<open>\<open>eqf\<close> is \<open>strings.EqualFold\<close> of two texts that are not addresses.\<close>

definition sameAddr :: "(string \<Rightarrow> string \<Rightarrow> bool) \<Rightarrow> string \<Rightarrow> string \<Rightarrow> bool" where
  "sameAddr eqf a b =
     (case (parse_addr (trim_brackets a), parse_addr (trim_brackets b)) of
        (Some x, Some y) \<Rightarrow> unmap x = unmap y
      | _ \<Rightarrow> eqf (trim_brackets a) (trim_brackets b))"

definition shortPub :: "(string \<Rightarrow> string) \<Rightarrow> string \<Rightarrow> string \<Rightarrow> port_pub option" where
  "shortPub ulow service p =
     (if contains p ''$'' then None
      else case splitPortAddr p of
        None \<Rightarrow> None
      | Some (addr, rest) \<Rightarrow>
          (let slash = contains rest ''/'';
               proto = (if slash then to_lower ulow (drop 1 (dropWhile (\<lambda>c. c \<noteq> CHR ''/'') rest)) else ''tcp'');
               rest = before_slash rest;
               (host, _, found) = cut rest '':'';
               (port, ok) = atoi host
           in if \<not> found \<or> host = [] \<or> contains host ''-'' then None
              else if \<not> ok \<or> port \<le> 0 then None
              else Some \<lparr>pp_service = service, pp_addr = addr, pp_proto = proto, pp_port = port\<rparr>))"

definition longPub :: "(string \<Rightarrow> string) \<Rightarrow> string \<Rightarrow> ynode \<Rightarrow> port_pub option" where
  "longPub ulow service p =
     (case mapValue (Some p) ''published'' of
        None \<Rightarrow> None
      | Some pub \<Rightarrow>
         (case atoi (trim_space (y_value pub)) of (port, ok) \<Rightarrow>
            if \<not> ok \<or> port \<le> 0 then None
            else Some \<lparr>pp_service = service, pp_addr = (case mapValue (Some p) ''host_ip'' of Some n \<Rightarrow> y_value n | None \<Rightarrow> []),
                  pp_proto = (case mapValue (Some p) ''protocol'' of Some n \<Rightarrow> if y_value n = [] then ''tcp'' else to_lower ulow (y_value n) | None \<Rightarrow> ''tcp''),
                  pp_port = port\<rparr>))"

definition entry_pub :: "(string \<Rightarrow> string) \<Rightarrow> string \<Rightarrow> ynode \<Rightarrow> port_pub option" where
  "entry_pub ulow service p =
     (case y_kind p of ScalarNode \<Rightarrow> shortPub ulow service (y_value p) | MappingNode \<Rightarrow> longPub ulow service p | _ \<Rightarrow> None)"

fun stack_pubs :: "(string \<Rightarrow> string) \<Rightarrow> ynode list \<Rightarrow> port_pub list" where
  "stack_pubs ulow (k # svc # rest) =
     (case ports_of svc of None \<Rightarrow> [] | Some ps \<Rightarrow> List.map_filter (entry_pub ulow (y_value k)) ps) @ stack_pubs ulow rest"
| "stack_pubs ulow c = []"

definition clash :: "(string \<Rightarrow> string \<Rightarrow> bool) \<Rightarrow> port_pub \<Rightarrow> port_pub \<Rightarrow> bool" where
  "clash eqf a b \<longleftrightarrow> pp_port a = pp_port b \<and> pp_proto a = pp_proto b
     \<and> (wildAddr (pp_addr a) \<or> wildAddr (pp_addr b) \<or> sameAddr eqf (pp_addr a) (pp_addr b))"

fun pair_conflicts :: "(string \<Rightarrow> string \<Rightarrow> bool) \<Rightarrow> port_pub list \<Rightarrow> port_conflict list" where
  "pair_conflicts eqf [] = []"
| "pair_conflicts eqf (a # ps) =
     map (\<lambda>b. \<lparr>cf_port = pp_port a, cf_proto = pp_proto a, cf_a = pub_str a, cf_b = pub_str b\<rparr>) (filter (clash eqf a) ps)
       @ pair_conflicts eqf ps"

definition PortConflicts :: "(string \<Rightarrow> string + ynode) \<Rightarrow> (string \<Rightarrow> string) \<Rightarrow> (string \<Rightarrow> string \<Rightarrow> bool) \<Rightarrow> string \<Rightarrow> port_conflict list" where
  "PortConflicts unm ulow eqf text =
     (case unm text of
        Inl _ \<Rightarrow> []
      | Inr doc \<Rightarrow> (case doc_root doc of None \<Rightarrow> []
          | Some tree \<Rightarrow> (case services_of tree of None \<Rightarrow> []
              | Some services \<Rightarrow> sort_key cf_port (pair_conflicts eqf (stack_pubs ulow (y_content services))))))"

section \<open>Images, ports and environment put into the copy\<close>

fun filter_pairs :: "(string \<Rightarrow> bool) \<Rightarrow> ynode list \<Rightarrow> ynode list" where
  "filter_pairs P (k # v # rest) = (if P (y_value k) then k # v # filter_pairs P rest else filter_pairs P rest)"
| "filter_pairs P _ = []"

text \<open>The last value of a key, and changing it in place.\<close>

fun last_value :: "string \<Rightarrow> ynode list \<Rightarrow> ynode option" where
  "last_value key (k # v # rest) =
     (case last_value key rest of Some x \<Rightarrow> Some x | None \<Rightarrow> if y_value k = key then Some v else None)"
| "last_value key _ = None"

fun set_last :: "string \<Rightarrow> (ynode \<Rightarrow> ynode) \<Rightarrow> ynode list \<Rightarrow> ynode list" where
  "set_last key f (k # v # rest) =
     (if last_value key rest = None \<and> y_value k = key then k # f v # rest else k # v # set_last key f rest)"
| "set_last key f c = c"

definition env_ref :: "string \<Rightarrow> string" where
  "env_ref k = ''${'' @ k @ ''}''"

fun set_all :: "string \<Rightarrow> ynode \<Rightarrow> ynode list \<Rightarrow> ynode list" where
  "set_all key x (k # v # rest) = k # (if y_value k = key then x else v) # set_all key x rest"
| "set_all key x c = c"

definition env_map_ref :: "string \<Rightarrow> ynode list \<Rightarrow> ynode list" where
  "env_map_ref k c = (if map_value_in c k = None then c @ [str_node k, quoted_node (env_ref k)]
     else set_all k (quoted_node (env_ref k)) c)"

definition env_item_is :: "string \<Rightarrow> ynode \<Rightarrow> bool" where
  "env_item_is k item \<longleftrightarrow> fst (cut (y_value item) ''='') = k"

definition env_seq_ref :: "string \<Rightarrow> ynode list \<Rightarrow> ynode list" where
  "env_seq_ref k c =
     (let v = k @ ''='' @ env_ref k in
      if \<exists>item \<in> set c. env_item_is k item
      then map (\<lambda>item. if env_item_is k item then YNode (y_kind item) (y_tag item) True v (y_content item) else item) c
      else c @ [quoted_node v])"

definition env_refs :: "string list \<Rightarrow> ynode \<Rightarrow> ynode" where
  "env_refs keys env =
     set_content (fold (if y_kind env = MappingNode then env_map_ref else env_seq_ref) keys (y_content env)) env"

definition withEnvRefs :: "ynode list \<Rightarrow> string list \<Rightarrow> ynode list" where
  "withEnvRefs content keys =
     (case last_value ''environment'' content of
        Some env \<Rightarrow>
          if y_kind env = MappingNode \<or> y_kind env = SequenceNode then set_last ''environment'' (env_refs keys) content
          else filter_pairs (\<lambda>k. k \<noteq> ''environment'') content @ [str_node ''environment'', env_refs keys (map_node [])]
      | None \<Rightarrow> filter_pairs (\<lambda>k. k \<noteq> ''environment'') content @ [str_node ''environment'', env_refs keys (map_node [])])"

definition override_service :: "string option \<Rightarrow> string list option \<Rightarrow> string list \<Rightarrow> ynode \<Rightarrow> ynode" where
  "override_service img ports keys svc =
     (let kept = filter_pairs (\<lambda>k. \<not> (img \<noteq> None \<and> k \<in> {''build'', ''image'', ''pull_policy''}) \<and> \<not> (ports \<noteq> None \<and> k = ''ports'')) (y_content svc);
          kept = (case ports of Some l \<Rightarrow> if l = [] then kept
                    else kept @ [str_node ''ports'', YNode SequenceNode ''!!seq'' False [] (map quoted_node l)] | None \<Rightarrow> kept);
          kept = (if keys \<noteq> [] then withEnvRefs kept keys else kept)
      in set_content (case img of Some i \<Rightarrow> [YNode ScalarNode ''!!str'' False ''image'' [], str_node i, str_node ''pull_policy'', str_node ''always''] @ kept
           | None \<Rightarrow> kept) svc)"

fun override_all :: "string strmap \<Rightarrow> (string list) strmap \<Rightarrow> (string list) strmap \<Rightarrow> string list \<Rightarrow> ynode list \<Rightarrow> compose_err + ynode list" where
  "override_all images ports envs [] c = Inr c"
| "override_all images ports envs (n # ns) c =
     (case map_value_in c n of
        Some svc \<Rightarrow>
          if y_kind svc = MappingNode
          then override_all images ports envs ns
                 (set_first n (override_service (lookup images n) (lookup ports n) (case lookup envs n of Some l \<Rightarrow> l | None \<Rightarrow> [])) c)
          else Inl (ImageServiceMissing n)
      | None \<Rightarrow> Inl (ImageServiceMissing n))"

text \<open>The names in the order the code takes them: images sorted, then the others in map order.\<close>

definition override_names :: "string strmap \<Rightarrow> (string list) strmap \<Rightarrow> (string list) strmap \<Rightarrow> string list" where
  "override_names images ports envs = sort (map fst images)
     @ filter (\<lambda>n. lookup images n = None) (map fst ports)
     @ filter (\<lambda>n. lookup images n = None \<and> lookup ports n = None) (map fst envs)"

definition OverrideServices ::
  "(string \<Rightarrow> string + ynode) \<Rightarrow> (ynode \<Rightarrow> string + string) \<Rightarrow> string \<Rightarrow> string strmap \<Rightarrow> (string list) strmap \<Rightarrow> (string list) strmap
     \<Rightarrow> compose_err + string" where
  "OverrideServices unm mar text images ports envs =
     (if images = [] \<and> ports = [] \<and> envs = [] then Inr text
      else case unm text of
        Inl e \<Rightarrow> Inl (ComposeYAML e)
      | Inr doc \<Rightarrow> (case doc_root doc of None \<Rightarrow> Inl (ComposeYAML ''not a mapping'')
          | Some tree \<Rightarrow>
             (let names = override_names images ports envs in
              case services_of tree of None \<Rightarrow> Inl (ImageServiceMissing (join '', '' names))
              | Some services \<Rightarrow>
                 (case override_all images ports envs names (y_content services) of
                    Inl e \<Rightarrow> Inl e
                  | Inr c \<Rightarrow> (case mar (put_services c doc) of Inl e \<Rightarrow> Inl (MarshalError e) | Inr out \<Rightarrow> Inr out)))))"

end
