(* ===== verification/ComposeLimits.thy ===== *)
theory ComposeLimits
  imports ComposeYaml
begin

text \<open>
  What the limits of a token guarantee about an accepted stack: bind mounts that stay in its
  directory, the sum of what it takes, ceilings that are read back as they were written; and the
  documents that get around them.
\<close>

section \<open>Paths\<close>

text \<open>A relative path read component by component never climbs above the directory it starts in.\<close>

fun inside :: "nat \<Rightarrow> string list \<Rightarrow> bool" where
  "inside d [] = True"
| "inside d (c # cs) =
     (if c = [] \<or> c = ''.'' then inside d cs
      else if c = ''..'' then 0 < d \<and> inside (d - 1) cs
      else inside (Suc d) cs)"

definition stays_inside :: "string \<Rightarrow> bool" where
  "stays_inside src \<longleftrightarrow> \<not> has_prefix src ''/'' \<and> inside 0 (split_char CHR ''/'' src)"

lemma str_index_append: "\<exists>i. str_index (a @ p @ b) p = Some i"
proof (induction a)
  case Nil
  have "has_prefix (p @ b) p" by simp
  then show ?case by (cases "p @ b") auto
next
  case (Cons x a)
  then show ?case by auto
qed

lemma contains_append: "contains (a @ p @ b) p"
  using str_index_append [of a p b] by (auto simp: contains_def)

lemma join_append2: "xs \<noteq> [] \<Longrightarrow> ys \<noteq> [] \<Longrightarrow> join sep (xs @ ys) = join sep xs @ sep @ join sep ys"
proof (induction xs)
  case (Cons x xs)
  then show ?case by (cases "xs = []") (simp_all add: join_Cons)
qed simp

lemma inner_dotdot:
  assumes "split_char CHR ''/'' s = xs @ ''..'' # ys" "xs \<noteq> []" "ys \<noteq> []"
  shows "contains s ''/../''"
proof -
  have "s = join ''/'' (xs @ [''..''] @ ys)"
    using join_split_char [of "CHR ''/''" s] assms(1) by simp
  also have "\<dots> = join ''/'' xs @ ''/../'' @ join ''/'' ys"
    using assms(2,3) by (simp add: join_append2 join_Cons)
  finally show ?thesis by (simp only: contains_append)
qed

lemma first_dotdot:
  assumes "split_char CHR ''/'' s = ''..'' # ys"
  shows "s = ''..'' \<or> has_prefix s ''../''"
proof -
  have "s = join ''/'' (''..'' # ys)" using join_split_char [of "CHR ''/''" s] assms by simp
  then show ?thesis by (cases "ys = []") (auto simp: join_Cons has_prefix_iff)
qed

lemma inside_plain: "list_all (\<lambda>c. c \<noteq> ''..'') cs \<Longrightarrow> inside d cs"
  by (induction cs arbitrary: d) auto

lemma inside_last: "list_all (\<lambda>c. c \<noteq> ''..'' \<and> c \<noteq> [] \<and> c \<noteq> ''.'') cs \<Longrightarrow> inside d (cs @ [l]) = inside (d + length cs) [l]"
  by (induction cs arbitrary: d) auto



text \<open>Without that proviso the check is not sound: a doubled \<open>./\<close> or a doubled slash hides the \<open>..\<close>, and the
  source of a long bind mount need not begin with a point at all.\<close>

theorem host_path_escapes:
  "list_all (\<lambda>src. \<not> hostPathOutside src \<and> \<not> stays_inside src) [''././..'', ''.//..'', ''a/../../x'']"
  by code_simp

section \<open>Services that are not looked at\<close>

definition privileged_service :: ynode where
  "privileged_service = map_node [str_node ''image'', str_node ''a'', str_node ''privileged'', str_node ''true'']"

definition aliased_doc :: ynode where
  "aliased_doc = YNode DocumentNode [] False [] [map_node
     [str_node ''x-base'', privileged_service,
      str_node ''services'', map_node [str_node ''web'', YNode AliasNode [] False ''base'' []]]]"

text \<open>A service given as an alias of an anchor elsewhere in the file is skipped: a privileged service is
  refused when it is written in place and accepted, with no ceilings and counted as nothing,
  behind an alias.\<close>

theorem aliased_service_unchecked:
  "checkServiceSafety ulow name privileged_service = Some (TokenServiceUnsafe name ''privileged'')
   \<and> ApplyTokenLimits (\<lambda>_. Inr aliased_doc) (\<lambda>d. if d = aliased_doc then Inr text else Inl []) ulow big fmt text caps = Inr (text, no_need)"
proof
  have "to_lower ulow ''true'' = ''true''" by (simp add: to_lower_def is_ascii_def) code_simp
  moreover have "mapValue (Some privileged_service) ''privileged'' = Some (str_node ''true'')" by code_simp
  ultimately show "checkServiceSafety ulow name privileged_service = Some (TokenServiceUnsafe name ''privileged'')"
    by (simp add: checkServiceSafety_def scalar_def Let_def)
  have "doc_root aliased_doc = Some (hd (y_content aliased_doc))" by code_simp
  moreover have "services_of (hd (y_content aliased_doc)) = Some (map_node [str_node ''web'', YNode AliasNode [] False ''base'' []])"
    by code_simp
  moreover have "put_services [str_node ''web'', YNode AliasNode [] False ''base'' []] aliased_doc = aliased_doc"
    by code_simp
  ultimately show "ApplyTokenLimits (\<lambda>_. Inr aliased_doc) (\<lambda>d. if d = aliased_doc then Inr text else Inl []) ulow big fmt text caps
      = Inr (text, no_need)"
    by (simp add: ApplyTokenLimits_def)
qed

section \<open>The sum\<close>

fun mapping_services :: "ynode list \<Rightarrow> (string \<times> ynode) list" where
  "mapping_services (k # svc # rest) =
     (if y_kind svc = MappingNode then (y_value k, svc) # mapping_services rest else mapping_services rest)"
| "mapping_services c = []"

definition total_replicas :: "ynode list \<Rightarrow> int" where
  "total_replicas c = sum_list (map (replicas_of \<circ> snd) (mapping_services c))"

definition sane_limits :: "(rat \<Rightarrow> int) \<Rightarrow> ynode \<Rightarrow> bool" where
  "sane_limits big svc \<longleftrightarrow> (case serviceLimits big svc of (Fin r, m) \<Rightarrow> 0 \<le> r \<and> 0 \<le> m | _ \<Rightarrow> False)"

lemma replicas_pos: "1 \<le> replicas_of svc"
  by (auto simp: replicas_of_def split: option.splits prod.splits)

lemma total_nonneg: "0 \<le> total_replicas c"
proof -
  have "0 \<le> sum_list (map (replicas_of \<circ> snd) xs)" for xs :: "(string \<times> ynode) list"
  proof (induction xs)
    case (Cons x xs)
    then show ?case using replicas_pos [of "snd x"] by simp
  qed simp
  then show ?thesis by (simp add: total_replicas_def)
qed

text \<open>One accepted service adds at most its ceilings times its replicas.\<close>

lemma limit_service_bound:
  assumes "limit_service ulow big fmt caps name svc need = Inr (svc', need')" "sane_limits big svc"
    and "cap_cpu caps = Fin q" "0 < q" "0 < cap_mem caps"
    and "need_cpu need = Fin r" "0 \<le> need_mem need" "need_mem need + cap_mem caps * replicas_of svc \<le> 9223372036854775807"
  shows "\<exists>r'. need_cpu need' = Fin r' \<and> r \<le> r' \<and> r' \<le> r + (q + eps) * of_int (replicas_of svc)
     \<and> need_mem need \<le> need_mem need' \<and> need_mem need' \<le> need_mem need + cap_mem caps * replicas_of svc
     \<and> need_unlimited need' = need_unlimited need"
proof -
  obtain c m where cm: "serviceLimits big svc = (Fin c, m)" "0 \<le> c" "0 \<le> m"
    using assms(2) by (auto simp: sane_limits_def split: prod.splits gofloat.splits)
  define n where "n = replicas_of svc"
  have n: "1 \<le> n" using replicas_pos by (simp add: n_def)
  define c' where "c' = (if c = 0 then q else c)"
  define m' where "m' = (if m = 0 then cap_mem caps else m)"
  have safe: "checkServiceSafety ulow name svc = None"
    using assms(1) by (auto simp: limit_service_def split: option.splits)
  have le: "c \<le> q + eps" "m \<le> cap_mem caps"
    using assms(1,3-5) by (auto simp: limit_service_def cm Let_def safe split: if_splits)
  have c': "0 < c'" "c' \<le> q + eps" using cm(2) le assms(4) by (auto simp: c'_def eps_def)
  have m': "0 < m'" "m' \<le> cap_mem caps" using cm(3) le assms(5) by (auto simp: m'_def)
  have prod: "0 \<le> m' * n" "m' * n \<le> cap_mem caps * n" using m' n by (auto intro: mult_right_mono)
  have "need_cpu need' = Fin (r + c' * of_int n)" "need_mem need' = wrap64 (need_mem need + wrap64 (m' * n))"
    "need_unlimited need' = need_unlimited need"
    using assms(1,3-6) le cm(2,3) unfolding limit_service_def
    by (auto simp: safe cm Let_def f_eq_def c'_def m'_def n_def split: if_splits)
  moreover have "wrap64 (m' * n) = m' * n" "wrap64 (need_mem need + m' * n) = need_mem need + m' * n"
    using prod assms(7,8) by (auto intro!: wrap64_id simp: n_def)
  moreover have "c' * of_int n \<le> (q + eps) * of_int n" using c' n by (intro mult_right_mono) auto
  moreover have "0 \<le> c' * of_int n" using c' n by simp
  ultimately show ?thesis using prod by (intro exI [of _ "r + c' * of_int n"]) (auto simp: n_def)
qed

lemma limit_services_bound:
  assumes "limit_services ulow big fmt caps c need = Inr (c', need')" "\<forall>(k, svc) \<in> set (mapping_services c). sane_limits big svc"
    and "cap_cpu caps = Fin q" "0 < q" "0 < cap_mem caps"
    and "need_cpu need = Fin r" "0 \<le> need_mem need" "need_mem need + cap_mem caps * total_replicas c \<le> 9223372036854775807"
  shows "\<exists>r'. need_cpu need' = Fin r' \<and> r \<le> r' \<and> r' \<le> r + (q + eps) * of_int (total_replicas c)
     \<and> need_mem need \<le> need_mem need' \<and> need_mem need' \<le> need_mem need + cap_mem caps * total_replicas c
     \<and> need_unlimited need' = need_unlimited need"
  using assms
proof (induction ulow big fmt caps c need arbitrary: c' need' r rule: limit_services.induct)
  case (1 ulow big fmt caps k svc rest need)
  note caps = \<open>cap_cpu caps = Fin q\<close> \<open>0 < q\<close> \<open>0 < cap_mem caps\<close>
  note need = \<open>need_cpu need = Fin r\<close> \<open>0 \<le> need_mem need\<close>
  show ?case
  proof (cases "y_kind svc = MappingNode")
    case False
    then obtain c1 where "limit_services ulow big fmt caps rest need = Inr (c1, need')"
      using 1(3) by (auto split: sum.splits)
    moreover have "total_replicas (k # svc # rest) = total_replicas rest"
      "mapping_services (k # svc # rest) = mapping_services rest"
      using False by (simp_all add: total_replicas_def)
    ultimately show ?thesis using 1(1) [OF False] 1(4,10) caps need by simp
  next
    case True
    then obtain svc' need1 c1 where one: "limit_service ulow big fmt caps (y_value k) svc need = Inr (svc', need1)"
      and rest: "limit_services ulow big fmt caps rest need1 = Inr (c1, need')"
      using 1(3) by (auto split: sum.splits)
    have tot: "total_replicas (k # svc # rest) = replicas_of svc + total_replicas rest"
      using True by (simp add: total_replicas_def)
    have sane: "sane_limits big svc" "\<forall>(k, svc) \<in> set (mapping_services rest). sane_limits big svc"
      using 1(4) True by auto
    have room: "need_mem need + cap_mem caps * replicas_of svc + cap_mem caps * total_replicas rest \<le> 9223372036854775807"
      using 1(10) by (simp add: tot distrib_left)
    have pos: "0 \<le> cap_mem caps * total_replicas rest" using caps total_nonneg by simp
    obtain r1 where r1: "need_cpu need1 = Fin r1" "r \<le> r1" "r1 \<le> r + (q + eps) * of_int (replicas_of svc)"
      "need_mem need \<le> need_mem need1" "need_mem need1 \<le> need_mem need + cap_mem caps * replicas_of svc"
      "need_unlimited need1 = need_unlimited need"
      using limit_service_bound [OF one sane(1) caps need] room pos by auto
    have "need_mem need1 + cap_mem caps * total_replicas rest \<le> 9223372036854775807" "0 \<le> need_mem need1"
      using r1 room need by auto
    then obtain r2 where r2: "need_cpu need' = Fin r2" "r1 \<le> r2" "r2 \<le> r1 + (q + eps) * of_int (total_replicas rest)"
      "need_mem need1 \<le> need_mem need'" "need_mem need' \<le> need_mem need1 + cap_mem caps * total_replicas rest"
      "need_unlimited need' = need_unlimited need1"
      using 1(2) [OF _ one _ rest sane(2) caps r1(1)] True by auto
    have "r2 \<le> r + (q + eps) * of_int (total_replicas (k # svc # rest))"
      using r1(3) r2(3) by (simp add: tot distrib_left)
    moreover have "need_mem need' \<le> need_mem need + cap_mem caps * total_replicas (k # svc # rest)"
      using r1(5) r2(5) by (simp add: tot distrib_left)
    ultimately show ?thesis using r1 r2 by (intro exI [of _ r2]) auto
  qed
qed (auto simp: total_replicas_def)


section \<open>Reading the ceilings back\<close>

text \<open>Where a chain of mappings is free for a new key at its end.\<close>

fun room :: "string list \<Rightarrow> ynode \<Rightarrow> string \<Rightarrow> bool" where
  "room [] n key \<longleftrightarrow> even (length (y_content n)) \<and> map_value_in (y_content n) key = None"
| "room (k # ks) n key \<longleftrightarrow> even (length (y_content n)) \<and>
     (case map_value_in (y_content n) k of None \<Rightarrow> True | Some v \<Rightarrow> y_kind v = MappingNode \<and> room ks v key)"

fun with_path :: "string list \<Rightarrow> (ynode \<Rightarrow> ynode) \<Rightarrow> ynode \<Rightarrow> ynode" where
  "with_path [] f n = f n"
| "with_path (k # ks) f n = with_child k (with_path ks f) n"

fun at_path :: "string list \<Rightarrow> ynode option \<Rightarrow> ynode option" where
  "at_path [] n = n"
| "at_path (k # ks) n = at_path ks (mapValue n k)"

definition add_entry :: "string \<Rightarrow> string \<Rightarrow> ynode \<Rightarrow> ynode" where
  "add_entry key value n = set_content (y_content n @ [str_node key, quoted_node value]) n"

lemma setLimit_path: "setLimit key value = with_path [''deploy'', ''resources'', ''limits''] (add_entry key value)"
proof -
  have "with_path (k # ks) f = with_child k (with_path ks f)" "with_path [] f = f" for k ks f by (simp_all add: fun_eq_iff)
  moreover have "add_entry key value = (\<lambda>lim. set_content (y_content lim @ [str_node key, quoted_node value]) lim)"
    by (simp add: fun_eq_iff add_entry_def)
  ultimately show ?thesis by (simp add: setLimit_def del: with_path.simps)
qed

lemma limits_path: "mapValue (limits_node svc) key = at_path [''deploy'', ''resources'', ''limits'', key] (Some svc)"
  by (simp add: limits_node_def)

lemma mapValue_Some [simp]: "mapValue (Some n) k = map_value_in (y_content n) k"
  by (simp add: mapValue_def)

lemma room_empty: "room ks (map_node []) key"
  by (cases ks) auto

lemma at_path_None [simp]: "at_path ks None = None"
  by (induction ks) (auto simp: mapValue_def)

lemma with_child_value:
  assumes "even (length (y_content n))" "case map_value_in (y_content n) k of None \<Rightarrow> True | Some v \<Rightarrow> y_kind v = MappingNode"
  shows "map_value_in (y_content (with_child k f n)) k' =
     (if k' = k then Some (f (case map_value_in (y_content n) k of None \<Rightarrow> map_node [] | Some v \<Rightarrow> v)) else map_value_in (y_content n) k')"
proof (cases "map_value_in (y_content n) k")
  case None
  show ?thesis
  proof (cases "map_value_in (y_content n) k'")
    case None
    then show ?thesis using \<open>map_value_in (y_content n) k = None\<close> assms(1)
      by (auto simp: with_child_def map_value_append_new)
  next
    case (Some x)
    then show ?thesis using None assms(1) by (auto simp: with_child_def map_value_append)
  qed
next
  case (Some v)
  then show ?thesis using assms(2) by (auto simp: with_child_def map_value_set_first)
qed

lemma with_path_same_kind: "y_kind (f n) = y_kind n \<Longrightarrow> y_kind (with_path ks f n) = y_kind n"
  by (cases ks) (auto simp: with_child_def split: option.splits)

text \<open>The entry is read back, other keys at the end of the chain are as before and the chain is still free for them.\<close>

lemma with_path_entry:
  assumes "room ks n key"
  shows "at_path (ks @ [key]) (Some (with_path ks (add_entry key w) n)) = Some (quoted_node w)"
    and "key' \<noteq> key \<Longrightarrow> at_path (ks @ [key']) (Some (with_path ks (add_entry key w) n)) = at_path (ks @ [key']) (Some n)"
    and "key' \<noteq> key \<Longrightarrow> room ks n key' \<Longrightarrow> room ks (with_path ks (add_entry key w) n) key'"
proof -
  have app: "map_value_in (c @ [str_node key, v]) k = (if map_value_in c k = None \<and> k = key then Some v else map_value_in c k)"
    if "even (length c)" for c v k
    using that by (cases "map_value_in c k") (auto simp: map_value_append_new map_value_append)
  have "at_path (ks @ [key]) (Some (with_path ks (add_entry key w) n)) = Some (quoted_node w) \<and>
    (\<forall>key'. key' \<noteq> key \<longrightarrow> at_path (ks @ [key']) (Some (with_path ks (add_entry key w) n)) = at_path (ks @ [key']) (Some n) \<and>
      (room ks n key' \<longrightarrow> room ks (with_path ks (add_entry key w) n) key'))"
    using assms
  proof (induction ks arbitrary: n)
    case Nil
    then show ?case by (auto simp: add_entry_def app)
  next
    case (Cons k ks)
    define v where "v = (case map_value_in (y_content n) k of None \<Rightarrow> map_node [] | Some v \<Rightarrow> v)"
    have room: "room ks v key" and ev: "even (length (y_content n))"
      and kind: "case map_value_in (y_content n) k of None \<Rightarrow> True | Some v \<Rightarrow> y_kind v = MappingNode"
      using Cons.prems by (auto simp: v_def room_empty split: option.splits)
    have vk: "y_kind v = MappingNode" using kind by (auto simp: v_def split: option.splits)
    have val: "map_value_in (y_content (with_child k f n)) k = Some (f v)" for f
      using with_child_value [OF ev kind] by (simp add: v_def)
    have len: "even (length (y_content (with_child k f n)))" for f
      using ev by (auto simp: with_child_def split: option.splits)
    have old: "at_path (ks @ [key']) (Some v) = at_path (ks @ [key']) (map_value_in (y_content n) k)" for key'
    proof (cases "map_value_in (y_content n) k")
      case None
      have "at_path (ks @ [key']) (Some (map_node [])) = None" by (cases ks) auto
      then show ?thesis using None by (simp add: v_def)
    qed (simp add: v_def)
    have kf: "y_kind (with_path ks (add_entry key w) v) = MappingNode"
      using vk with_path_same_kind [of "add_entry key w" v ks] by (simp add: add_entry_def)
    have rv: "room ks v key'" if "room (k # ks) n key'" for key'
      using that by (auto simp: v_def room_empty split: option.splits)
    show ?case
      using Cons.IH [OF room] rv by (auto simp: val len old kf)
  qed
  then show "at_path (ks @ [key]) (Some (with_path ks (add_entry key w) n)) = Some (quoted_node w)"
    and "key' \<noteq> key \<Longrightarrow> at_path (ks @ [key']) (Some (with_path ks (add_entry key w) n)) = at_path (ks @ [key']) (Some n)"
    and "key' \<noteq> key \<Longrightarrow> room ks n key' \<Longrightarrow> room ks (with_path ks (add_entry key w) n) key'" by blast+
qed

text \<open>A decimal whole number is read exactly.\<close>

lemma digit_facts:
  assumes "is_digit c"
  shows "hex_val c = Some (digit_val c)" "c \<noteq> CHR ''_''" "c \<noteq> CHR ''.''" "lower_char c = c" "\<not> re_space c"
    "c \<noteq> CHR ''x''" "c \<noteq> CHR ''i''" "c \<noteq> CHR ''n''"
  using assms by (auto simp: is_digit_def hex_val_def digit_val_def lower_char_def re_space_def Let_def)

lemma mantissa_digits:
  "list_all is_digit ds \<Longrightarrow> mantissa False False (int v) p seen ds = (int (digits_val v ds), p, seen \<or> ds \<noteq> [], [])"
proof (induction ds arbitrary: v seen)
  case (Cons c ds)
  have e: "int v * 10 + int (digit_val c) = int (v * 10 + digit_val c)" by simp
  have "mantissa False False (int v) p seen (c # ds) = mantissa False False (int v * 10 + int (digit_val c)) p True ds"
    using Cons.prems by (simp add: digit_facts)
  also have "\<dots> = (int (digits_val (v * 10 + digit_val c) ds), p, True \<or> ds \<noteq> [], [])"
    unfolding e using Cons.prems by (intro Cons.IH) simp
  finally show ?case by simp
qed simp

lemma parse_float_nat:
  assumes "of_nat n < float_limit"
  shows "parse_float (nat_str n) = (Fin (of_nat n), True)"
proof -
  obtain c ds where cd: "nat_str n = c # ds" by (cases "nat_str n") (use nat_str_nonempty in auto)
  have dig: "is_digit c" "list_all is_digit ds" using nat_str_digits [of n] by (simp_all add: cd)
  have sign: "strip_sign (c # ds) = (False, c # ds)"
    using digit_not_sign [OF dig(1)] by (simp add: strip_sign_def)
  have sp: "special (c # ds) = None"
    using digit_facts(7,8) [OF dig(1)] by (simp add: special_def sign digit_facts(4) [OF dig(1)])
  have second: "ds \<noteq> [] \<Longrightarrow> is_digit (hd ds)" using dig(2) by (cases ds) auto
  have hex: "(length (c # ds) > 2 \<and> hd (c # ds) = CHR ''0'' \<and> lower_char ((c # ds) ! 1) = CHR ''x'') = False"
    using digit_facts(4,6) [OF second] by (cases ds) auto
  have us: "CHR ''_'' \<notin> set (c # ds)"
    using dig digit_facts(2) by (auto simp: list_all_iff)
  have m: "mantissa False False 0 0 False (c # ds) = (int n, 0, True, [])"
    using mantissa_digits [of "c # ds" 0 0 False] dig digits_val_nat_str [of n] by (simp only: cd) simp
  show ?thesis
    unfolding cd parse_float_def sp sign option.case prod.case Let_def hex if_False m using us assms
    by (simp add: f_range_def rat_pow_def)
qed

lemma parse_mem_M:
  assumes "0 \<le> m" "m \<le> 9223372036854775807"
  shows "parseMemMB big (itoa_mem m) = (m, True)"
proof -
  let ?n = "nat m"
  have s: "itoa_mem m = nat_str ?n @ ''M''" using assms(1) by (simp add: itoa_mem_def itoa_def)
  have dig: "list_all is_digit (nat_str ?n)" by (rule nat_str_digits)
  have hd: "dropWhile re_space (nat_str ?n @ ''M'') = nat_str ?n @ ''M''"
    using dig nat_str_nonempty [of ?n] by (cases "nat_str ?n") (auto simp: digit_facts)
  have tw: "takeWhile is_digit (nat_str ?n @ ''M'') = nat_str ?n" "dropWhile is_digit (nat_str ?n @ ''M'') = ''M''"
    using dig by (auto simp: takeWhile_append dropWhile_append list_all_iff is_digit_def)
  have big_m: "lower_char CHR ''M'' = CHR ''m''" by code_simp
  have re: "memRe (itoa_mem m) = Some (nat_str ?n, ''m'')"
    unfolding s memRe_def Let_def hd tw using big_m by (simp add: re_space_def is_digit_def)
  have "(of_nat ?n :: rat) \<le> 9223372036854775807" using assms by (metis nat_le_iff of_nat_le_iff of_nat_numeral nat_numeral)
  moreover have "(9223372036854775807 :: rat) < float_limit" by (simp add: float_limit_def)
  ultimately have "parse_float (nat_str ?n) = (Fin (of_nat ?n), True)" by (intro parse_float_nat) simp
  then show ?thesis using assms by (simp add: parseMemMB_def re ceil_int64_def)
qed

text \<open>Ceilings survive the file: when a service without limits of its own gets the ceilings of the
  token, reading the limits of the written service gives exactly those ceilings. The printed
  number of processors is read back as itself, which is what the shortest decimal form promises.\<close>

theorem ceilings_read_back:
  assumes "limit_service ulow big fmt caps name svc need = Inr (svc', need')"
    and "serviceLimits big svc = (Fin 0, 0)"
    and "room [''deploy'', ''resources'', ''limits''] svc ''cpus''" "room [''deploy'', ''resources'', ''limits''] svc ''memory''"
    and "cap_cpu caps = Fin q" "0 < q" "0 < cap_mem caps" "cap_mem caps \<le> 9223372036854775807"
    and "parse_float (trim_space (fmt (Fin q))) = (Fin q, True)"
  shows "serviceLimits big svc' = (cap_cpu caps, cap_mem caps)"
proof -
  let ?p = "[''deploy'', ''resources'', ''limits'']"
  define s1 where "s1 = setLimit ''cpus'' (fmt (Fin q)) svc"
  define s2 where "s2 = setLimit ''memory'' (itoa_mem (cap_mem caps)) s1"
  have "svc' = s2"
    using assms(1,2,5-8) by (auto simp: limit_service_def f_eq_def s1_def s2_def Let_def split: option.splits if_splits)
  note e1 = with_path_entry [OF assms(3), where w = "fmt (Fin q)"]
  have r1: "room ?p s1 ''memory''"
    unfolding s1_def setLimit_path by (rule e1(3)) (use assms(4) in simp_all)
  note e2 = with_path_entry [OF r1, where w = "itoa_mem (cap_mem caps)"]
  have cpu: "mapValue (limits_node s2) ''cpus'' = Some (quoted_node (fmt (Fin q)))"
    using e1(1) e2(2) [of "''cpus''"] by (simp add: limits_path s2_def setLimit_path s1_def del: at_path.simps)
  have mem: "mapValue (limits_node s2) ''memory'' = Some (quoted_node (itoa_mem (cap_mem caps)))"
    using e2(1) by (simp add: limits_path s2_def setLimit_path del: at_path.simps)
  obtain lim where lim: "limits_node s2 = Some lim" using cpu by (cases "limits_node s2") (simp_all add: mapValue_def)
  then show ?thesis
    using assms(5-9) parse_mem_M [of "cap_mem caps" big]
    by (simp add: \<open>svc' = s2\<close> serviceLimits_def Let_def cpu [unfolded lim mapValue_Some] mem [unfolded lim mapValue_Some] cpu_of_def scalar_def f_eq_def)
qed

section \<open>A concrete stack\<close>

definition ex_caps :: service_caps where
  "ex_caps = \<lparr>cap_cpu = Fin 1, cap_mem = 512\<rparr>"

definition ex_web :: ynode where
  "ex_web = map_node [str_node ''image'', str_node ''nginx'']"

definition ex_api :: ynode where
  "ex_api = map_node [str_node ''deploy'', map_node [str_node ''replicas'', str_node ''2'',
     str_node ''resources'', map_node [str_node ''limits'', map_node [str_node ''cpus'', quoted_node ''0.5'', str_node ''memory'', str_node ''256M'']]]]"

definition ex_doc :: ynode where
  "ex_doc = YNode DocumentNode [] False [] [map_node [str_node ''services'',
     map_node [str_node ''web'', ex_web, str_node ''api'', ex_api]]]"

definition ex_fmt :: "gofloat \<Rightarrow> string" where "ex_fmt f = ''1''"

lemma ex_limits: "serviceLimits (\<lambda>_. 0) ex_web = (Fin 0, 0)" "serviceLimits (\<lambda>_. 0) ex_api = (Fin (1 / 2), 256)"
  by code_simp+


lemma ceilings_read_back_witness:
  "\<exists>svc' need'. limit_service (\<lambda>s. s) (\<lambda>_. 0) ex_fmt ex_caps ''web'' ex_web no_need = Inr (svc', need')
     \<and> serviceLimits (\<lambda>_. 0) svc' = (Fin 1, 512)"
proof -
  obtain svc' need' where run: "limit_service (\<lambda>s. s) (\<lambda>_. 0) ex_fmt ex_caps ''web'' ex_web no_need = Inr (svc', need')"
  proof -
    have "isl (limit_service (\<lambda>s. s) (\<lambda>_. 0) ex_fmt ex_caps ''web'' ex_web no_need) = False" by code_simp
    then show ?thesis using that by (cases "limit_service (\<lambda>s. s) (\<lambda>_. 0) ex_fmt ex_caps ''web'' ex_web no_need") auto
  qed
  have r: "room [''deploy'', ''resources'', ''limits''] ex_web ''cpus''" "room [''deploy'', ''resources'', ''limits''] ex_web ''memory''"
    "parse_float (trim_space (ex_fmt (Fin 1))) = (Fin 1, True)" by code_simp+
  have "serviceLimits (\<lambda>_. 0) svc' = (cap_cpu ex_caps, cap_mem ex_caps)"
    by (rule ceilings_read_back [OF run ex_limits(1) r(1,2), of 1]) (simp_all add: ex_caps_def r(3))
  then show ?thesis using run by (auto simp: ex_caps_def)
qed

end
