(* ===== verification/ComposeBound.thy ===== *)
theory ComposeBound
  imports GoNetFacts ComposePorts ComposeLimits
begin

text \<open>After \<open>BindPorts\<close> no publication that can be read is left without an address.\<close>

definition has_address :: "string \<Rightarrow> bool" where
  "has_address p \<longleftrightarrow> contains p ''$'' \<or> (case splitPortAddr p of None \<Rightarrow> True | Some (a, _) \<Rightarrow> a \<noteq> [])"

definition entry_bound :: "ynode \<Rightarrow> bool" where
  "entry_bound p = (case y_kind p of
     ScalarNode \<Rightarrow> has_address (y_value p) | MappingNode \<Rightarrow> mapValue (Some p) ''host_ip'' \<noteq> None | _ \<Rightarrow> True)"

definition entry_wf :: "ynode \<Rightarrow> bool" where
  "entry_wf p \<longleftrightarrow> y_kind p = MappingNode \<longrightarrow> even (length (y_content p))"

section \<open>The texts of addresses\<close>

lemma hex_digit_no_bracket: "n < 16 \<Longrightarrow> hex_digit n \<noteq> CHR '']''"
proof -
  have "list_all (\<lambda>n. hex_digit n \<noteq> CHR '']'') [0..<16]" by code_simp
  then show "n < 16 \<Longrightarrow> hex_digit n \<noteq> CHR '']''" by (simp add: list_all_iff)
qed

lemma hex_str_chars: "CHR '']'' \<notin> set (hex_str n)"
proof (induction n rule: hex_str.induct)
  case (1 n)
  show ?case
    by (subst hex_str.simps) (use 1 hex_digit_no_bracket [of n] hex_digit_no_bracket [of "n mod 16"] in auto)
qed

lemma join_chars: "c \<in> set (join sep xs) \<Longrightarrow> c \<in> set sep \<or> (\<exists>x \<in> set xs. c \<in> set x)"
  by (cases xs) (auto simp: join_def split: if_splits)

lemma ipv6_body_chars: "CHR '']'' \<notin> set (ipv6_str w [])"
proof -
  have j: "CHR '']'' \<notin> set (join '':'' (map hex_str gs))" for gs
    using hex_str_chars join_chars [of "CHR '']''" "'':''" "map hex_str gs"] by auto
  then show ?thesis by (auto simp: ipv6_str_def Let_def split: prod.splits)
qed

lemma hex_str_nonempty: "hex_str n \<noteq> []"
  by (subst hex_str.simps) simp

lemma ipv6_str_first: "\<exists>c s. ipv6_str w z = c # s \<and> c \<noteq> CHR '']''"
proof -
  have body: "ipv6_str w z = ipv6_str w [] @ (if z = [] then [] else ''%'' @ z)"
    by (simp add: ipv6_str_def Let_def split: prod.splits)
  have "ipv6_str w [] \<noteq> []"
    by (auto simp: ipv6_str_def Let_def join_def groups_of_def hex_str_nonempty split: prod.splits list.splits)
  then obtain c s where "ipv6_str w [] = c # s" by (cases "ipv6_str w []") auto
  then show ?thesis using body ipv6_body_chars [of w] by auto
qed

section \<open>A written entry has its address\<close>

lemma contains_char: "contains s [c] \<Longrightarrow> c \<in> set s"
  using str_index_char_notin [of c s] unfolding contains_def by metis

lemma count_pos: "contains s [c] \<Longrightarrow> 1 \<le> count_char c s"
  using contains_char [of s c] by (auto simp: count_char_def length_filter_conv_card Suc_le_eq card_gt_0_iff in_set_conv_nth)

lemma written_rest: "1 \<le> count_char CHR '':'' (before_slash (if contains (before_slash r) '':'' then r else '':'' @ r))"
  using count_pos by (auto simp: before_slash_def count_char_def)

lemma bound_v4: "1 \<le> count_char CHR '':'' (before_slash r) \<Longrightarrow> has_address (ipv4_str w @ '':'' @ r)"
proof -
  assume r: "1 \<le> count_char CHR '':'' (before_slash r)"
  let ?p = "ipv4_str w @ '':'' @ r"
  have no: "CHR '':'' \<notin> set (ipv4_str w)" "CHR ''/'' \<notin> set (ipv4_str w)" "CHR ''['' \<notin> set (ipv4_str w)"
    using ipv4_str_chars [of "CHR '':''" w] ipv4_str_chars [of "CHR ''/''" w] ipv4_str_chars [of "CHR ''[''" w]
    by (auto simp: is_digit_def)
  have "before_slash ?p = ipv4_str w @ '':'' @ before_slash r"
    using no(2) by (simp add: before_slash_def takeWhile_append)
  then have "count_char CHR '':'' (before_slash ?p) = Suc (count_char CHR '':'' (before_slash r))"
    using no(1) by (auto simp: count_char_def filter_empty_conv)
  moreover have "\<not> has_prefix ?p ''[''" using no(3) ipv4_str_nonempty [of w] by (cases "ipv4_str w") auto
  moreover have "cut ?p '':'' = (ipv4_str w, r, True)" using cut_char [OF no(1)] by simp
  ultimately show ?thesis using r ipv4_str_nonempty by (auto simp: has_address_def splitPortAddr_def Let_def)
qed

lemma bound_v6: "s = c # s' \<Longrightarrow> c \<noteq> CHR '']'' \<Longrightarrow> has_address (''['' @ s @ '']'' @ '':'' @ r)"
proof -
  assume s: "s = c # s'" "c \<noteq> CHR '']''"
  let ?p = "''['' @ s @ '']'' @ '':'' @ r"
  obtain i where i: "str_index ?p '']:'' = Some i"
    using str_index_append [of "''['' @ s" "'']:''" r] by auto
  have "has_prefix (drop i ?p) '']:''"
  proof -
    have "str_index x p = Some i \<Longrightarrow> has_prefix (drop i x) p" for x p :: string and i
      by (induction x arbitrary: i) (auto split: if_splits)
    then show ?thesis using i by blast
  qed
  then have "i \<noteq> 0 \<and> i \<noteq> 1" using s by (cases "i = 0"; cases "i = 1") auto
  then have "take (i - 1) (drop 1 ?p) \<noteq> []" by (simp add: s)
  then show ?thesis using i by (auto simp: has_address_def splitPortAddr_def)
qed

lemma bound_4in6: "has_address (''::ffff:'' @ r)"
proof -
  have "before_slash (''::ffff:'' @ r) = ''::ffff:'' @ before_slash r" by (simp add: before_slash_def)
  then have "3 \<le> count_char CHR '':'' (before_slash (''::ffff:'' @ r))" by (simp add: count_char_def)
  then show ?thesis by (simp add: has_address_def splitPortAddr_def Let_def)
qed

lemma bindShort_bound:
  assumes "bindShort p addr False = (out, changed, ok)" "ok" "addr \<noteq> NoIP"
  shows "has_address out"
proof -
  obtain a rest where sp: "splitPortAddr p = Some (a, rest)" and nov: "\<not> contains p ''${''" "\<not> contains p ''$''"
    using assms(1,2) by (auto simp: bindShort_def split: option.splits if_splits)
  show ?thesis
  proof (cases "a = []")
    case False
    then show ?thesis using assms(1) sp nov by (auto simp: bindShort_def has_address_def)
  next
    case True
    define r where "r = (if contains (before_slash rest) '':'' then rest else '':'' @ rest)"
    have out: "out = formatAddr addr @ '':'' @ r"
      using assms(1) sp nov True by (auto simp: bindShort_def Let_def r_def split: if_splits)
    show ?thesis
    proof (cases addr)
      case NoIP
      then show ?thesis using assms(3) by simp
    next
      case (V4 w)
      then show ?thesis using bound_v4 written_rest by (simp add: out r_def)
    next
      case (V6 w z)
      obtain c s where "ipv6_str w z = c # s" "c \<noteq> CHR '']''" using ipv6_str_first by blast
      from bound_v6 [OF this, of r] show ?thesis using V6 bound_4in6 by (simp add: out)
    qed
  qed
qed

lemma bind_entry_bound:
  assumes "bind_entry name addr False p = (p', ch, t)" "addr \<noteq> NoIP" "entry_wf p"
  shows "y_kind p' = y_kind p \<and> (entry_bound p' \<or> (\<exists>c \<in> set ch. pc_skipped c \<and> pc_from c = y_value p'))"
proof (cases "y_kind p")
  case ScalarNode
  obtain out changed ok where b: "bindShort (y_value p) addr False = (out, changed, ok)" by (cases "bindShort (y_value p) addr False") auto
  have keep: "ok \<Longrightarrow> \<not> changed \<Longrightarrow> out = y_value p"
    using b by (auto simp: bindShort_def Let_def split: if_splits option.splits)
  show ?thesis
    using assms(1) ScalarNode b bindShort_bound [OF b _ assms(2)] keep
    by (auto simp: bind_entry_def entry_bound_def set_value_def Let_def split: if_splits)
next
  case MappingNode
  then show ?thesis
    using assms(1,3) by (auto simp: bind_entry_def entry_bound_def entry_wf_def Let_def map_value_append_new split: option.splits)
qed (use assms(1) in \<open>simp_all add: bind_entry_def entry_bound_def\<close>)

section \<open>The whole file\<close>

definition stack_entries :: "ynode list \<Rightarrow> ynode list" where
  "stack_entries c = concat (map (\<lambda>(n, svc). case ports_of svc of Some ps \<Rightarrow> ps | None \<Rightarrow> []) (mapping_services c))"

definition covered :: "port_change list \<Rightarrow> ynode \<Rightarrow> bool" where
  "covered chs p \<longleftrightarrow> entry_bound p \<or> (\<exists>ch \<in> set chs. pc_skipped ch \<and> pc_from ch = y_value p)"

lemma covered_mono: "covered chs p \<Longrightarrow> set chs \<subseteq> set chs' \<Longrightarrow> covered chs' p"
  by (auto simp: covered_def)

lemma bind_entries_covered:
  "bind_entries name addr False ps = (ps', chs, t) \<Longrightarrow> addr \<noteq> NoIP \<Longrightarrow> list_all entry_wf ps \<Longrightarrow> list_all (covered chs) ps'"
proof (induction ps arbitrary: ps' chs t)
  case (Cons p ps)
  obtain p1 ch1 t1 where one: "bind_entry name addr False p = (p1, ch1, t1)" by (cases "bind_entry name addr False p") auto
  obtain ps2 chs2 t2 where rest: "bind_entries name addr False ps = (ps2, chs2, t2)" by (cases "bind_entries name addr False ps") auto
  have eq: "ps' = p1 # ps2" "chs = ch1 @ chs2" using Cons.prems(1) one rest by simp_all
  have "covered chs p1" using bind_entry_bound [OF one Cons.prems(2)] Cons.prems(3) by (auto simp: covered_def eq)
  moreover have "list_all (covered chs2) ps2" using Cons.IH [OF rest Cons.prems(2)] Cons.prems(3) by simp
  then have "list_all (covered chs) ps2" by (auto simp: list_all_iff eq intro: covered_mono)
  ultimately show ?case by (simp add: eq)
qed simp

lemma bind_service_covered:
  assumes "bind_service name addr False svc = (svc', chs, t)" "addr \<noteq> NoIP"
    and "\<And>ps. y_kind svc = MappingNode \<Longrightarrow> ports_of svc = Some ps \<Longrightarrow> list_all entry_wf ps"
  shows "y_kind svc' = y_kind svc"
    and "y_kind svc = MappingNode \<Longrightarrow> ports_of svc' = Some ps' \<Longrightarrow> list_all (covered chs) ps'"
proof -
  show "y_kind svc' = y_kind svc"
    using assms(1) by (auto simp: bind_service_def split: ykind.splits option.splits prod.splits)
  show "list_all (covered chs) ps'" if map: "y_kind svc = MappingNode" and p: "ports_of svc' = Some ps'"
  proof (cases "ports_of svc")
    case None
    then show ?thesis using assms(1) map p by (simp add: bind_service_def)
  next
    case (Some ps)
    obtain ps2 chs2 t2 where e: "bind_entries name addr False ps = (ps2, chs2, t2)" by (cases "bind_entries name addr False ps") auto
    have svc': "svc' = set_content (set_first ''ports'' (set_content ps2) (y_content svc)) svc" and chs: "chs = chs2"
      using assms(1) map Some e by (simp_all add: bind_service_def)
    have "ports_of svc' = Some ps2"
      using Some by (auto simp: ports_of_def svc' map_value_set_first split: option.splits if_splits)
    then have "ps' = ps2" using p by simp
    then show ?thesis using bind_entries_covered [OF e assms(2)] assms(3) [OF map Some] chs by simp
  qed
qed

lemma bind_services_covered:
  assumes "bind_services addr False c = (c', chs, t)" "addr \<noteq> NoIP" "list_all entry_wf (stack_entries c)"
  shows "list_all (covered chs) (stack_entries c')"
  using assms
proof (induction addr False c arbitrary: c' chs t rule: bind_services.induct)
  case (1 addr k svc rest)
  obtain svc1 ch1 t1 where one: "bind_service (y_value k) addr False svc = (svc1, ch1, t1)"
    by (cases "bind_service (y_value k) addr False svc") auto
  obtain rest2 chs2 t2 where rest: "bind_services addr False rest = (rest2, chs2, t2)" by (cases "bind_services addr False rest") auto
  have eq: "c' = k # svc1 # rest2" "chs = ch1 @ chs2" using 1(2) one rest by simp_all
  have wf: "list_all entry_wf (stack_entries rest)" "y_kind svc = MappingNode \<Longrightarrow> ports_of svc = Some ps \<Longrightarrow> list_all entry_wf ps" for ps
    using 1(4) by (auto simp: stack_entries_def split: if_splits)
  have s1: "y_kind svc1 = y_kind svc" "y_kind svc = MappingNode \<Longrightarrow> ports_of svc1 = Some ps \<Longrightarrow> list_all (covered ch1) ps" for ps
    using bind_service_covered [OF one 1(3)] wf(2) by blast+
  have "list_all (covered chs2) (stack_entries rest2)" using 1(1) [OF one [symmetric] refl refl rest 1(3) wf(1)] .
  then have "list_all (covered chs) (stack_entries rest2)" by (auto simp: list_all_iff eq intro: covered_mono)
  moreover have "list_all (covered chs) ps" if "y_kind svc = MappingNode" "ports_of svc1 = Some ps" for ps
    using s1(2) [OF that] by (auto simp: list_all_iff eq intro: covered_mono)
  ultimately show ?case using s1(1) by (auto simp: eq stack_entries_def split: option.splits)
qed (auto simp: stack_entries_def)

text \<open>After \<open>BindPorts\<close> without force every publication of the written file, short or long, carries an
  address, except those it reports as skipped (a variable, or more colons than it can read): no
  port of the stack is left to listen on every address unnoticed.\<close>

theorem bind_covers:
  assumes "parse_addr bind = Some addr" "addr \<noteq> NoIP" "\<not> is_unspecified addr"
    and "unm text = Inr doc" "doc_root doc = Some tree" "services_of tree = Some services"
    and "list_all entry_wf (stack_entries (y_content services))"
    and "BindPorts unm mar text bind False = Inr (out, chs)"
  shows "\<exists>c. list_all (covered chs) (stack_entries c)
     \<and> (mar (put_services c doc) = Inr out \<or> out = text \<and> c = y_content services)"
proof -
  obtain c chs0 t where b: "bind_services addr False (y_content services) = (c, chs0, t)"
    by (cases "bind_services addr False (y_content services)") auto
  have same: "t = False \<Longrightarrow> c = y_content services"
    using b
  proof -
    have entry: "bind_entry n a f p = (p', ch, False) \<Longrightarrow> p' = p" for n a f p p' ch
      by (auto simp: bind_entry_def Let_def split: ykind.splits prod.splits if_splits option.splits)
    have entries: "bind_entries n a f ps = (ps', ch, False) \<Longrightarrow> ps' = ps" for n a f ps ps' ch
      by (induction ps arbitrary: ps' ch) (auto split: prod.splits dest: entry)
    have first: "map_value_in cc ''ports'' = Some m \<Longrightarrow> set_first ''ports'' (set_content (y_content m)) cc = cc" for cc m
      by (induction cc "''ports''" rule: map_value_in.induct) (auto simp: set_content_def split: if_splits)
    have service: "bind_service n a f svc = (svc', ch, False) \<Longrightarrow> svc' = svc" for n a f svc svc' ch
      by (cases svc) (auto simp: bind_service_def ports_of_def set_content_def first split: ykind.splits option.splits prod.splits if_splits dest!: entries)
    have "bind_services a f cc = (c2, ch, False) \<Longrightarrow> c2 = cc" for a f cc c2 ch
      by (induction a f cc arbitrary: c2 ch rule: bind_services.induct) (auto split: prod.splits dest!: service)
    then show "t = False \<Longrightarrow> c = y_content services" using b by blast
  qed
  have cov: "list_all (covered chs0) (stack_entries c)" by (rule bind_services_covered [OF b assms(2,7)])
  then have "list_all (covered (sort_key pc_service chs0)) (stack_entries c)" by (simp add: covered_def list_all_iff)
  moreover have "chs = sort_key pc_service chs0 \<and> (mar (put_services c doc) = Inr out \<or> out = text \<and> c = y_content services)"
    using assms(1,3-6,8) b same by (cases t) (auto simp: BindPorts_def Let_def split: sum.splits)
  ultimately show ?thesis by blast
qed

definition ex_ports_doc :: ynode where
  "ex_ports_doc = YNode DocumentNode [] False [] [map_node [str_node ''services'', map_node [str_node ''web'',
     map_node [str_node ''ports'', YNode SequenceNode ''!!seq'' False [] [str_node ''8080:80'', str_node ''443'', str_node ''${P}:90'',
       map_node [str_node ''target'', str_node ''53'']]]]]]"

lemma bind_covers_witness:
  "\<exists>chs c. BindPorts (\<lambda>_. Inr ex_ports_doc) (\<lambda>_. Inr ''out'') [] ''127.0.0.1'' False = Inr (''out'', chs)
     \<and> list_all (covered chs) (stack_entries c)"
proof -
  let ?sv = "map_node [str_node ''web'',
     map_node [str_node ''ports'', YNode SequenceNode ''!!seq'' False [] [str_node ''8080:80'', str_node ''443'', str_node ''${P}:90'',
       map_node [str_node ''target'', str_node ''53'']]]]"
  let ?chs = "[\<lparr>pc_service = ''web'', pc_from = ''8080:80'', pc_to = ''127.0.0.1:8080:80'', pc_kept = False, pc_skipped = False\<rparr>,
      \<lparr>pc_service = ''web'', pc_from = ''443'', pc_to = ''127.0.0.1::443'', pc_kept = False, pc_skipped = False\<rparr>,
      \<lparr>pc_service = ''web'', pc_from = ''${P}:90'', pc_to = [], pc_kept = False, pc_skipped = True\<rparr>,
      \<lparr>pc_service = ''web'', pc_from = ''target 53'', pc_to = ''127.0.0.1:target 53'', pc_kept = False, pc_skipped = False\<rparr>]"
  have run: "BindPorts (\<lambda>_. Inr ex_ports_doc) (\<lambda>_. Inr ''out'') [] ''127.0.0.1'' False = Inr (''out'', ?chs)" by code_simp
  have a: "parse_addr ''127.0.0.1'' = Some (V4 0x7F000001)" "V4 0x7F000001 \<noteq> NoIP" "\<not> is_unspecified (V4 0x7F000001)" by code_simp+
  have d: "doc_root ex_ports_doc = Some (map_node [str_node ''services'', ?sv])"
    "services_of (map_node [str_node ''services'', ?sv]) = Some ?sv" "list_all entry_wf (stack_entries (y_content ?sv))" by code_simp+
  from bind_covers [OF a refl d run] show ?thesis using run by blast
qed

end
