(* ===== verification/HostModel.thy ===== *)
theory HostModel
  imports GoStrings
begin

text \<open>
  The picture of a host (\<open>internal/model\<close>): what the parsers found, as the analyzer and the
  resource map read it. A record holds the fields of the Go structure that the modelled
  code reads. A Go map of strings is an association list, read with \<open>field_of\<close>; an absent
  key reads as the empty string. A text of the catalog is its key with its arguments, as
  the code carries both beside the Russian sentence; the sentences themselves are not
  modelled. An instant is a number of nanoseconds since the zero time of Go.
\<close>

section \<open>Texts and severities\<close>

datatype arg = AInt int | AStr string

record text_ref =
  tx_key :: string
  tx_args :: "arg list"

abbreviation tx :: "string \<Rightarrow> arg list \<Rightarrow> text_ref" where
  "tx k as \<equiv> \<lparr>tx_key = k, tx_args = as\<rparr>"

type_synonym instant = int

definition field_of :: "string strmap \<Rightarrow> string \<Rightarrow> string" where
  "field_of m k = (case lookup m k of None \<Rightarrow> [] | Some v \<Rightarrow> v)"

definition SeverityRank :: "string \<Rightarrow> nat" where
  "SeverityRank s =
     (if s = ''critical'' then 0 else if s = ''high'' then 1 else if s = ''medium'' then 2
      else if s = ''low'' then 3 else 4)"

section \<open>Sockets declared by configurations\<close>

record route_decl =
  rd_match :: string
  rd_target :: string
  rd_kind :: string
  rd_file :: string
  rd_line :: int

record endpoint =
  ep_id :: string
  ep_service :: string
  ep_address :: string
  ep_port :: int
  ep_protocol :: string
  ep_tls :: bool
  ep_mode :: string
  ep_names :: "string list"
  ep_routes :: "route_decl list"
  ep_upstream :: "string list"
  ep_file :: string
  ep_line :: int
  ep_label :: string
  ep_extra :: "string strmap"

definition socket_str :: "string \<Rightarrow> int \<Rightarrow> string" where
  "socket_str host port = host @ '':'' @ itoa port"

definition ep_Public :: "endpoint \<Rightarrow> bool" where
  "ep_Public e \<longleftrightarrow> ep_address e \<in> {'''', ''*'', ''0.0.0.0'', ''::'', ''[::]'', ''::0''}"

definition ep_Loopback :: "endpoint \<Rightarrow> bool" where
  "ep_Loopback e \<longleftrightarrow>
     has_prefix (ep_address e) ''127.'' \<or> ep_address e = ''::1'' \<or> ep_address e = ''[::1]''"

definition ep_Socket :: "endpoint \<Rightarrow> string" where
  "ep_Socket e = socket_str (ep_address e) (ep_port e)"

record upstream_server =
  us_name :: string
  us_host :: string
  us_port :: int
  us_backup :: bool
  us_down :: bool
  us_checked :: bool

definition us_Socket :: "upstream_server \<Rightarrow> string" where
  "us_Socket u = socket_str (us_host u) (us_port u)"

record upstream =
  up_id :: string
  up_name :: string
  up_service :: string
  up_mode :: string
  up_algorithm :: string
  up_health :: string
  up_servers :: "upstream_server list"
  up_file :: string
  up_line :: int

section \<open>Containers, instances, machines\<close>

record port_mapping =
  pm_host_ip :: string
  pm_host_port :: int
  pm_container_port :: int
  pm_protocol :: string

definition Published :: "port_mapping \<Rightarrow> bool" where
  "Published p \<longleftrightarrow> pm_host_port p > 0"

definition PublicallyBound :: "port_mapping \<Rightarrow> bool" where
  "PublicallyBound p \<longleftrightarrow>
     Published p \<and> (pm_host_ip p = '''' \<or> pm_host_ip p = ''0.0.0.0'' \<or> pm_host_ip p = ''::'')"

record container_network =
  cn_name :: string
  cn_ip :: string

record container =
  ct_name :: string
  ct_image :: string
  ct_state :: string
  ct_status :: string
  ct_project :: string
  ct_service :: string
  ct_compose_file :: string
  ct_restart :: string
  ct_ports :: "port_mapping list"
  ct_networks :: "container_network list"
  ct_declared :: bool
  ct_running :: bool

record docker_network =
  dn_name :: string
  dn_driver :: string
  dn_subnets :: "string list"
  dn_gateway :: string
  dn_bridge :: string

record podman_container =
  pc_name :: string
  pc_image :: string
  pc_state :: string
  pc_status :: string
  pc_pod :: string

record lxd_port =
  lp_device :: string
  lp_listen :: string
  lp_connect :: string

record lxd_instance =
  lx_name :: string
  lx_type :: string
  lx_status :: string
  lx_architecture :: string
  lx_ipv4 :: "string list"
  lx_ports :: "lxd_port list"
  lx_networks :: "string list"

record vm_iface =
  vi_source :: string
  vi_ip :: string

record virtual_machine =
  vm_name :: string
  vm_uuid :: string
  vm_state :: string
  vm_persistent :: bool
  vm_autostart :: bool
  vm_vcpus :: int
  vm_networks :: "vm_iface list"

section \<open>Firewall, listeners, services\<close>

record firewall_policy =
  fp_backend :: string
  fp_table :: string
  fp_chain :: string
  fp_policy :: string

record firewall_rule =
  fr_backend :: string
  fr_chain :: string
  fr_action :: string
  fr_protocol :: string
  fr_port_spec :: string
  fr_ports :: "int list"
  fr_source :: string
  fr_destination :: string
  fr_zone :: string
  fr_dnat_to :: string
  fr_packets :: int
  fr_raw :: string

record firewall_manager =
  fm_name :: string
  fm_installed :: bool
  fm_active :: bool
  fm_policy :: string

record firewall_state =
  fs_managers :: "firewall_manager list"
  fs_policies :: "firewall_policy list"
  fs_rules :: "firewall_rule list"

fun find_manager :: "string \<Rightarrow> firewall_manager list \<Rightarrow> firewall_manager" where
  "find_manager name [] = \<lparr>fm_name = name, fm_installed = False, fm_active = False, fm_policy = []\<rparr>"
| "find_manager name (m # ms) = (if fm_name m = name then m else find_manager name ms)"

definition Manager :: "firewall_state \<Rightarrow> string \<Rightarrow> firewall_manager" where
  "Manager f name = find_manager name (fs_managers f)"

definition AnyManagerActive :: "firewall_state \<Rightarrow> bool" where
  "AnyManagerActive f \<longleftrightarrow> list_ex fm_active (fs_managers f)"

record listener =
  ls_protocol :: string
  ls_address :: string
  ls_port :: int
  ls_process :: string
  ls_command :: string
  ls_user :: string
  ls_uptime :: int
  ls_unit :: string
  ls_container_id :: string
  ls_origin :: string

definition ls_Public :: "listener \<Rightarrow> bool" where
  "ls_Public l \<longleftrightarrow>
     ls_address l = ''0.0.0.0'' \<or> ls_address l = ''*'' \<or> ls_address l = ''::'' \<or> ls_address l = ''[::]''"

record service_unit =
  su_name :: string
  su_unit :: string
  su_active_state :: string
  su_sub_state :: string
  su_enabled :: string
  su_installed :: bool

section \<open>Certificates\<close>

record renewal_info =
  re_tool :: string
  re_managed :: bool
  re_automatic :: bool
  re_detail :: string
  re_detail_ref :: text_ref

record cert_serving =
  cs_checked :: bool
  cs_endpoint :: string
  cs_match :: bool
  cs_served_serial :: string
  cs_served_not_after :: instant
  cs_error :: string

record certificate =
  ce_path :: string
  ce_service :: string
  ce_endpoints :: "string list"
  ce_sites :: "string list"
  ce_subject :: string
  ce_names :: "string list"
  ce_not_before :: instant
  ce_not_after :: instant
  ce_days_left :: int
  ce_key_algorithm :: string
  ce_key_bits :: int
  ce_sig_algorithm :: string
  ce_self_signed :: bool
  ce_renewal :: renewal_info
  ce_serving :: cert_serving
  ce_error :: string

definition Expired :: "certificate \<Rightarrow> bool" where
  "Expired c \<longleftrightarrow> ce_days_left c < 0"

definition cert_Valid :: "instant \<Rightarrow> certificate \<Rightarrow> bool" where
  "cert_Valid now c \<longleftrightarrow> ce_error c = [] \<and> \<not> Expired c \<and> \<not> now < ce_not_before c"

text \<open>One entry of the loop of \<open>CoversName\<close>: equal names, or a wildcard over exactly one label.\<close>

definition covers_one :: "string \<Rightarrow> string \<Rightarrow> bool" where
  "covers_one name n \<longleftrightarrow>
     n = name \<or>
     (has_prefix n ''*.'' \<and>
      (let suffix = drop 1 n in
       has_suffix name suffix \<and> \<not> contains (trim_suffix name suffix) ''.''))"

definition CoversName :: "(string \<Rightarrow> string) \<Rightarrow> certificate \<Rightarrow> string \<Rightarrow> bool" where
  "CoversName ulow c name =
     (let name = to_lower ulow (trim_suffix name ''.'') in
      list_ex (\<lambda>n. covers_one name (to_lower ulow n)) (ce_names c))"

section \<open>Kubernetes\<close>

record k8s_pod =
  kp_namespace :: string
  kp_name :: string
  kp_node :: string
  kp_ip :: string
  kp_phase :: string
  kp_reason :: string
  kp_restarts :: int
  kp_ready :: bool
  kp_created :: string
  kp_labels :: "string strmap"
  kp_owner :: string
  kp_privileged :: "string list"
  kp_host_network :: bool
  kp_no_limits :: "string list"
  kp_images :: "string list"
  kp_last_restart :: string

record k8s_workload =
  kw_kind :: string
  kw_namespace :: string
  kw_name :: string
  kw_desired :: int
  kw_available :: int

record k8s_node =
  kn_name :: string
  kn_ready :: bool
  kn_ip :: string
  kn_unschedulable :: bool

record k8s_pvc =
  kv_namespace :: string
  kv_name :: string
  kv_phase :: string
  kv_created :: string

record k8s_service_port =
  kq_port :: int
  kq_node_port :: int

record k8s_service =
  ks_namespace :: string
  ks_name :: string
  ks_type :: string
  ks_selector :: "string strmap"
  ks_ports :: "k8s_service_port list"
  ks_external :: "string list"

record k8s_ingress =
  ki_namespace :: string
  ki_name :: string
  ki_hosts :: "string list"
  ki_services :: "string list"

record k8s_cert =
  kc_path :: string
  kc_not_after :: string

record k8s_binding =
  kb_name :: string
  kb_subjects :: "string list"

record k8s_state =
  k8_pods :: "k8s_pod list"
  k8_workloads :: "k8s_workload list"
  k8_nodes :: "k8s_node list"
  k8_pvcs :: "k8s_pvc list"
  k8_services :: "k8s_service list"
  k8_ingresses :: "k8s_ingress list"
  k8_certs :: "k8s_cert list"
  k8_admin_bindings :: "k8s_binding list"
  k8_netpol_namespaces :: "string list"

section \<open>Findings and the snapshot\<close>

record malware_hit =
  mh_kind :: string
  mh_severity :: string
  mh_object :: string
  mh_path :: string
  mh_line :: int
  mh_container :: string
  mh_evidence :: string

record finding =
  fd_id :: string
  fd_rule :: string
  fd_severity :: string
  fd_service :: string
  fd_object :: string
  fd_file :: string
  fd_line :: int
  fd_title :: text_ref
  fd_detail :: text_ref
  fd_suggestion :: text_ref
  fd_refs :: "string list"

record site_name =
  sm_name :: string
  sm_unicode :: string

record managed_file =
  mf_path :: string
  mf_sha256 :: string
  mf_sites :: "site_name list"

record network_interface =
  ni_name :: string
  ni_addresses :: "string list"

record package_update =
  pu_name :: string
  pu_new_version :: string

record snapshot =
  sn_ts :: string
  sn_mode :: string
  sn_hostname :: string
  sn_os :: string
  sn_kernel :: string
  sn_services :: "service_unit list"
  sn_files :: "managed_file list"
  sn_endpoints :: "endpoint list"
  sn_upstreams :: "upstream list"
  sn_containers :: "container list"
  sn_networks :: "docker_network list"
  sn_docker_cli_missing :: bool
  sn_malware :: "malware_hit list"
  sn_podman :: "podman_container list"
  sn_lxd :: "lxd_instance list"
  sn_vms :: "virtual_machine list"
  sn_k8s :: "k8s_state option"
  sn_firewall :: firewall_state
  sn_listeners :: "listener list"
  sn_interfaces :: "network_interface list"
  sn_certs :: "certificate list"
  sn_packages :: "package_update list"
  sn_findings :: "finding list"

definition empty_snapshot :: snapshot where
  "empty_snapshot = \<lparr>sn_ts = [], sn_mode = [], sn_hostname = [], sn_os = [], sn_kernel = [],
     sn_services = [], sn_files = [], sn_endpoints = [], sn_upstreams = [], sn_containers = [], sn_networks = [],
     sn_docker_cli_missing = False, sn_malware = [], sn_podman = [], sn_lxd = [], sn_vms = [],
     sn_k8s = None, sn_firewall = \<lparr>fs_managers = [], fs_policies = [], fs_rules = []\<rparr>,
     sn_listeners = [], sn_interfaces = [], sn_certs = [], sn_packages = [], sn_findings = []\<rparr>"

definition FindingCounts :: "snapshot \<Rightarrow> string \<Rightarrow> nat" where
  "FindingCounts s = fold (\<lambda>f out. out(fd_severity f := out (fd_severity f) + 1)) (sn_findings s) (\<lambda>_. 0)"

definition UpstreamByName :: "snapshot \<Rightarrow> string \<Rightarrow> string \<Rightarrow> upstream option" where
  "UpstreamByName s service name =
     find (\<lambda>u. up_service u = service \<and> up_name u = name) (sn_upstreams s)"

definition ContainerByPort :: "snapshot \<Rightarrow> int \<Rightarrow> container option" where
  "ContainerByPort s port =
     find (\<lambda>c. list_ex (\<lambda>p. pm_host_port p = port) (ct_ports c)) (sn_containers s)"

section \<open>Names of the sites in a file\<close>

text \<open>
  \<open>AttachSiteNames\<close>: the names of all endpoints are grouped by the file they come from, each
  once and in order. \<open>seen\<close> is the set of pairs the code keeps beside the groups;
  \<open>unicode\<close> is \<open>HostnameUnicode\<close>, whose decoder is the library \<open>idna\<close>.
\<close>

type_synonym site_groups = "(string \<times> string) list \<times> string list strmap"

definition group_of :: "string list strmap \<Rightarrow> string \<Rightarrow> string list" where
  "group_of m file = (case lookup m file of None \<Rightarrow> [] | Some ns \<Rightarrow> ns)"

definition add_site :: "string \<Rightarrow> string \<Rightarrow> site_groups \<Rightarrow> site_groups" where
  "add_site file name st =
     (let (seen, m) = st in
      if name = [] \<or> (file, name) \<in> set seen then st
      else ((file, name) # seen, put file (group_of m file @ [name]) m))"

definition add_sites :: "endpoint \<Rightarrow> site_groups \<Rightarrow> site_groups" where
  "add_sites e st = (if ep_file e = [] then st else fold (add_site (ep_file e)) (ep_names e) st)"

definition HostnameUnicode :: "(string \<Rightarrow> string option) \<Rightarrow> string \<Rightarrow> string" where
  "HostnameUnicode idna name =
     (case idna name of None \<Rightarrow> [] | Some u \<Rightarrow> if u = name then [] else u)"

definition AttachSiteNames ::
  "(string \<Rightarrow> string option) \<Rightarrow> managed_file list \<Rightarrow> endpoint list \<Rightarrow> managed_file list" where
  "AttachSiteNames idna files es =
     (if es = [] then files
      else let m = snd (fold add_sites es ([], [])) in
        map (\<lambda>f. let names = group_of m (mf_path f) in
               if names = [] then f
               else f\<lparr>mf_sites := map (\<lambda>n. \<lparr>sm_name = n, sm_unicode = HostnameUnicode idna n\<rparr>) names\<rparr>)
            files)"

end
