(* ===== verification/AnaIndex.thy ===== *)
theory AnaIndex
  imports HostModel
begin

text \<open>
  The frame of the analyzer (\<open>internal/analyze/analyze.go\<close>): the collector of findings, their
  order, and the index the rules read. A rule is modelled as the list of findings it hands
  to \<open>collector.add\<close>, in the order of the calls; no rule reads the collector.
\<close>

section \<open>The collector and the order of findings\<close>

record collector =
  co_findings :: "finding list"
  co_seen :: "string list"

definition collector_add :: "finding \<Rightarrow> collector \<Rightarrow> collector" where
  "collector_add f c =
     (let f = (if fd_id f = [] then f\<lparr>fd_id := fd_rule f @ '':'' @ fd_object f\<rparr> else f) in
      if fd_id f \<in> set (co_seen c) then c
      else \<lparr>co_findings = co_findings c @ [f], co_seen = fd_id f # co_seen c\<rparr>)"

text \<open>The comparison of \<open>SortFindings\<close>, and the stable sort by it as insertion from the right.\<close>

definition finding_less :: "finding \<Rightarrow> finding \<Rightarrow> bool" where
  "finding_less a b =
     (let ra = SeverityRank (fd_severity a); rb = SeverityRank (fd_severity b) in
      if ra \<noteq> rb then ra < rb
      else if fd_service a \<noteq> fd_service b then fd_service a < fd_service b
      else fd_object a < fd_object b)"

fun insert_stable :: "('a \<Rightarrow> 'a \<Rightarrow> bool) \<Rightarrow> 'a \<Rightarrow> 'a list \<Rightarrow> 'a list" where
  "insert_stable lt x [] = [x]"
| "insert_stable lt x (y # ys) = (if lt y x then y # insert_stable lt x ys else x # y # ys)"

definition sort_stable :: "('a \<Rightarrow> 'a \<Rightarrow> bool) \<Rightarrow> 'a list \<Rightarrow> 'a list" where
  "sort_stable lt xs = foldr (insert_stable lt) xs []"

definition SortFindings :: "finding list \<Rightarrow> finding list" where
  "SortFindings fs = sort_stable finding_less fs"

section \<open>What the code reads from outside\<close>

text \<open>
  The clock, the time formats (the time zone of the machine is behind them), the Unicode
  case tables, and the orders in which Go happens to range over the three maps the rules
  range over.
\<close>

record run_env =
  en_now :: instant
  en_day :: "instant \<Rightarrow> string"
  en_day_time :: "instant \<Rightarrow> string"
  en_rfc3339 :: "string \<Rightarrow> instant option"
  en_lower :: "string \<Rightarrow> string"
  en_upper :: "string \<Rightarrow> string"
  en_ports :: "int list \<Rightarrow> int list"
  en_no_limits :: "string list \<Rightarrow> string list"
  en_latest :: "string list \<Rightarrow> string list"

definition upper_char :: "char \<Rightarrow> char" where
  "upper_char c = (let n = of_char c :: nat in if 97 \<le> n \<and> n \<le> 122 then char_of (n - 32) else c)"

definition to_upper :: "(string \<Rightarrow> string) \<Rightarrow> string \<Rightarrow> string" where
  "to_upper uupp s = (if is_ascii s then map upper_char s else uupp s)"

section \<open>The index\<close>

record index =
  ix_listeners :: "int \<Rightarrow> listener list"
  ix_endpoints :: "int \<Rightarrow> endpoint list"
  ix_upstreams :: "string \<Rightarrow> upstream option"
  ix_used :: "string \<Rightarrow> bool"
  ix_policy :: string
  ix_allowed :: "int \<Rightarrow> string list"
  ix_dnat :: "int \<Rightarrow> bool"
  ix_active :: "string \<Rightarrow> bool"
  ix_comparable :: bool

definition index_listener :: "listener \<Rightarrow> (int \<Rightarrow> listener list) \<Rightarrow> int \<Rightarrow> listener list" where
  "index_listener l m = m(ls_port l := m (ls_port l) @ [l])"

definition index_endpoint :: "endpoint \<Rightarrow> (int \<Rightarrow> endpoint list) \<Rightarrow> int \<Rightarrow> endpoint list" where
  "index_endpoint e m = m(ep_port e := m (ep_port e) @ [e])"

definition pool_key :: "string \<Rightarrow> string \<Rightarrow> string" where
  "pool_key service name = service @ ''|'' @ name"

definition index_used :: "endpoint \<Rightarrow> (string \<Rightarrow> bool) \<Rightarrow> string \<Rightarrow> bool" where
  "index_used e m = fold (\<lambda>name m. m(pool_key (ep_service e) name := True)) (ep_upstream e) m"

definition index_upstream :: "upstream \<Rightarrow> (string \<Rightarrow> upstream option) \<Rightarrow> string \<Rightarrow> upstream option" where
  "index_upstream u m = m(pool_key (up_service u) (up_name u) := Some u)"

definition index_service :: "service_unit \<Rightarrow> (string \<Rightarrow> bool) \<Rightarrow> string \<Rightarrow> bool" where
  "index_service u m = m(su_name u := (su_active_state u = ''active''))"

definition index_policy :: "firewall_policy \<Rightarrow> string \<Rightarrow> string" where
  "index_policy p old =
     (if fp_backend p = ''iptables'' \<and> fp_table p = ''filter'' \<and> fp_chain p = ''INPUT''
      then fp_policy p else old)"

definition isAcceptAction :: "run_env \<Rightarrow> string \<Rightarrow> bool" where
  "isAcceptAction E a \<longleftrightarrow> to_upper (en_upper E) a \<in> {''ACCEPT'', ''ALLOW'', ''LIMIT''}"

definition isInputChain :: "run_env \<Rightarrow> firewall_rule \<Rightarrow> bool" where
  "isInputChain E r =
     (if fr_backend r = ''firewalld'' then True
      else let c = to_lower (en_lower E) (fr_chain r) in
        c = ''input'' \<or> contains c ''user-input'' \<or> contains c ''ufw'')"

definition rule_source :: "firewall_rule \<Rightarrow> string" where
  "rule_source r = (if fr_source r = [] then ''Anywhere'' else fr_source r)"

definition index_rule ::
  "run_env \<Rightarrow> firewall_rule \<Rightarrow> (int \<Rightarrow> string list) \<times> (int \<Rightarrow> bool) \<Rightarrow> (int \<Rightarrow> string list) \<times> (int \<Rightarrow> bool)" where
  "index_rule E r st =
     (let (allowed, dnat) = st in
      if fr_action r = ''DNAT'' \<and> fr_dnat_to r \<noteq> [] then
        (allowed, fold (\<lambda>p m. m(p := True)) (fr_ports r) dnat)
      else if \<not> isAcceptAction E (fr_action r) then st
      else if \<not> isInputChain E r then st
      else (fold (\<lambda>p m. m(p := m p @ [rule_source r])) (fr_ports r) allowed, dnat))"

definition hasListener :: "(int \<Rightarrow> listener list) \<Rightarrow> int \<Rightarrow> bool" where
  "hasListener m port \<longleftrightarrow> length (m port) > 0"

definition listenersAreComparable :: "(int \<Rightarrow> listener list) \<Rightarrow> snapshot \<Rightarrow> bool" where
  "listenersAreComparable m s =
     (let (declared, corroborated) =
        fold (\<lambda>e (d, c). if ep_protocol e = ''udp'' then (d, c)
                        else (d + 1, if hasListener m (ep_port e) then c + 1 else c))
          (sn_endpoints s) (0::nat, 0::nat)
      in declared < 3 \<or> corroborated > 0)"

definition buildIndex :: "run_env \<Rightarrow> snapshot \<Rightarrow> index" where
  "buildIndex E s =
     (let listeners = fold index_listener (sn_listeners s) (\<lambda>_. []);
          (allowed, dnat) = fold (index_rule E) (fs_rules (sn_firewall s)) (\<lambda>_. [], \<lambda>_. False)
      in \<lparr>ix_listeners = listeners,
          ix_endpoints = fold index_endpoint (sn_endpoints s) (\<lambda>_. []),
          ix_upstreams = fold index_upstream (sn_upstreams s) (\<lambda>_. None),
          ix_used = fold index_used (sn_endpoints s) (\<lambda>_. False),
          ix_policy = fold index_policy (fs_policies (sn_firewall s)) ''unknown'',
          ix_allowed = allowed,
          ix_dnat = dnat,
          ix_active = fold index_service (sn_services s) (\<lambda>_. False),
          ix_comparable = length (sn_listeners s) > 0 \<and> listenersAreComparable listeners s\<rparr>)"

definition any_source :: "string \<Rightarrow> bool" where
  "any_source src \<longleftrightarrow> src \<in> {'''', ''Anywhere'', ''0.0.0.0/0'', ''::/0'', ''anywhere''}"

definition allowedFromAnywhere :: "index \<Rightarrow> int \<Rightarrow> bool" where
  "allowedFromAnywhere i port = list_ex any_source (ix_allowed i port)"

definition listenerFor :: "index \<Rightarrow> string \<Rightarrow> int \<Rightarrow> listener option" where
  "listenerFor i addr port =
     find (\<lambda>l. ls_address l = addr \<or> ls_Public l \<or> addr = ''0.0.0.0'') (ix_listeners i port)"

section \<open>Listeners nothing declares\<close>

definition service_procs :: "string \<Rightarrow> string list option" where
  "service_procs service =
     (if service = ''nginx'' then Some [''nginx'']
      else if service = ''haproxy'' then Some [''haproxy'']
      else if service = ''caddy'' then Some [''caddy'']
      else if service = ''docker'' then Some [''docker-proxy'', ''dockerd'', ''containerd'']
      else if service = ''podman'' then
        Some [''conmon'', ''podman'', ''rootlessport'', ''pasta'', ''slirp4netns'']
      else if service = ''lxd'' then Some [''lxd'', ''forkproxy'']
      else None)"

definition endpointOwns :: "endpoint \<Rightarrow> listener \<Rightarrow> bool" where
  "endpointOwns e l =
     (if ls_process l = [] then True
      else case service_procs (ep_service e) of
        None \<Rightarrow> True
      | Some procs \<Rightarrow> list_ex (has_prefix (ls_process l)) procs)"

definition undeclaredListeners :: "snapshot \<Rightarrow> index \<Rightarrow> listener list" where
  "undeclaredListeners s i =
     filter (\<lambda>l. \<not> list_ex (\<lambda>e. endpointOwns e l) (ix_endpoints i (ls_port l)) \<and>
                 ls_process l \<noteq> ''docker-proxy'') (sn_listeners s)"

definition UndeclaredListeners :: "run_env \<Rightarrow> snapshot \<Rightarrow> listener list" where
  "UndeclaredListeners E s = undeclaredListeners s (buildIndex E s)"

end
