(* ===== verification/AnaRules.thy ===== *)
theory AnaRules
  imports AnaIndex
begin

text \<open>
  The rules of \<open>internal/analyze/analyze.go\<close> on ports, the firewall, TLS settings, upstreams
  and containers. Each returns the findings of its calls of \<open>collector.add\<close> in order.
\<close>

abbreviation mk ::
  "string \<Rightarrow> string \<Rightarrow> string \<Rightarrow> string \<Rightarrow> string \<Rightarrow> text_ref \<Rightarrow> text_ref \<Rightarrow> text_ref \<Rightarrow> finding" where
  "mk rule ident sev svc obj title detail sugg \<equiv>
     \<lparr>fd_id = ident, fd_rule = rule, fd_severity = sev, fd_service = svc, fd_object = obj,
      fd_file = [], fd_line = 0, fd_title = title, fd_detail = detail, fd_suggestion = sugg,
      fd_refs = []\<rparr>"

abbreviation at_line :: "string \<Rightarrow> int \<Rightarrow> finding \<Rightarrow> finding" where
  "at_line file line f \<equiv> f\<lparr>fd_file := file, fd_line := line\<rparr>"

text \<open>The name of port 2375 is Russian in its last word; the bytes are those of the source.\<close>

definition sensitivePorts :: "(int \<times> string) list" where
  "sensitivePorts =
     [(1433, ''MS SQL Server''), (3306, ''MySQL/MariaDB''), (5432, ''PostgreSQL''),
      (5984, ''CouchDB''), (6379, ''Redis''), (9042, ''Cassandra''), (9200, ''Elasticsearch''),
      (11211, ''Memcached''), (27017, ''MongoDB''),
      (2375, ''Docker API '' @ [CHR 0xD0, CHR 0xB1, CHR 0xD0, CHR 0xB5, CHR 0xD0, CHR 0xB7] @ '' TLS''),
      (2379, ''etcd'')]"

definition weakTLSVersions :: "string list" where
  "weakTLSVersions = [''SSLv2'', ''SSLv3'', ''TLSv1'', ''TLSv1.1'']"

section \<open>Port conflicts\<close>

definition addressesOverlap :: "endpoint \<Rightarrow> endpoint \<Rightarrow> bool" where
  "addressesOverlap a b \<longleftrightarrow> ep_Public a \<or> ep_Public b \<or> ep_address a = ep_address b"

definition sameSocketTwoLayers :: "endpoint \<Rightarrow> endpoint \<Rightarrow> bool" where
  "sameSocketTwoLayers a b =
     (if ep_service a = ''docker'' \<and> ep_service b = ''docker'' then
        field_of (ep_extra a) ''container'' \<noteq> [] \<and>
        field_of (ep_extra a) ''container'' = field_of (ep_extra b) ''container''
      else if ep_service b \<noteq> ''docker'' \<and> ep_service a \<noteq> ''docker'' then False
      else let (docker, other) = (if ep_service b = ''docker'' then (b, a) else (a, b)) in
        if ep_service other = ''docker'' then False
        else let (containerPort, ok) = atoi (field_of (ep_extra docker) ''container_port'') in
          ok \<and> containerPort = ep_port other)"

definition conflicting :: "endpoint \<Rightarrow> endpoint \<Rightarrow> bool" where
  "conflicting x y \<longleftrightarrow>
     addressesOverlap x y \<and>
     \<not> (ep_service x = ep_service y \<and> (ep_service x = ''nginx'' \<or> ep_service x = ''caddy'')) \<and>
     \<not> sameSocketTwoLayers x y"

definition conflict_finding :: "int \<Rightarrow> endpoint \<times> endpoint \<Rightarrow> finding" where
  "conflict_finding port xy =
     (let (x, y) = xy in
      (at_line (ep_file x) (ep_line x)
        (mk ''port-conflict'' (''port-conflict:'' @ itoa port @ '':'' @ ep_id x @ '':'' @ ep_id y)
          ''high'' (ep_service x) (socket_str (ep_address x) port)
          (tx ''finding.portConflict.title'' [AInt port, AStr (ep_service x), AStr (ep_service y)])
          (tx ''finding.portConflict.detail''
             [AStr (ep_service x), AStr (ep_label x), AStr (ep_address x), AInt (ep_port x),
              AStr (ep_service y), AStr (ep_label y), AStr (ep_address y), AInt (ep_port y)])
          (tx ''finding.portConflict.suggestion'' [])))\<lparr>fd_refs := [ep_file x, ep_file y]\<rparr>)"

text \<open>The pairs of the two nested loops over the declarations of one port.\<close>

fun pairs_of :: "'a list \<Rightarrow> ('a \<times> 'a) list" where
  "pairs_of [] = []"
| "pairs_of (x # xs) = map (Pair x) xs @ pairs_of xs"

definition conflicts_on :: "int \<Rightarrow> endpoint list \<Rightarrow> finding list" where
  "conflicts_on port es =
     (if length es < 2 then []
      else map (conflict_finding port) (filter (\<lambda>(x, y). conflicting x y) (pairs_of es)))"

definition conflict_endpoints :: "snapshot \<Rightarrow> endpoint list" where
  "conflict_endpoints s = filter (\<lambda>e. ep_protocol e \<noteq> ''udp'') (sn_endpoints s)"

definition rulePortConflicts :: "run_env \<Rightarrow> snapshot \<Rightarrow> finding list" where
  "rulePortConflicts E s =
     (let byPort = fold index_endpoint (conflict_endpoints s) (\<lambda>_. []);
          ports = remdups (map ep_port (conflict_endpoints s))
      in concat (map (\<lambda>port. conflicts_on port (byPort port)) (en_ports E ports)))"

section \<open>Declared and observed sockets\<close>

definition declared_finding :: "endpoint \<Rightarrow> finding" where
  "declared_finding e =
     at_line (ep_file e) (ep_line e)
       (mk ''declared-not-listening'' (''declared-not-listening:'' @ ep_id e) ''high'' (ep_service e)
         (ep_Socket e)
         (tx ''finding.declaredNotListening.title'' [AInt (ep_port e)])
         (tx ''finding.declaredNotListening.detail''
            [AStr (ep_service e), AStr (ep_label e), AStr (ep_Socket e)])
         (tx ''finding.declaredNotListening.suggestion'' [AStr (ep_service e)]))"

definition ruleDeclaredNotListening :: "snapshot \<Rightarrow> index \<Rightarrow> finding list" where
  "ruleDeclaredNotListening s i =
     (if \<not> ix_comparable i then []
      else map declared_finding
        (filter (\<lambda>e. ep_protocol e \<noteq> ''udp'' \<and> ep_service e \<noteq> ''docker'' \<and> ix_active i (ep_service e) \<and>
                   listenerFor i (ep_address e) (ep_port e) = None) (sn_endpoints s)))"

definition undeclared_finding :: "listener \<Rightarrow> finding" where
  "undeclared_finding l =
     (let (sev, detail) =
        (if ls_Public l then (''medium'', ''finding.listeningNotDeclared.detailPublic'')
         else (''info'', ''finding.listeningNotDeclared.detail''))
      in mk ''listening-not-declared''
           (''listening-not-declared:'' @ socket_str (ls_address l) (ls_port l)) sev ''host''
           (socket_str (ls_address l) (ls_port l))
           (tx ''finding.listeningNotDeclared.title'' [AInt (ls_port l), AStr (ls_process l)])
           (tx detail [AStr (ls_process l), AStr (ls_address l), AInt (ls_port l)])
           (tx ''finding.listeningNotDeclared.suggestion'' []))"

definition ruleListeningNotDeclared :: "snapshot \<Rightarrow> index \<Rightarrow> finding list" where
  "ruleListeningNotDeclared s i = map undeclared_finding (undeclaredListeners s i)"

section \<open>Firewall\<close>

definition ruleFirewallDefaultPolicy :: "snapshot \<Rightarrow> index \<Rightarrow> finding list" where
  "ruleFirewallDefaultPolicy s i =
     (if fs_rules (sn_firewall s) = [] \<and> fs_policies (sn_firewall s) = [] then []
      else if ix_policy i = ''ACCEPT'' \<and> \<not> AnyManagerActive (sn_firewall s) then
        [mk ''no-default-deny'' ''no-default-deny:INPUT'' ''high'' ''iptables'' ''filter/INPUT''
           (tx ''finding.noDefaultDeny.title'' []) (tx ''finding.noDefaultDeny.detail'' [])
           (tx ''finding.noDefaultDeny.suggestion'' [])]
      else [])"

definition default_deny :: "snapshot \<Rightarrow> index \<Rightarrow> bool" where
  "default_deny s i \<longleftrightarrow>
     AnyManagerActive (sn_firewall s) \<or> ix_policy i = ''DROP'' \<or> ix_policy i = ''REJECT''"

definition blocked_finding :: "index \<Rightarrow> endpoint \<Rightarrow> finding" where
  "blocked_finding i e =
     at_line (ep_file e) (ep_line e)
       (mk ''public-port-blocked'' (''public-port-blocked:'' @ ep_id e) ''medium'' (ep_service e)
         (ep_Socket e)
         (tx ''finding.publicPortBlocked.title'' [AInt (ep_port e)])
         (tx ''finding.publicPortBlocked.detail''
            [AStr (ep_service e), AStr (ep_label e), AStr (ep_Socket e), AStr (ix_policy i)])
         (tx ''finding.publicPortBlocked.suggestion'' [AInt (ep_port e)]))"

definition rulePublicPortWithoutRule :: "snapshot \<Rightarrow> index \<Rightarrow> finding list" where
  "rulePublicPortWithoutRule s i =
     (if \<not> default_deny s i then []
      else map (blocked_finding i)
        (filter (\<lambda>e. ep_Public e \<and> ep_protocol e \<noteq> ''udp'' \<and> ep_service e \<noteq> ''docker'' \<and>
                   ix_allowed i (ep_port e) = []) (sn_endpoints s)))"

definition bypass_finding :: "container \<Rightarrow> port_mapping \<Rightarrow> finding" where
  "bypass_finding ct p =
     (let (sev, detail) =
        (case lookup sensitivePorts (pm_host_port p) of
           Some name \<Rightarrow> (''critical'', tx ''finding.dockerBypassesFirewall.detailSensitive''
                                        [AInt (pm_host_port p), AStr name])
         | None \<Rightarrow> (''high'', tx ''finding.dockerBypassesFirewall.detail'' [AInt (pm_host_port p)]))
      in at_line (ct_compose_file ct) 0
           (mk ''docker-bypasses-firewall''
             (''docker-bypasses-firewall:'' @ socket_str (ct_name ct) (pm_host_port p)) sev ''docker''
             (socket_str (ct_name ct) (pm_host_port p))
             (tx ''finding.dockerBypassesFirewall.title'' [AStr (ct_name ct), AInt (pm_host_port p)])
             detail
             (tx ''finding.dockerBypassesFirewall.suggestion''
                [AInt (pm_host_port p), AInt (pm_container_port p)])))"

definition ruleDockerBypassesFirewall :: "snapshot \<Rightarrow> index \<Rightarrow> finding list" where
  "ruleDockerBypassesFirewall s i =
     (if \<not> default_deny s i then []
      else concat (map (\<lambda>ct. map (bypass_finding ct) (filter PublicallyBound (ct_ports ct)))
             (sn_containers s)))"

text \<open>
  The candidate of a port is the first rule that allows it, replaced once by the first rule
  of ufw when the candidate is not one of ufw.
\<close>

definition better_rule ::
  "index \<Rightarrow> firewall_rule \<Rightarrow> int \<Rightarrow> (int \<times> firewall_rule) list \<Rightarrow> (int \<times> firewall_rule) list" where
  "better_rule i r port best =
     (if hasListener (ix_listeners i) port \<or> ix_dnat i port then best
      else case lookup best port of
        None \<Rightarrow> put port r best
      | Some old \<Rightarrow> if fr_backend r = ''ufw'' \<and> fr_backend old \<noteq> ''ufw'' then put port r best else best)"

definition stale_rule ::
  "run_env \<Rightarrow> index \<Rightarrow> firewall_rule \<Rightarrow> (int \<times> firewall_rule) list \<Rightarrow> (int \<times> firewall_rule) list" where
  "stale_rule E i r best =
     (if \<not> isAcceptAction E (fr_action r) \<or> \<not> isInputChain E r \<or> fr_backend r = ''ufw6'' then best
      else fold (better_rule i r) (fr_ports r) best)"

definition stale_finding :: "int \<Rightarrow> firewall_rule \<Rightarrow> finding" where
  "stale_finding port r =
     (mk ''stale-firewall-rule'' (''stale-firewall-rule:'' @ itoa port) ''low'' ''iptables''
        (fr_backend r @ '' '' @ itoa port @ ''/tcp'')
        (tx ''finding.staleFirewallRule.title'' [AInt port])
        (tx (if fr_packets r = 0 then ''finding.staleFirewallRule.detailZeroPackets''
             else ''finding.staleFirewallRule.detail'') [AInt port])
        (tx ''finding.staleFirewallRule.suggestion'' [AInt port]))\<lparr>fd_refs := [fr_raw r]\<rparr>"

definition ruleStaleFirewallRules :: "run_env \<Rightarrow> snapshot \<Rightarrow> index \<Rightarrow> finding list" where
  "ruleStaleFirewallRules E s i =
     (if \<not> ix_comparable i then []
      else let best = fold (stale_rule E i) (fs_rules (sn_firewall s)) []
        in map (\<lambda>port. stale_finding port (the (lookup best port))) (sort (map fst best)))"

definition reachable_port :: "snapshot \<Rightarrow> index \<Rightarrow> int \<Rightarrow> bool" where
  "reachable_port s i port \<longleftrightarrow>
     allowedFromAnywhere i port \<or> ix_dnat i port \<or>
     (ix_policy i = ''ACCEPT'' \<and> \<not> AnyManagerActive (sn_firewall s))"

definition sensitive_finding :: "snapshot \<Rightarrow> index \<Rightarrow> listener \<Rightarrow> string \<Rightarrow> finding" where
  "sensitive_finding s i l name =
     (let (sev, detail) =
        (if reachable_port s i (ls_port l)
         then (''critical'', ''finding.sensitivePortPublic.detailReachable'')
         else (''high'', ''finding.sensitivePortPublic.detail''))
      in mk ''sensitive-port-public'' (''sensitive-port-public:'' @ itoa (ls_port l)) sev ''host''
           (socket_str ''0.0.0.0'' (ls_port l))
           (tx ''finding.sensitivePortPublic.title'' [AStr name, AInt (ls_port l)])
           (tx detail [AStr (ls_process l), AInt (ls_port l)])
           (tx ''finding.sensitivePortPublic.suggestion'' []))"

definition ruleSensitivePortsPublic :: "snapshot \<Rightarrow> index \<Rightarrow> finding list" where
  "ruleSensitivePortsPublic s i =
     concat (map (\<lambda>l. if \<not> ls_Public l then []
                      else case lookup sensitivePorts (ls_port l) of
                        None \<Rightarrow> [] | Some name \<Rightarrow> [sensitive_finding s i l name])
       (sn_listeners s))"

end
