(* ===== verification/AnaMore.thy ===== *)
theory AnaMore
  imports AnaRules
begin

text \<open>
  The other rules of \<open>internal/analyze/analyze.go\<close>: TLS settings, certificates, plain-text
  proxies, upstreams and their health checks, malware, containers, admin interfaces.
\<close>

section \<open>TLS settings\<close>

definition weak_versions :: "string \<Rightarrow> string list" where
  "weak_versions protocols =
     concat (map (\<lambda>v. filter (\<lambda>field. field = v) (GoStrings.fields protocols)) weakTLSVersions)"

definition weak_tls_finding :: "endpoint \<Rightarrow> finding list" where
  "weak_tls_finding e =
     (let protocols = field_of (ep_extra e) ''ssl_protocols''; weak = weak_versions protocols in
      if protocols = [] then []
      else if length weak > 0 then
        [at_line (ep_file e) (ep_line e)
          (mk ''weak-tls'' (''weak-tls:'' @ ep_id e) ''medium'' (ep_service e) (ep_Socket e)
            (tx ''finding.weakTLS.title'' [AStr (join '', '' weak)])
            (tx ''finding.weakTLS.detail'' [AStr protocols])
            (tx ''finding.weakTLS.suggestion'' []))]
      else [])"

definition hsts_finding :: "endpoint \<Rightarrow> finding" where
  "hsts_finding e =
     at_line (ep_file e) (ep_line e)
       (mk ''missing-hsts'' (''missing-hsts:'' @ ep_id e) ''low'' (ep_service e) (ep_Socket e)
         (tx ''finding.missingHSTS.title'' [AStr (ep_label e)])
         (tx ''finding.missingHSTS.detail'' []) (tx ''finding.missingHSTS.suggestion'' []))"

definition cert_missing_finding :: "endpoint \<Rightarrow> finding" where
  "cert_missing_finding e =
     at_line (ep_file e) (ep_line e)
       (mk ''tls-cert-missing'' (''tls-cert-missing:'' @ ep_id e) ''high'' (ep_service e) (ep_Socket e)
         (tx ''finding.tlsCertMissing.title'' [AStr (ep_label e)])
         (tx ''finding.tlsCertMissing.detail'' []) (tx ''finding.tlsCertMissing.suggestion'' []))"

definition nginx_tls_findings :: "endpoint \<Rightarrow> finding list" where
  "nginx_tls_findings e =
     (if \<not> ep_tls e \<or> ep_service e \<noteq> ''nginx'' then []
      else (if field_of (ep_extra e) ''hsts'' = [] then [hsts_finding e] else []) @
           (if field_of (ep_extra e) ''tls_cert_missing'' = ''yes'' then [cert_missing_finding e] else []))"

definition ruleTLS :: "snapshot \<Rightarrow> finding list" where
  "ruleTLS s =
     concat (map weak_tls_finding (sn_endpoints s)) @ concat (map nginx_tls_findings (sn_endpoints s))"

section \<open>Certificates\<close>

definition certWarnDays :: int where "certWarnDays = 30"
definition certCriticalDays :: int where "certCriticalDays = 7"
definition minRSABits :: int where "minRSABits = 2048"

definition auto_on_text :: string where
  "auto_on_text = [CHR 0xD0, CHR 0x90, CHR 0xD0, CHR 0xB2, CHR 0xD1, CHR 0x82, CHR 0xD0, CHR 0xBE,
     CHR 0xD0, CHR 0xBE, CHR 0xD0, CHR 0xB1, CHR 0xD0, CHR 0xBD, CHR 0xD0, CHR 0xBE, CHR 0xD0, CHR 0xB2,
     CHR 0xD0, CHR 0xBB, CHR 0xD0, CHR 0xB5, CHR 0xD0, CHR 0xBD, CHR 0xD0, CHR 0xB8, CHR 0xD0, CHR 0xB5,
     CHR 0x20, CHR 0xD0, CHR 0xBD, CHR 0xD0, CHR 0xB0, CHR 0xD1, CHR 0x81, CHR 0xD1, CHR 0x82, CHR 0xD1,
     CHR 0x80, CHR 0xD0, CHR 0xBE, CHR 0xD0, CHR 0xB5, CHR 0xD0, CHR 0xBD, CHR 0xD0, CHR 0xBE, CHR 0x3A,
     CHR 0x20]"

definition auto_off_text :: string where
  "auto_off_text = [CHR 0xD0, CHR 0x90, CHR 0xD0, CHR 0xB2, CHR 0xD1, CHR 0x82, CHR 0xD0, CHR 0xBE,
     CHR 0xD0, CHR 0xBE, CHR 0xD0, CHR 0xB1, CHR 0xD0, CHR 0xBD, CHR 0xD0, CHR 0xBE, CHR 0xD0, CHR 0xB2,
     CHR 0xD0, CHR 0xBB, CHR 0xD0, CHR 0xB5, CHR 0xD0, CHR 0xBD, CHR 0xD0, CHR 0xB8, CHR 0xD0, CHR 0xB5,
     CHR 0x20, CHR 0xD0, CHR 0xBD, CHR 0xD0, CHR 0xB5, CHR 0x20, CHR 0xD0, CHR 0xBE, CHR 0xD0, CHR 0xB1,
     CHR 0xD0, CHR 0xBD, CHR 0xD0, CHR 0xB0, CHR 0xD1, CHR 0x80, CHR 0xD1, CHR 0x83, CHR 0xD0, CHR 0xB6,
     CHR 0xD0, CHR 0xB5, CHR 0xD0, CHR 0xBD, CHR 0xD0, CHR 0xBE, CHR 0x2E]"

definition renewalState :: "certificate \<Rightarrow> string" where
  "renewalState c =
     (if re_automatic (ce_renewal c) then auto_on_text @ re_detail (ce_renewal c)
      else if re_detail (ce_renewal c) \<noteq> [] then re_detail (ce_renewal c)
      else auto_off_text)"

definition lineageOf :: "string \<Rightarrow> string" where
  "lineageOf path =
     (let live = ''/etc/letsencrypt/live/'' in
      if \<not> has_prefix path live then [CHR 0x3C, CHR 0xD0, CHR 0xB8, CHR 0xD0, CHR 0xBC, CHR 0xD1, CHR 0x8F, CHR 0x3E]
      else let rest = trim_prefix path live in
        case str_index rest ''/'' of Some i \<Rightarrow> take i rest | None \<Rightarrow> rest)"

definition renewalSuggestion :: "certificate \<Rightarrow> text_ref" where
  "renewalSuggestion c =
     (if re_tool (ce_renewal c) = ''certbot''
      then tx ''finding.renewalSuggestionCertbot'' [AStr (lineageOf (ce_path c))]
      else tx ''finding.renewalSuggestionManual'' [])"

definition isWeakSignature :: "run_env \<Rightarrow> string \<Rightarrow> bool" where
  "isWeakSignature E alg =
     (let lower = to_lower (en_lower E) alg in
      contains lower ''sha1'' \<or> contains lower ''md5'' \<or> contains lower ''md2'')"

definition certLabel :: "certificate \<Rightarrow> string" where
  "certLabel c =
     (if length (ce_names c) > 0 then join '', '' (ce_names c)
      else if length (ce_sites c) > 0 then join '', '' (ce_sites c)
      else case last_index (CHR ''/'') (ce_path c) of
        Some i \<Rightarrow> if i + 1 < length (ce_path c) then drop (i + 1) (ce_path c) else ce_path c
      | None \<Rightarrow> ce_path c)"

definition cert_where :: "certificate \<Rightarrow> string" where
  "cert_where c = (let w = join '', '' (ce_endpoints c) in if w = [] then ce_service c else w)"

text \<open>The common part of the findings on a certificate: its rule names the identifier too.\<close>

abbreviation mk_cert ::
  "certificate \<Rightarrow> string \<Rightarrow> string \<Rightarrow> text_ref \<Rightarrow> text_ref \<Rightarrow> text_ref \<Rightarrow> finding" where
  "mk_cert c rule sev title detail sugg \<equiv>
     at_line (ce_path c) 0
       (mk rule (rule @ '':'' @ ce_path c) sev (ce_service c) (ce_path c) title detail sugg)"

definition unreadable_finding :: "certificate \<Rightarrow> finding" where
  "unreadable_finding c =
     mk_cert c ''tls-cert-unreadable'' ''high''
       (tx ''finding.tlsCertUnreadable.title'' [AStr (certLabel c)])
       (tx ''finding.tlsCertUnreadable.detail'' [AStr (ce_path c), AStr (cert_where c), AStr (ce_error c)])
       (tx ''finding.tlsCertUnreadable.suggestion'' [])"

definition expiry_findings :: "run_env \<Rightarrow> certificate \<Rightarrow> finding list" where
  "expiry_findings E c =
     (let names = join '', '' (ce_names c); day = en_day E (ce_not_after c) in
      if ce_days_left c < 0 then
        [mk_cert c ''tls-cert-expired'' ''critical''
          (tx ''finding.tlsCertExpired.title'' [AStr names, AInt (- ce_days_left c)])
          (tx ''finding.tlsCertExpired.detail'' [AStr day, AStr (cert_where c)])
          (renewalSuggestion c)]
      else if ce_days_left c \<le> certCriticalDays then
        [mk_cert c ''tls-cert-expiring'' ''high''
          (tx ''finding.tlsCertExpiring.title'' [AStr names, AInt (ce_days_left c)])
          (tx ''finding.tlsCertExpiring.detailWithTime''
             [AStr (en_day_time E (ce_not_after c)), AStr (cert_where c), AStr (renewalState c)])
          (renewalSuggestion c)]
      else if ce_days_left c \<le> certWarnDays then
        [mk_cert c ''tls-cert-expiring'' ''medium''
          (tx ''finding.tlsCertExpiring.title'' [AStr names, AInt (ce_days_left c)])
          (tx ''finding.tlsCertExpiring.detail'' [AStr day, AStr (cert_where c), AStr (renewalState c)])
          (renewalSuggestion c)]
      else [])"

definition not_yet_findings :: "run_env \<Rightarrow> certificate \<Rightarrow> finding list" where
  "not_yet_findings E c =
     (if en_now E < ce_not_before c then
        [mk_cert c ''tls-cert-not-yet-valid'' ''high''
          (tx ''finding.tlsCertNotYetValid.title'' [AStr (certLabel c)])
          (tx ''finding.tlsCertNotYetValid.detail'' [AStr (en_day_time E (ce_not_before c))])
          (tx ''finding.tlsCertNotYetValid.suggestion'' [])]
      else [])"

definition renewal_findings :: "certificate \<Rightarrow> finding list" where
  "renewal_findings c =
     (let r = ce_renewal c in
      (if re_managed r \<and> \<not> re_automatic r then
         [mk_cert c ''tls-cert-renewal-not-automatic'' ''medium''
           (tx ''finding.tlsCertRenewalNotAutomatic.title'' [AStr (certLabel c)])
           (re_detail_ref r) (tx ''finding.tlsCertRenewalNotAutomatic.suggestion'' [])]
       else []) @
      (if \<not> re_managed r \<and> re_tool r = ''certbot'' then
         [mk_cert c ''tls-cert-orphan-lineage'' ''high'' (tx ''finding.tlsCertOrphanLineage.title'' [])
           (re_detail_ref r) (tx ''finding.tlsCertOrphanLineage.suggestion'' [])]
       else []))"

definition serving_findings :: "run_env \<Rightarrow> certificate \<Rightarrow> finding list" where
  "serving_findings E c =
     (let v = ce_serving c in
      if cs_checked v \<and> cs_error v = [] \<and> \<not> cs_match v then
        [mk_cert c ''tls-cert-not-reloaded'' ''high'' (tx ''finding.tlsCertNotReloaded.title'' [])
          (tx ''finding.tlsCertNotReloaded.detail''
             [AStr (ce_path c), AStr (cs_endpoint v), AStr (cs_served_serial v),
              AStr (en_day E (cs_served_not_after v))])
          (tx ''finding.tlsCertNotReloaded.suggestion'' [AStr (ce_service c)])]
      else [])"

definition strength_findings :: "run_env \<Rightarrow> certificate \<Rightarrow> finding list" where
  "strength_findings E c =
     (if ce_self_signed c then
        [mk_cert c ''tls-cert-self-signed'' ''low''
          (tx ''finding.tlsCertSelfSigned.title'' [AStr (cert_where c)])
          (tx ''finding.tlsCertSelfSigned.detail'' [AStr (ce_subject c)])
          (tx ''finding.tlsCertSelfSigned.suggestion'' [])]
      else []) @
     (if ce_key_algorithm c = ''RSA'' \<and> ce_key_bits c > 0 \<and> ce_key_bits c < minRSABits then
        [mk_cert c ''tls-cert-weak-key'' ''medium''
          (tx ''finding.tlsCertWeakKey.title'' [AInt (ce_key_bits c)])
          (tx ''finding.tlsCertWeakKey.detail'' [AStr (ce_path c), AInt minRSABits])
          (tx ''finding.tlsCertWeakKey.suggestion'' [])]
      else []) @
     (if isWeakSignature E (ce_sig_algorithm c) then
        [mk_cert c ''tls-cert-weak-signature'' ''medium''
          (tx ''finding.tlsCertWeakSignature.title'' [AStr (ce_sig_algorithm c)])
          (tx ''finding.tlsCertWeakSignature.detail'' [])
          (tx ''finding.tlsCertWeakSignature.suggestion'' [])]
      else [])"

definition mismatch_finding :: "certificate \<Rightarrow> string \<Rightarrow> finding" where
  "mismatch_finding c site =
     at_line (ce_path c) 0
       (mk ''tls-cert-name-mismatch'' (''tls-cert-name-mismatch:'' @ ce_path c @ '':'' @ site) ''high''
         (ce_service c) site
         (tx ''finding.tlsCertNameMismatch.title'' [AStr site])
         (tx ''finding.tlsCertNameMismatch.detail''
            [AStr site, AStr (ce_path c), AStr (join '', '' (ce_names c))])
         (tx ''finding.tlsCertNameMismatch.suggestion'' [AStr site]))"

definition cert_findings :: "run_env \<Rightarrow> certificate \<Rightarrow> finding list" where
  "cert_findings E c =
     (if ce_error c \<noteq> [] then [unreadable_finding c]
      else expiry_findings E c @ not_yet_findings E c @ renewal_findings c @ serving_findings E c @
           strength_findings E c @
           map (mismatch_finding c) (filter (\<lambda>site. \<not> CoversName (en_lower E) c site) (ce_sites c)))"

definition ruleCertificates :: "run_env \<Rightarrow> snapshot \<Rightarrow> finding list" where
  "ruleCertificates E s = concat (map (cert_findings E) (sn_certs s))"

section \<open>Proxies and upstreams\<close>

definition plaintext_finding :: "endpoint \<Rightarrow> finding" where
  "plaintext_finding e =
     at_line (ep_file e) (ep_line e)
       (mk ''public-plaintext-proxy'' (''public-plaintext-proxy:'' @ ep_id e) ''medium'' (ep_service e)
         (ep_Socket e)
         (tx ''finding.publicPlaintextProxy.title'' [AStr (ep_label e)])
         (tx ''finding.publicPlaintextProxy.detail'' [AStr (ep_Socket e)])
         (tx ''finding.publicPlaintextProxy.suggestion'' []))"

definition rulePlaintextProxy :: "snapshot \<Rightarrow> finding list" where
  "rulePlaintextProxy s =
     map plaintext_finding
       (filter (\<lambda>e. \<not> (ep_tls e \<or> \<not> ep_Public e \<or> ep_mode e = ''tcp'' \<or> ep_service e = ''docker'') \<and>
                  list_ex (\<lambda>r. rd_kind r = ''upstream'' \<or> rd_kind r = ''address'') (ep_routes e))
          (sn_endpoints s))"

definition undefined_finding :: "endpoint \<Rightarrow> route_decl \<Rightarrow> finding" where
  "undefined_finding e r =
     at_line (rd_file r) (rd_line r)
       (mk ''upstream-undefined'' (''upstream-undefined:'' @ ep_id e @ '':'' @ rd_target r) ''high''
         (ep_service e) (rd_target r)
         (tx ''finding.upstreamUndefined.title'' [AStr (rd_target r)])
         (tx ''finding.upstreamUndefined.detail'' [AStr (rd_match r), AStr (ep_label e), AStr (rd_target r)])
         (tx ''finding.upstreamUndefined.suggestion'' []))"

definition undefined_findings :: "index \<Rightarrow> endpoint \<Rightarrow> finding list" where
  "undefined_findings i e =
     map (undefined_finding e)
       (filter (\<lambda>r. rd_kind r = ''upstream'' \<and>
                  ix_upstreams i (pool_key (ep_service e) (rd_target r)) = None) (ep_routes e))"

abbreviation mk_pool ::
  "upstream \<Rightarrow> string \<Rightarrow> string \<Rightarrow> text_ref \<Rightarrow> text_ref \<Rightarrow> text_ref \<Rightarrow> finding" where
  "mk_pool u rule sev title detail sugg \<equiv>
     at_line (up_file u) (up_line u)
       (mk rule (rule @ '':'' @ up_id u) sev (up_service u) (up_name u) title detail sugg)"

definition isLocalHost :: "string \<Rightarrow> bool" where
  "isLocalHost host \<longleftrightarrow>
     host = ''127.0.0.1'' \<or> host = ''localhost'' \<or> host = ''::1'' \<or> has_prefix host ''127.''"

definition member_finding :: "upstream \<Rightarrow> upstream_server \<Rightarrow> finding" where
  "member_finding u v =
     at_line (up_file u) (up_line u)
       (mk ''upstream-member-down'' (''upstream-member-down:'' @ up_id u @ '':'' @ us_Socket v) ''high''
         (up_service u) (up_name u @ '' -> '' @ us_Socket v)
         (tx ''finding.upstreamMemberDown.title'' [AStr (us_Socket v), AStr (up_name u)])
         (tx ''finding.upstreamMemberDown.detail'' [AStr (up_name u), AStr (us_Socket v)])
         (tx ''finding.upstreamMemberDown.suggestion'' []))"

definition active_servers :: "upstream \<Rightarrow> nat" where
  "active_servers u = length (filter (\<lambda>v. \<not> us_backup v \<and> \<not> us_down v) (up_servers u))"

definition pool_findings :: "index \<Rightarrow> upstream \<Rightarrow> finding list" where
  "pool_findings i u =
     (if ix_used i (pool_key (up_service u) (up_name u)) then []
      else [mk_pool u ''upstream-orphan'' ''low'' (tx ''finding.upstreamOrphan.title'' [AStr (up_name u)])
              (tx ''finding.upstreamOrphan.detail'' []) (tx ''finding.upstreamOrphan.suggestion'' [])]) @
     map (member_finding u)
       (filter (\<lambda>v. \<not> (\<not> isLocalHost (us_host v) \<or> \<not> ix_comparable i) \<and>
                  \<not> hasListener (ix_listeners i) (us_port v)) (up_servers u)) @
     (if active_servers u = 1 \<and> length (up_servers u) = 1 then
        [mk_pool u ''single-backend'' ''info'' (tx ''finding.singleBackend.title'' [AStr (up_name u)])
           (tx ''finding.singleBackend.detail'' []) (tx ''finding.singleBackend.suggestion'' [])]
      else []) @
     (if active_servers u = 0 \<and> length (up_servers u) > 0 then
        [mk_pool u ''all-backends-disabled'' ''critical''
           (tx ''finding.allBackendsDisabled.title'' [AStr (up_name u)])
           (tx ''finding.allBackendsDisabled.detail'' []) (tx ''finding.allBackendsDisabled.suggestion'' [])]
      else [])"

definition ruleUpstreams :: "snapshot \<Rightarrow> index \<Rightarrow> finding list" where
  "ruleUpstreams s i =
     concat (map (undefined_findings i) (sn_endpoints s)) @ concat (map (pool_findings i) (sn_upstreams s))"

definition checked_servers :: "upstream \<Rightarrow> nat" where
  "checked_servers u = length (filter us_checked (up_servers u))"

definition health_key :: "string \<Rightarrow> string" where
  "health_key service =
     (if service = ''haproxy'' then ''finding.backendNoHealthcheck.suggestionHAProxy''
      else if service = ''nginx'' then ''finding.backendNoHealthcheck.suggestionNginx''
      else if service = ''caddy'' then ''finding.backendNoHealthcheck.suggestionCaddy''
      else [])"

definition health_finding :: "upstream \<Rightarrow> finding" where
  "health_finding u =
     mk_pool u ''backend-no-healthcheck'' ''medium''
       (tx ''finding.backendNoHealthcheck.title'' [AStr (up_name u)])
       (tx ''finding.backendNoHealthcheck.detail''
          [AInt (int (length (up_servers u))), AInt (int (checked_servers u))])
       (tx (health_key (up_service u)) [])"

definition ruleHealthChecks :: "snapshot \<Rightarrow> finding list" where
  "ruleHealthChecks s =
     map health_finding
       (filter (\<lambda>u. \<not> (up_health u \<noteq> [] \<or> length (up_servers u) < 2) \<and>
                  checked_servers u \<noteq> length (up_servers u)) (sn_upstreams s))"

section \<open>Malware, containers, admin interfaces\<close>

definition malware_finding :: "malware_hit \<Rightarrow> finding" where
  "malware_finding h =
     at_line (mh_path h) (mh_line h)
       (mk (''malware-'' @ mh_kind h) (''malware-'' @ mh_kind h @ '':'' @ mh_object h) (mh_severity h)
         (if mh_container h \<noteq> [] then ''docker'' else ''system'') (mh_object h)
         (tx (''finding.malware.'' @ mh_kind h @ ''.title'') [AStr (mh_object h)])
         (tx (''finding.malware.'' @ mh_kind h @ ''.detail'') [AStr (mh_evidence h)])
         (tx (''finding.malware.'' @ mh_kind h @ ''.suggestion'') []))"

definition ruleMalware :: "snapshot \<Rightarrow> finding list" where
  "ruleMalware s = map malware_finding (sn_malware s)"

abbreviation mk_ct ::
  "container \<Rightarrow> string \<Rightarrow> string \<Rightarrow> string \<Rightarrow> text_ref \<Rightarrow> text_ref \<Rightarrow> text_ref \<Rightarrow> finding" where
  "mk_ct ct file rule sev title detail sugg \<equiv>
     at_line file 0 (mk rule (rule @ '':'' @ ct_name ct) sev ''docker'' (ct_name ct) title detail sugg)"

definition container_state_findings :: "container \<Rightarrow> finding list" where
  "container_state_findings ct =
     (if ct_state ct = ''restarting'' then
        [mk_ct ct (ct_compose_file ct) ''container-restarting'' ''high''
           (tx ''finding.containerRestarting.title'' [AStr (ct_name ct)])
           (tx ''finding.containerRestarting.detail'' [AStr (ct_status ct)])
           (tx ''finding.containerRestarting.suggestion'' [AStr (ct_name ct)])]
      else if ct_declared ct \<and> \<not> ct_running ct then
        [mk_ct ct (ct_compose_file ct) ''container-not-running'' ''medium''
           (tx ''finding.containerNotRunning.title'' [AStr (ct_name ct)])
           (tx ''finding.containerNotRunning.detail'' [AStr (ct_service ct), AStr (ct_compose_file ct)])
           (tx ''finding.containerNotRunning.suggestion'' [])]
      else if ct_running ct \<and> \<not> ct_declared ct then
        [mk_ct ct [] ''container-undeclared'' ''low''
           (tx ''finding.containerUndeclared.title'' [AStr (ct_name ct)])
           (tx ''finding.containerUndeclared.detail'' [])
           (tx ''finding.containerUndeclared.suggestion'' [])]
      else [])"

definition container_restart_findings :: "container \<Rightarrow> finding list" where
  "container_restart_findings ct =
     (if ct_declared ct \<and> ct_restart ct = [] then
        [mk_ct ct (ct_compose_file ct) ''container-no-restart-policy'' ''low''
           (tx ''finding.containerNoRestartPolicy.title'' [AStr (ct_name ct)])
           (tx ''finding.containerNoRestartPolicy.detail'' [])
           (tx ''finding.containerNoRestartPolicy.suggestion'' [])]
      else [])"

definition docker_cli_findings :: "snapshot \<Rightarrow> finding list" where
  "docker_cli_findings s =
     (if sn_docker_cli_missing s then
        [mk ''docker-cli-missing'' ''docker-cli-missing'' ''medium'' ''docker'' ''docker''
           (tx ''finding.dockerCLIMissing.title'' []) (tx ''finding.dockerCLIMissing.detail'' [])
           (tx ''finding.dockerCLIMissing.suggestion'' [])]
      else [])"

definition ruleContainers :: "snapshot \<Rightarrow> finding list" where
  "ruleContainers s =
     docker_cli_findings s @
     concat (map (\<lambda>ct. container_state_findings ct @ container_restart_findings ct) (sn_containers s))"

definition admin_finding :: "endpoint \<Rightarrow> finding" where
  "admin_finding e =
     at_line (ep_file e) (ep_line e)
       (mk ''admin-interface-open'' (''admin-interface-open:'' @ ep_id e)
         (if ep_Public e then ''high'' else ''medium'') (ep_service e) (ep_Socket e)
         (tx ''finding.adminInterfaceOpen.title'' [AStr (ep_label e)])
         (tx ''finding.adminInterfaceOpen.detail'' [AStr (ep_label e), AStr (ep_Socket e)])
         (tx ''finding.adminInterfaceOpen.suggestion'' []))"

definition ruleAdminInterfaces :: "snapshot \<Rightarrow> finding list" where
  "ruleAdminInterfaces s =
     map admin_finding
       (filter (\<lambda>e. field_of (ep_extra e) ''stats'' = ''enabled'' \<and>
                  field_of (ep_extra e) ''stats_auth'' = ''none'') (sn_endpoints s))"

end
