(* ===== verification/AnaK8s.thy ===== *)
theory AnaK8s
  imports AnaMore
begin

text \<open>
  The rules on a Kubernetes cluster (\<open>internal/analyze/k8s.go\<close>) and the whole run
  (\<open>Run\<close> in \<open>analyze.go\<close>). A duration is a number of nanoseconds; \<open>Sub\<close> saturates as Go's
  does. The whole days left are cut from the exact quotient: rounding of floating-point
  numbers is not modelled. The groups of the hygiene rules are association lists, their
  items sets kept as lists without repetition; the order Go ranges over them is in \<open>run_env\<close>.
\<close>

definition k8s_minute :: int where "k8s_minute = 60000000000"
definition k8sStuckAfter :: int where "k8sStuckAfter = 15 * k8s_minute"
definition k8sRecentRestart :: int where "k8sRecentRestart = 60 * k8s_minute"
definition k8s_day :: int where "k8s_day = 1440 * k8s_minute"

definition k8sBadReasons :: "string list" where
  "k8sBadReasons = [''CrashLoopBackOff'', ''ImagePullBackOff'', ''ErrImagePull'',
     ''CreateContainerConfigError'', ''CreateContainerError'', ''InvalidImageName'']"

definition k8sObj :: "string \<Rightarrow> string \<Rightarrow> string" where
  "k8sObj ns name = (if ns = [] then name else ns @ ''/'' @ name)"

definition time_sub :: "instant \<Rightarrow> instant \<Rightarrow> int" where
  "time_sub a b = max (- 9223372036854775808) (min 9223372036854775807 (a - b))"

definition k8sAge :: "run_env \<Rightarrow> snapshot \<Rightarrow> string \<Rightarrow> int" where
  "k8sAge E s created =
     (case (en_rfc3339 E created, en_rfc3339 E (sn_ts s)) of
        (Some c, Some now) \<Rightarrow> time_sub now c
      | _ \<Rightarrow> 0)"

abbreviation mk8 ::
  "string \<Rightarrow> string \<Rightarrow> string \<Rightarrow> string \<Rightarrow> text_ref \<Rightarrow> text_ref \<Rightarrow> text_ref \<Rightarrow> finding" where
  "mk8 rule obj tail sev title detail sugg \<equiv>
     mk rule (rule @ '':'' @ tail) sev ''kubernetes'' obj title detail sugg"

section \<open>Pods, nodes, workloads, volumes\<close>

definition pod_state_findings :: "run_env \<Rightarrow> snapshot \<Rightarrow> k8s_pod \<Rightarrow> finding list" where
  "pod_state_findings E s p =
     (let obj = k8sObj (kp_namespace p) (kp_name p) in
      if kp_reason p \<in> set k8sBadReasons then
        [mk8 ''k8s-pod-failing'' obj obj ''high''
           (tx ''finding.k8sPodFailing.title'' [AStr obj, AStr (kp_reason p)])
           (tx ''finding.k8sPodFailing.detail'' [AStr (kp_reason p), AInt (kp_restarts p), AStr (kp_node p)])
           (tx ''finding.k8sPodFailing.suggestion'' [])]
      else if kp_restarts p > 0 \<and> kp_last_restart p \<noteq> [] \<and> k8sAge E s (kp_last_restart p) \<ge> 0 \<and>
              k8sAge E s (kp_last_restart p) < k8sRecentRestart then
        [mk8 ''k8s-pod-restarted'' obj obj ''high''
           (tx ''finding.k8sPodRestarted.title'' [AStr obj, AInt (kp_restarts p), AStr (kp_last_restart p)])
           (tx ''finding.k8sPodRestarted.detail'' []) (tx ''finding.k8sPodRestarted.suggestion'' [])]
      else if kp_phase p = ''Pending'' \<and> k8sAge E s (kp_created p) > k8sStuckAfter then
        [mk8 ''k8s-pod-pending'' obj obj ''medium'' (tx ''finding.k8sPodPending.title'' [AStr obj])
           (tx ''finding.k8sPodPending.detail'' []) (tx ''finding.k8sPodPending.suggestion'' [])]
      else [])"

definition pod_privilege_findings :: "k8s_pod \<Rightarrow> finding list" where
  "pod_privilege_findings p =
     (let obj = k8sObj (kp_namespace p) (kp_name p);
          what = (if length (kp_privileged p) > 0
                  then [''privileged: '' @ join '', '' (kp_privileged p)] else []) @
                 (if kp_host_network p then [''hostNetwork''] else [])
      in if length (kp_privileged p) > 0 \<or> kp_host_network p then
           [mk8 ''k8s-pod-privileged'' obj obj
              (if has_prefix (kp_namespace p) ''kube-'' then ''low'' else ''medium'')
              (tx ''finding.k8sPodPrivileged.title'' [AStr obj, AStr (join ''; '' what)])
              (tx ''finding.k8sPodPrivileged.detail'' []) (tx ''finding.k8sPodPrivileged.suggestion'' [])]
         else [])"

definition pod_findings :: "run_env \<Rightarrow> snapshot \<Rightarrow> k8s_state \<Rightarrow> finding list" where
  "pod_findings E s k =
     concat (map (\<lambda>p. pod_state_findings E s p @ pod_privilege_findings p) (k8_pods k))"

definition node_findings :: "k8s_state \<Rightarrow> finding list" where
  "node_findings k =
     map (\<lambda>n. mk8 ''k8s-node-notready'' (kn_name n) (kn_name n) ''high''
                (tx ''finding.k8sNodeNotReady.title'' [AStr (kn_name n)])
                (tx ''finding.k8sNodeNotReady.detail'' [AStr (kn_name n)])
                (tx ''finding.k8sNodeNotReady.suggestion'' []))
       (filter (\<lambda>n. \<not> kn_ready n) (k8_nodes k))"

definition workload_finding :: "k8s_workload \<Rightarrow> finding" where
  "workload_finding w =
     (let obj = k8sObj (kw_namespace w) (kw_name w) in
      mk8 ''k8s-workload-unavailable'' obj (kw_kind w @ '':'' @ obj)
        (if kw_available w = 0 then ''high'' else ''medium'')
        (tx ''finding.k8sWorkloadUnavailable.title''
           [AStr (kw_kind w), AStr obj, AInt (kw_available w), AInt (kw_desired w)])
        (tx ''finding.k8sWorkloadUnavailable.detail'' [])
        (tx ''finding.k8sWorkloadUnavailable.suggestion'' []))"

definition workload_findings :: "k8s_state \<Rightarrow> finding list" where
  "workload_findings k =
     map workload_finding
       (filter (\<lambda>w. \<not> (kw_desired w = 0 \<or> kw_available w \<ge> kw_desired w)) (k8_workloads k))"

definition pvc_findings :: "run_env \<Rightarrow> snapshot \<Rightarrow> k8s_state \<Rightarrow> finding list" where
  "pvc_findings E s k =
     map (\<lambda>v. let obj = k8sObj (kv_namespace v) (kv_name v) in
            mk8 ''k8s-pvc-pending'' obj obj ''medium'' (tx ''finding.k8sPVCPending.title'' [AStr obj])
              (tx ''finding.k8sPVCPending.detail'' []) (tx ''finding.k8sPVCPending.suggestion'' []))
       (filter (\<lambda>v. \<not> (kv_phase v \<noteq> ''Pending'' \<or> k8sAge E s (kv_created v) \<le> k8sStuckAfter)) (k8_pvcs k))"

definition whole_days :: "int \<Rightarrow> int" where
  "whole_days d = (if d \<ge> 0 then d div k8s_day else - ((- d) div k8s_day))"

definition api_cert_findings :: "run_env \<Rightarrow> instant \<Rightarrow> k8s_cert \<Rightarrow> finding list" where
  "api_cert_findings E now c =
     (case en_rfc3339 E (kc_not_after c) of
        None \<Rightarrow> []
      | Some na \<Rightarrow>
          if now = 0 then []
          else let left = time_sub na now in
            if left > 30 * k8s_day then []
            else [at_line (kc_path c) 0
                    (mk8 ''k8s-cert-expiring'' (kc_path c) (kc_path c)
                      (if left \<le> 0 then ''critical'' else ''high'')
                      (tx ''finding.k8sCertExpiring.title'' [AInt (whole_days left)])
                      (tx ''finding.k8sCertExpiring.detail'' [AStr (kc_path c), AStr (kc_not_after c)])
                      (tx ''finding.k8sCertExpiring.suggestion'' []))])"

definition zero_time :: "instant option \<Rightarrow> instant" where
  "zero_time t = (case t of None \<Rightarrow> 0 | Some n \<Rightarrow> n)"

section \<open>Ports that bypass the firewall\<close>

definition exposed_ports :: "k8s_service \<Rightarrow> k8s_service_port \<Rightarrow> int list" where
  "exposed_ports v p =
     kq_node_port p #
     (if ks_type v = ''LoadBalancer'' \<and> kq_port p \<noteq> kq_node_port p then [kq_port p] else [])"

definition nodeport_finding :: "k8s_service \<Rightarrow> int \<Rightarrow> finding" where
  "nodeport_finding v port =
     (let obj = socket_str (k8sObj (ks_namespace v) (ks_name v)) port in
      mk8 ''k8s-port-bypasses-firewall'' obj obj
        (if lookup sensitivePorts port \<noteq> None then ''high'' else ''medium'')
        (tx ''finding.k8sPortBypassesFirewall.title''
           [AStr (k8sObj (ks_namespace v) (ks_name v)), AStr (ks_type v), AInt port])
        (tx ''finding.k8sPortBypassesFirewall.detail'' [AInt port])
        (tx ''finding.k8sPortBypassesFirewall.suggestion'' []))"

definition service_findings :: "index \<Rightarrow> k8s_service \<Rightarrow> finding list" where
  "service_findings i v =
     (if ks_type v \<noteq> ''NodePort'' \<and> ks_type v \<noteq> ''LoadBalancer'' then []
      else map (nodeport_finding v)
        (filter (\<lambda>port. \<not> (port = 0 \<or> allowedFromAnywhere i port))
           (concat (map (exposed_ports v) (ks_ports v)))))"

section \<open>Hygiene\<close>

definition k8sWorkload :: "k8s_pod \<Rightarrow> string" where
  "k8sWorkload p =
     (let (kind, name, ok) = cut (kp_owner p) ''/'' in
      if \<not> ok then kp_name p
      else if kind = ''ReplicaSet'' then
        (case last_index (CHR ''-'') name of Some i \<Rightarrow> if i > 0 then take i name else name | None \<Rightarrow> name)
      else name)"

definition k8sSystemNS :: "string \<Rightarrow> bool" where
  "k8sSystemNS ns = has_prefix ns ''kube-''"

definition latestTag :: "string \<Rightarrow> bool" where
  "latestTag img =
     (if contains img ''@'' then False
      else let last = (case last_index (CHR ''/'') img of None \<Rightarrow> img | Some i \<Rightarrow> drop (i + 1) img);
               tag = (case last_index (CHR '':'') last of None \<Rightarrow> [] | Some i \<Rightarrow> drop (i + 1) last)
        in tag = [] \<or> tag = ''latest'')"

type_synonym groups = "string list strmap"

definition group_add :: "k8s_pod \<Rightarrow> string \<Rightarrow> groups \<Rightarrow> groups" where
  "group_add p item m =
     (let key = kp_namespace p @ ''/'' @ k8sWorkload p;
          items = group_of m key
      in put key (if item \<in> set items then items else items @ [item]) m)"

definition hygiene_pods :: "k8s_state \<Rightarrow> k8s_pod list" where
  "hygiene_pods k = filter (\<lambda>p. \<not> k8sSystemNS (kp_namespace p)) (k8_pods k)"

definition no_limits_groups :: "k8s_state \<Rightarrow> groups" where
  "no_limits_groups k = fold (\<lambda>p. fold (group_add p) (kp_no_limits p)) (hygiene_pods k) []"

definition latest_groups :: "k8s_state \<Rightarrow> groups" where
  "latest_groups k = fold (\<lambda>p. fold (group_add p) (filter latestTag (kp_images p))) (hygiene_pods k) []"

definition sorted_items :: "string list \<Rightarrow> string" where
  "sorted_items items = join '', '' (sort items)"

definition no_limits_finding :: "groups \<Rightarrow> string \<Rightarrow> finding" where
  "no_limits_finding m key =
     mk8 ''k8s-no-limits'' key key ''low''
       (tx ''finding.k8sNoLimits.title'' [AStr key, AStr (sorted_items (group_of m key))])
       (tx ''finding.k8sNoLimits.detail'' []) (tx ''finding.k8sNoLimits.suggestion'' [])"

definition latest_finding :: "groups \<Rightarrow> string \<Rightarrow> finding" where
  "latest_finding m key =
     mk8 ''k8s-image-latest'' key key ''low''
       (tx ''finding.k8sImageLatest.title'' [AStr key, AStr (sorted_items (group_of m key))])
       (tx ''finding.k8sImageLatest.detail'' []) (tx ''finding.k8sImageLatest.suggestion'' [])"

definition admin_binding_findings :: "k8s_binding \<Rightarrow> finding list" where
  "admin_binding_findings b =
     concat (map (\<lambda>sub.
       let (kind, who, _) = cut sub '':'' in
       if who = ''system:masters'' \<or> kind = ''ServiceAccount'' \<and> has_prefix who ''kube-'' then []
       else [mk8 ''k8s-cluster-admin'' who (kb_name b @ '':'' @ sub)
               (if kind = ''ServiceAccount'' then ''high'' else ''medium'')
               (tx ''finding.k8sClusterAdmin.title'' [AStr kind, AStr who, AStr (kb_name b)])
               (tx ''finding.k8sClusterAdmin.detail'' []) (tx ''finding.k8sClusterAdmin.suggestion'' [])])
       (kb_subjects b))"

definition netpol_findings :: "k8s_state \<Rightarrow> finding list" where
  "netpol_findings k =
     map (\<lambda>ns. mk8 ''k8s-no-networkpolicy'' ns ns ''low'' (tx ''finding.k8sNoNetworkPolicy.title'' [AStr ns])
             (tx ''finding.k8sNoNetworkPolicy.detail'' []) (tx ''finding.k8sNoNetworkPolicy.suggestion'' []))
       (filter (\<lambda>ns. ns \<notin> set (k8_netpol_namespaces k))
          (sort (remdups (map kp_namespace (hygiene_pods k)))))"

definition ruleK8sHygiene :: "run_env \<Rightarrow> k8s_state \<Rightarrow> finding list" where
  "ruleK8sHygiene E k =
     map (no_limits_finding (no_limits_groups k)) (en_no_limits E (map fst (no_limits_groups k))) @
     map (latest_finding (latest_groups k)) (en_latest E (map fst (latest_groups k))) @
     concat (map admin_binding_findings (k8_admin_bindings k)) @
     netpol_findings k"

definition ruleKubernetes :: "run_env \<Rightarrow> snapshot \<Rightarrow> index \<Rightarrow> finding list" where
  "ruleKubernetes E s i =
     (case sn_k8s s of
        None \<Rightarrow> []
      | Some k \<Rightarrow>
          pod_findings E s k @ ruleK8sHygiene E k @ node_findings k @ workload_findings k @
          pvc_findings E s k @
          concat (map (api_cert_findings E (zero_time (en_rfc3339 E (sn_ts s)))) (k8_certs k)) @
          (if \<not> default_deny s i then [] else concat (map (service_findings i) (k8_services k))))"

section \<open>The run\<close>

definition rule_findings :: "run_env \<Rightarrow> snapshot \<Rightarrow> finding list" where
  "rule_findings E s =
     (let i = buildIndex E s in
      rulePortConflicts E s @
      ruleDeclaredNotListening s i @
      ruleListeningNotDeclared s i @
      ruleFirewallDefaultPolicy s i @
      rulePublicPortWithoutRule s i @
      ruleDockerBypassesFirewall s i @
      ruleStaleFirewallRules E s i @
      ruleSensitivePortsPublic s i @
      ruleTLS s @
      ruleCertificates E s @
      rulePlaintextProxy s @
      ruleUpstreams s i @
      ruleHealthChecks s @
      ruleContainers s @
      ruleKubernetes E s i @
      ruleMalware s @
      ruleAdminInterfaces s)"

definition Run :: "run_env \<Rightarrow> snapshot \<Rightarrow> finding list" where
  "Run E s =
     SortFindings
       (co_findings (fold collector_add (rule_findings E s) \<lparr>co_findings = [], co_seen = []\<rparr>))"

end
