(* ===== verification/TopoBuild.thy ===== *)
theory TopoBuild
  imports AnaK8s
begin

text \<open>
  The resource map (\<open>internal/topology/topology.go\<close>): nodes, edges, the builder and its
  operations. A nil Go map of metadata is \<open>None\<close>; writing into it, or through the pointer to
  a node that is not there, would panic and sets \<open>bd_panic\<close>. The texts of the catalog in the
  language of the request and the decoder of internationalised names are parameters.
\<close>

record node =
  nd_id :: string
  nd_kind :: string
  nd_label :: string
  nd_sublabel :: string
  nd_group :: string
  nd_status :: string
  nd_findings :: nat
  nd_severity :: string
  nd_port :: int
  nd_public :: bool
  nd_meta :: "string strmap option"

record edge =
  ed_id :: string
  ed_from :: string
  ed_to :: string
  ed_kind :: string
  ed_label :: string
  ed_status :: string

record finding_ref =
  fg_node :: string
  fg_title :: text_ref
  fg_severity :: string

record graph =
  gr_nodes :: "node list"
  gr_edges :: "edge list"
  gr_stats :: "string \<Rightarrow> nat"
  gr_findings :: "finding_ref list"

record builder =
  bd_nodes :: "string \<Rightarrow> node option"
  bd_order :: "string list"
  bd_edges :: "edge list"
  bd_edge_seen :: "string list"
  bd_findings :: "finding_ref list"
  bd_panic :: bool

record topo_env =
  te_run :: run_env
  te_t :: "string \<Rightarrow> arg list \<Rightarrow> string"
  te_idna :: "string \<Rightarrow> string option"

abbreviation mk_node :: "string \<Rightarrow> string \<Rightarrow> string \<Rightarrow> string \<Rightarrow> string \<Rightarrow> string \<Rightarrow> string strmap option \<Rightarrow> node" where
  "mk_node ident kind label sub grp status meta \<equiv>
     \<lparr>nd_id = ident, nd_kind = kind, nd_label = label, nd_sublabel = sub, nd_group = grp,
      nd_status = status, nd_findings = 0, nd_severity = [], nd_port = 0, nd_public = False, nd_meta = meta\<rparr>"

section \<open>Ranks\<close>

definition statusRank :: "string \<Rightarrow> nat" where
  "statusRank s = (if s = ''error'' then 3 else if s = ''warn'' then 2 else if s = ''ok'' then 1 else 0)"

definition node_kinds :: "string list" where
  "node_kinds = [''internet'', ''host'', ''service'', ''endpoint'', ''undeclared'', ''upstream'', ''backend'',
     ''container'', ''podman_container'', ''lxd_instance'', ''vm'', ''network'', ''k8s_ingress'', ''k8s_service'',
     ''k8s_pod'', ''k8s_node'']"

fun rank_in :: "string list \<Rightarrow> string \<Rightarrow> nat" where
  "rank_in [] k = 0"
| "rank_in (x # xs) k = (if k = x then 0 else Suc (rank_in xs k))"

definition kindRank :: "string \<Rightarrow> nat" where
  "kindRank kind = rank_in node_kinds kind"

definition statusOfNode :: "string \<Rightarrow> string" where
  "statusOfNode s = (if s = [] then ''ok'' else s)"

section \<open>The operations of the builder\<close>

definition merge_node :: "node \<Rightarrow> node \<Rightarrow> node" where
  "merge_node ex n =
     (let ex = (if statusRank (nd_status n) > statusRank (nd_status ex) then ex\<lparr>nd_status := nd_status n\<rparr> else ex)
      in if nd_sublabel ex = [] then ex\<lparr>nd_sublabel := nd_sublabel n\<rparr> else ex)"

definition add_node :: "node \<Rightarrow> builder \<Rightarrow> builder" where
  "add_node n b =
     (case bd_nodes b (nd_id n) of
        Some ex \<Rightarrow> b\<lparr>bd_nodes := (bd_nodes b)(nd_id n \<mapsto> merge_node ex n)\<rparr>
      | None \<Rightarrow>
          let n = (if nd_status n = [] then n\<lparr>nd_status := ''unknown''\<rparr> else n) in
          b\<lparr>bd_nodes := (bd_nodes b)(nd_id n \<mapsto> n), bd_order := bd_order b @ [nd_id n]\<rparr>)"

definition edge_ident :: "string \<Rightarrow> string \<Rightarrow> string \<Rightarrow> string \<Rightarrow> string" where
  "edge_ident from to kind label = from @ ''->'' @ to @ '':'' @ kind @ '':'' @ label"

definition add_edge :: "string \<Rightarrow> string \<Rightarrow> string \<Rightarrow> string \<Rightarrow> string \<Rightarrow> builder \<Rightarrow> builder" where
  "add_edge from to kind label status b =
     (if from = [] \<or> to = [] \<or> from = to then b
      else let ident = edge_ident from to kind label in
        if ident \<in> set (bd_edge_seen b) then b
        else b\<lparr>bd_edge_seen := ident # bd_edge_seen b,
               bd_edges := bd_edges b @
                 [\<lparr>ed_id = ident, ed_from = from, ed_to = to, ed_kind = kind, ed_label = label,
                   ed_status = (if status = [] then ''ok'' else status)\<rparr>]\<rparr>)"

definition worst_severity :: "finding list \<Rightarrow> string" where
  "worst_severity fs =
     fold (\<lambda>f worst. if SeverityRank (fd_severity f) < SeverityRank worst then fd_severity f else worst)
       fs (fd_severity (hd fs))"

definition flag_status :: "string \<Rightarrow> string \<Rightarrow> string" where
  "flag_status worst st =
     (if worst = ''critical'' \<or> worst = ''high'' then ''error''
      else if worst = ''medium'' \<and> st = ''ok'' then ''warn'' else st)"

definition by_subject :: "snapshot \<Rightarrow> string \<Rightarrow> finding list" where
  "by_subject s = fold (\<lambda>f m. m(fd_object f := m (fd_object f) @ [f])) (sn_findings s) (\<lambda>_. [])"

definition attachFindings :: "(string \<Rightarrow> finding list) \<Rightarrow> string \<Rightarrow> string \<Rightarrow> builder \<Rightarrow> builder" where
  "attachFindings subj ident subject b =
     (let fs = subj subject in
      if length fs = 0 then b
      else case bd_nodes b ident of
        None \<Rightarrow> b
      | Some n \<Rightarrow>
          let worst = worst_severity fs;
              n = n\<lparr>nd_findings := length fs, nd_severity := worst, nd_status := flag_status worst (nd_status n)\<rparr>
          in b\<lparr>bd_nodes := (bd_nodes b)(ident \<mapsto> n),
               bd_findings := bd_findings b @
                 map (\<lambda>f. \<lparr>fg_node = ident, fg_title = fd_title f, fg_severity = fd_severity f\<rparr>) fs\<rparr>)"

definition has_node :: "builder \<Rightarrow> string \<Rightarrow> bool" where
  "has_node b ident \<longleftrightarrow> bd_nodes b ident \<noteq> None"

text \<open>Writing through the pointer \<open>b.nodes[id]\<close>, and into the map of its metadata.\<close>

definition update_node :: "string \<Rightarrow> (node \<Rightarrow> node) \<Rightarrow> builder \<Rightarrow> builder" where
  "update_node ident f b =
     (case bd_nodes b ident of
        None \<Rightarrow> b\<lparr>bd_panic := True\<rparr>
      | Some n \<Rightarrow> b\<lparr>bd_nodes := (bd_nodes b)(ident \<mapsto> f n)\<rparr>)"

definition write_meta :: "string \<Rightarrow> string \<Rightarrow> string \<Rightarrow> builder \<Rightarrow> builder" where
  "write_meta ident k v b =
     (case bd_nodes b ident of
        None \<Rightarrow> b\<lparr>bd_panic := True\<rparr>
      | Some n \<Rightarrow>
          case nd_meta n of
            None \<Rightarrow> b\<lparr>bd_panic := True\<rparr>
          | Some m \<Rightarrow> b\<lparr>bd_nodes := (bd_nodes b)(ident \<mapsto> n\<lparr>nd_meta := Some (put k v m)\<rparr>)\<rparr>)"

section \<open>Addresses\<close>

definition isLoopback :: "string \<Rightarrow> bool" where
  "isLoopback host \<longleftrightarrow>
     host = ''127.0.0.1'' \<or> host = ''localhost'' \<or> host = ''::1'' \<or> has_prefix host ''127.''"

definition displayHost :: "string \<Rightarrow> string" where
  "displayHost host = (if isLoopback host then ''localhost'' else host)"

definition displaySocket :: "string \<Rightarrow> string" where
  "displaySocket socket =
     (let (host, port, ok) = cut socket '':'' in if \<not> ok then socket else displayHost host @ '':'' @ port)"

definition backendStatus :: "string \<Rightarrow> int list \<Rightarrow> string" where
  "backendStatus socket listening =
     (let (host, portStr, ok) = cut socket '':'' in
      if \<not> ok \<or> length listening = 0 then ''unknown''
      else let (port, ok) = atoi portStr in
        if \<not> ok then ''unknown''
        else if \<not> isLoopback host then ''unknown''
        else if port \<in> set listening then ''ok''
        else ''error'')"

text \<open>\<open>strings.Trim\<close> with a cutset of single bytes.\<close>

definition trim_set :: "string \<Rightarrow> string \<Rightarrow> string" where
  "trim_set cutset s = rev (dropWhile (\<lambda>c. c \<in> set cutset) (rev (dropWhile (\<lambda>c. c \<in> set cutset) s)))"

definition lxdListen :: "string \<Rightarrow> string \<times> int \<times> bool" where
  "lxdListen s =
     (let (_, rest, ok) = cut s '':'' in
      if \<not> ok then ([], 0, False)
      else case last_index (CHR '':'') rest of
        None \<Rightarrow> ([], 0, False)
      | Some i \<Rightarrow>
          let (port, ok) = atoi (drop (i + 1) rest) in
          if \<not> ok \<or> port \<le> 0 then ([], 0, False)
          else (trim_set ''[]'' (take i rest), port, True))"

definition unicodeHint :: "(string \<Rightarrow> string option) \<Rightarrow> string list \<Rightarrow> string" where
  "unicodeHint idna names = join '', '' (filter (\<lambda>u. u \<noteq> []) (map (HostnameUnicode idna) names))"

definition fmt_bool :: "bool \<Rightarrow> string" where
  "fmt_bool v = (if v then ''true'' else ''false'')"

section \<open>Who serves a backend\<close>

fun first_some :: "('a \<Rightarrow> 'b option) \<Rightarrow> 'a list \<Rightarrow> 'b option" where
  "first_some f [] = None"
| "first_some f (x # xs) = (case f x of Some y \<Rightarrow> Some y | None \<Rightarrow> first_some f xs)"

definition arrow :: string where "arrow = [CHR 0xE2, CHR 0x86, CHR 0x92]"
definition middle_dot :: string where "middle_dot = [CHR 0x20, CHR 0xC2, CHR 0xB7, CHR 0x20]"
definition em_dash :: string where "em_dash = [CHR 0xE2, CHR 0x80, CHR 0x94]"

definition container_serves :: "string \<Rightarrow> int \<Rightarrow> string \<Rightarrow> container \<Rightarrow> (string \<times> string) option" where
  "container_serves host port portStr ct =
     (case find (\<lambda>p. pm_host_port p = port \<and>
                   (isLoopback host \<or> pm_host_ip p = host \<or> pm_host_ip p = [] \<or> pm_host_ip p = ''0.0.0.0''))
             (ct_ports ct) of
        Some p \<Rightarrow> Some (''ct:'' @ ct_name ct, itoa (pm_host_port p) @ arrow @ itoa (pm_container_port p))
      | None \<Rightarrow>
          case find (\<lambda>n. cn_ip n \<noteq> [] \<and> cn_ip n = host) (ct_networks ct) of
            Some n \<Rightarrow> Some (''ct:'' @ ct_name ct, portStr)
          | None \<Rightarrow> None)"

definition lxd_serves :: "string \<Rightarrow> string \<Rightarrow> lxd_instance \<Rightarrow> (string \<times> string) option" where
  "lxd_serves host portStr x = (if host \<in> set (lx_ipv4 x) then Some (''lxd:'' @ lx_name x, portStr) else None)"

definition vm_serves :: "string \<Rightarrow> string \<Rightarrow> virtual_machine \<Rightarrow> (string \<times> string) option" where
  "vm_serves host portStr v =
     (if list_ex (\<lambda>n. vi_ip n \<noteq> [] \<and> vi_ip n = host) (vm_networks v) then Some (''vm:'' @ vm_name v, portStr) else None)"

definition served_by :: "snapshot \<Rightarrow> string \<Rightarrow> int \<Rightarrow> string \<Rightarrow> (string \<times> string) option" where
  "served_by s host port portStr =
     (case first_some (container_serves host port portStr) (sn_containers s) of
        Some t \<Rightarrow> Some t
      | None \<Rightarrow>
          case first_some (lxd_serves host portStr) (sn_lxd s) of
            Some t \<Rightarrow> Some t
          | None \<Rightarrow> first_some (vm_serves host portStr) (sn_vms s))"

definition linkBackendToContainer :: "snapshot \<Rightarrow> string \<Rightarrow> string \<Rightarrow> builder \<Rightarrow> builder" where
  "linkBackendToContainer s beID socket b =
     (let (host, portStr, ok) = cut socket '':'' in
      if \<not> ok then b
      else let (port, ok) = atoi portStr in
        if \<not> ok then b
        else case served_by s host port portStr of
          None \<Rightarrow> b
        | Some (to, label) \<Rightarrow> add_edge beID to ''served-by'' label ''ok'' b)"

section \<open>Services, containers, instances, machines\<close>

definition build_service :: "service_unit \<Rightarrow> builder \<Rightarrow> builder" where
  "build_service u b =
     (if \<not> su_installed u \<and> su_active_state u = ''unknown'' then b
      else
        let status = (if su_active_state u = ''failed'' then ''error''
                      else if su_active_state u = ''inactive'' \<or> su_active_state u = ''unknown'' then ''warn''
                      else ''ok'')
        in add_node (mk_node (''svc:'' @ su_name u) ''service'' (su_name u) (su_active_state u) (su_name u) status
             (Some [(''unit'', su_unit u), (''enabled'', su_enabled u), (''sub_state'', su_sub_state u)])) b)"

definition managed_by :: "string \<Rightarrow> string \<Rightarrow> builder \<Rightarrow> builder" where
  "managed_by svc ident b = (if has_node b svc then add_edge svc ident ''manages'' [] ''ok'' b else b)"

text \<open>A network and the link to it, drawn for each network of a container, an instance or a machine.\<close>

definition link_network :: "string \<Rightarrow> string \<Rightarrow> string \<Rightarrow> string \<Rightarrow> string \<Rightarrow> string \<Rightarrow> builder \<Rightarrow> builder" where
  "link_network ident netID label sub grp ip b =
     add_edge ident netID ''attached'' ip ''ok'' (add_node (mk_node netID ''network'' label sub grp ''ok'' None) b)"

definition build_container :: "(string \<Rightarrow> finding list) \<Rightarrow> container \<Rightarrow> builder \<Rightarrow> builder" where
  "build_container subj ct b =
     (let ident = ''ct:'' @ ct_name ct;
          status = (if ct_state ct = ''restarting'' \<or> ct_state ct = ''dead'' then ''error''
                    else if \<not> ct_running ct then ''warn'' else ''ok'');
          b = add_node (mk_node ident ''container'' (ct_name ct) (ct_image ct) ''docker'' status
                (Some [(''state'', ct_state ct), (''status'', ct_status ct), (''project'', ct_project ct),
                       (''service'', ct_service ct), (''restart'', ct_restart ct)])) b;
          b = attachFindings subj ident (ct_name ct) b;
          b = fold (\<lambda>n. link_network ident (''net:'' @ cn_name n) (cn_name n) ''docker network'' ''docker'' (cn_ip n))
               (ct_networks ct) b
      in managed_by ''svc:docker'' ident b)"

definition build_podman :: "(string \<Rightarrow> finding list) \<Rightarrow> podman_container \<Rightarrow> builder \<Rightarrow> builder" where
  "build_podman subj pc b =
     (let ident = ''pod:'' @ pc_name pc;
          status = (if pc_state pc \<in> {''exited'', ''dead'', ''stopped''} then ''warn''
                    else if pc_state pc = ''restarting'' then ''error'' else ''ok'');
          b = add_node (mk_node ident ''podman_container'' (pc_name pc) (pc_image pc) ''podman'' status
                (Some [(''state'', pc_state pc), (''status'', pc_status pc), (''pod'', pc_pod pc)])) b;
          b = attachFindings subj ident (pc_name pc) b
      in managed_by ''svc:podman'' ident b)"

definition build_lxd_port :: "lxd_instance \<Rightarrow> lxd_port \<Rightarrow> builder \<Rightarrow> builder" where
  "build_lxd_port x p b =
     (let (addr, port, ok) = lxdListen (lp_listen p) in
      if \<not> ok then b
      else
        let epID = ''ep:lxd:'' @ lx_name x @ '':'' @ lp_device p;
            public = (addr = [] \<or> addr = ''0.0.0.0'' \<or> addr = ''::'');
            b = add_node ((mk_node epID ''endpoint'' ('':'' @ itoa port) (''lxd proxy '' @ lp_device p) ''lxd'' ''ok''
                  (Some [(''listen'', lp_listen p), (''connect'', lp_connect p)]))\<lparr>nd_port := port, nd_public := public\<rparr>) b;
            b = add_edge ''host'' epID ''listens'' [] ''ok'' b;
            b = (if public then add_edge ''internet'' epID ''ingress'' ''tcp'' ''ok'' b else b);
            (_, cport, _) = lxdListen (lp_connect p)
        in add_edge epID (''lxd:'' @ lx_name x) ''publishes'' (itoa cport) ''ok'' b)"

definition build_lxd :: "(string \<Rightarrow> finding list) \<Rightarrow> lxd_instance \<Rightarrow> builder \<Rightarrow> builder" where
  "build_lxd subj x b =
     (let ident = ''lxd:'' @ lx_name x;
          status = (if lx_status x \<noteq> ''running'' then ''warn'' else ''ok'');
          b = add_node (mk_node ident ''lxd_instance'' (lx_name x) (lx_type x) ''lxd'' status
                (Some [(''status'', lx_status x), (''type'', lx_type x), (''architecture'', lx_architecture x)])) b;
          b = attachFindings subj ident (lx_name x) b;
          b = managed_by ''svc:lxd'' ident b;
          ip = (if length (lx_ipv4 x) > 0 then hd (lx_ipv4 x) else []);
          b = (if length (lx_ipv4 x) > 0 then write_meta ident ''ip'' (join '', '' (lx_ipv4 x)) b else b);
          b = fold (\<lambda>n. link_network ident (''net:lxd:'' @ n) n ''LXD'' ''lxd'' ip) (lx_networks x) b
      in fold (build_lxd_port x) (lx_ports x) b)"

definition build_vm :: "(string \<Rightarrow> finding list) \<Rightarrow> virtual_machine \<Rightarrow> builder \<Rightarrow> builder" where
  "build_vm subj v b =
     (let ident = ''vm:'' @ vm_name v;
          status = (if vm_state v = ''crashed'' then ''error''
                    else if vm_state v = ''shut off'' \<or> vm_state v = ''paused'' then ''warn'' else ''ok'');
          b = add_node (mk_node ident ''vm'' (vm_name v) (itoa (vm_vcpus v) @ '' vCPU'') ''libvirt'' status
                (Some [(''state'', vm_state v), (''persistent'', fmt_bool (vm_persistent v)),
                       (''autostart'', fmt_bool (vm_autostart v)), (''uuid'', vm_uuid v)])) b;
          b = attachFindings subj ident (vm_name v) b;
          b = managed_by ''svc:libvirt'' ident b;
          ips = filter (\<lambda>ip. ip \<noteq> []) (map vi_ip (vm_networks v));
          b = fold (\<lambda>n b. if vi_source n = [] then b
                 else link_network ident (''net:libvirt:'' @ vi_source n) (vi_source n) ''libvirt'' ''libvirt'' (vi_ip n) b)
               (vm_networks v) b
      in if length ips > 0 then write_meta ident ''ip'' (join '', '' ips) b else b)"

definition build_network :: "docker_network \<Rightarrow> builder \<Rightarrow> builder" where
  "build_network n b =
     (let netID = ''net:'' @ dn_name n;
          sub = join '', '' (dn_subnets n);
          meta = Some [(''driver'', dn_driver n), (''bridge'', dn_bridge n), (''gateway'', dn_gateway n)]
      in if has_node b netID then update_node netID (\<lambda>x. x\<lparr>nd_sublabel := sub, nd_meta := meta\<rparr>) b
         else add_node (mk_node netID ''network'' (dn_name n) sub ''docker'' ''ok'' meta) b)"

end
