(* ===== verification/TopoGraph.thy ===== *)
theory TopoGraph
  imports TopoBuild
begin

text \<open>
  The rest of the resource map: the objects of a Kubernetes cluster (\<open>internal/topology/k8s.go\<close>),
  upstreams, endpoints with their routes, the listeners nothing declares, and \<open>Build\<close>, which
  runs the steps in the order of the code and sorts what they made.
\<close>

section \<open>Kubernetes\<close>

definition k8sKey :: "string \<Rightarrow> string \<Rightarrow> string" where
  "k8sKey ns name = (if ns = [] then name else ns @ ''/'' @ name)"

definition selects :: "string strmap \<Rightarrow> string strmap \<Rightarrow> bool" where
  "selects sel labels = (if length sel = 0 then False else list_all (\<lambda>(k, v). field_of labels k = v) sel)"

definition containsIP :: "string \<Rightarrow> string \<Rightarrow> bool" where
  "containsIP lst ip = list_ex (\<lambda>p. trim_space p = ip) (split_char (CHR '','') lst)"

definition runs_on :: "k8s_node \<Rightarrow> node \<Rightarrow> bool" where
  "runs_on n m \<longleftrightarrow>
     (nd_kind m = ''vm'' \<or> nd_kind m = ''lxd_instance'') \<and>
     (nd_label m = kn_name n \<or>
      (kn_ip n \<noteq> [] \<and> (case nd_meta m of None \<Rightarrow> False | Some meta \<Rightarrow> containsIP (field_of meta ''ip'') (kn_ip n))))"

definition link_machine :: "k8s_node \<Rightarrow> string \<Rightarrow> string \<Rightarrow> builder \<Rightarrow> builder" where
  "link_machine n ident cand b =
     (case bd_nodes b cand of
        None \<Rightarrow> b\<lparr>bd_panic := True\<rparr>
      | Some m \<Rightarrow> if runs_on n m then add_edge ident cand ''runs_on'' (kn_ip n) ''ok'' b else b)"

definition build_k8s_node :: "(string \<Rightarrow> finding list) \<Rightarrow> k8s_node \<Rightarrow> builder \<Rightarrow> builder" where
  "build_k8s_node subj n b =
     (let ident = ''k8s:node:'' @ kn_name n;
          status = (if \<not> kn_ready n then ''error'' else if kn_unschedulable n then ''warn'' else ''ok'');
          sub = (if \<not> kn_ready n then ''NotReady'' else ''Ready'');
          sub = (if kn_unschedulable n then sub @ '', cordon'' else sub);
          b = add_node (mk_node ident ''k8s_node'' (kn_name n) sub ''kubernetes'' status (Some [(''ip'', kn_ip n)])) b;
          b = attachFindings subj ident (kn_name n) b
      in fold (link_machine n ident) (bd_order b) b)"

definition pod_ident :: "k8s_pod \<Rightarrow> string" where
  "pod_ident p = ''k8s:pod:'' @ k8sKey (kp_namespace p) (kp_name p)"

definition build_k8s_pod :: "(string \<Rightarrow> finding list) \<Rightarrow> k8s_pod \<Rightarrow> builder \<Rightarrow> builder" where
  "build_k8s_pod subj p b =
     (let key = k8sKey (kp_namespace p) (kp_name p);
          ident = pod_ident p;
          (status, sub) =
            (if kp_reason p \<noteq> [] then (''error'', kp_reason p)
             else if kp_phase p = ''Pending'' \<or> kp_phase p = ''Failed'' \<or> kp_phase p = ''Unknown''
             then (''warn'', kp_phase p)
             else if kp_phase p = ''Running'' \<and> \<not> kp_ready p then (''warn'', kp_phase p)
             else (''ok'', kp_phase p));
          meta = [(''namespace'', kp_namespace p), (''phase'', kp_phase p), (''restarts'', itoa (kp_restarts p))];
          meta = (if kp_ip p \<noteq> [] then put ''ip'' (kp_ip p) meta else meta);
          meta = (if kp_owner p \<noteq> [] then put ''owner'' (kp_owner p) meta else meta);
          b = add_node (mk_node ident ''k8s_pod'' (kp_name p) (kp_namespace p @ middle_dot @ sub) ''kubernetes'' status
                (Some meta)) b;
          b = attachFindings subj ident key b
      in if kp_node p \<noteq> [] then add_edge ident (''k8s:node:'' @ kp_node p) ''scheduled'' [] ''ok'' b else b)"

definition public_port :: "k8s_service \<Rightarrow> k8s_service_port \<Rightarrow> int" where
  "public_port v p =
     (if ks_type v = ''NodePort'' \<or> ks_type v = ''LoadBalancer''
      then (if ks_type v = ''LoadBalancer'' then kq_port p else kq_node_port p) else 0)"

definition port_text :: "k8s_service_port \<Rightarrow> string" where
  "port_text p = (if kq_node_port p > 0 then itoa (kq_port p) @ '':'' @ itoa (kq_node_port p) else itoa (kq_port p))"

definition matched_pods :: "k8s_state \<Rightarrow> k8s_service \<Rightarrow> k8s_pod list" where
  "matched_pods k v =
     filter (\<lambda>p. kp_namespace p = ks_namespace v \<and> selects (ks_selector v) (kp_labels p)) (k8_pods k)"

definition open_port :: "k8s_service \<Rightarrow> string \<Rightarrow> k8s_service_port \<Rightarrow> builder \<Rightarrow> builder" where
  "open_port v ident p b =
     (if public_port v p > 0 then
        add_edge ''internet'' ident ''ingress'' (itoa (public_port v p)) ''ok''
          (update_node ident (\<lambda>n. n\<lparr>nd_public := True\<rparr>) b)
      else b)"

definition build_k8s_service :: "(string \<Rightarrow> finding list) \<Rightarrow> k8s_state \<Rightarrow> k8s_service \<Rightarrow> builder \<Rightarrow> builder" where
  "build_k8s_service subj k v b =
     (let key = k8sKey (ks_namespace v) (ks_name v);
          ident = ''k8s:svc:'' @ key;
          meta = [(''namespace'', ks_namespace v), (''type'', ks_type v),
                  (''ports'', join '', '' (map port_text (ks_ports v)))];
          meta = (if length (ks_external v) > 0 then put ''external'' (join '', '' (ks_external v)) meta else meta);
          b = add_node (mk_node ident ''k8s_service'' (ks_name v) (ks_namespace v @ middle_dot @ ks_type v) ''kubernetes''
                ''ok'' (Some meta)) b;
          b = fold (open_port v ident) (ks_ports v) b;
          b = fold (\<lambda>p b. add_edge ident (pod_ident p) ''selects'' [] ''ok'' b) (matched_pods k v) b;
          b = (if length (ks_selector v) > 0 \<and> length (matched_pods k v) = 0
               then update_node ident (\<lambda>n. n\<lparr>nd_status := ''warn''\<rparr>) b else b)
      in attachFindings subj ident key b)"

text \<open>An ingress that leads to a service that does not exist gets a placeholder for it.\<close>

definition link_service :: "string \<Rightarrow> string \<Rightarrow> string \<Rightarrow> builder \<Rightarrow> builder" where
  "link_service ns ident svc b =
     (let to = ''k8s:svc:'' @ k8sKey ns svc in
      if has_node b to then add_edge ident to ''routes'' svc ''ok'' b
      else add_edge ident to ''routes'' svc ''error''
             (add_node (mk_node to ''k8s_service'' svc (ns @ middle_dot @ em_dash) ''kubernetes'' ''error'' None)
                (update_node ident (\<lambda>n. n\<lparr>nd_status := ''error''\<rparr>) b)))"

definition build_k8s_ingress :: "(string \<Rightarrow> finding list) \<Rightarrow> k8s_ingress \<Rightarrow> builder \<Rightarrow> builder" where
  "build_k8s_ingress subj x b =
     (let key = k8sKey (ki_namespace x) (ki_name x);
          ident = ''k8s:ing:'' @ key;
          hosts = join '', '' (sort (ki_hosts x));
          b = add_node ((mk_node ident ''k8s_ingress'' (ki_name x) hosts ''kubernetes'' ''ok''
                (Some [(''namespace'', ki_namespace x), (''hosts'', hosts)]))\<lparr>nd_public := True\<rparr>) b;
          b = add_edge ''internet'' ident ''ingress'' ''http'' ''ok'' b;
          b = fold (link_service (ki_namespace x) ident) (ki_services x) b
      in attachFindings subj ident key b)"

definition buildK8s :: "(string \<Rightarrow> finding list) \<Rightarrow> snapshot \<Rightarrow> builder \<Rightarrow> builder" where
  "buildK8s subj s b =
     (case sn_k8s s of
        None \<Rightarrow> b
      | Some k \<Rightarrow>
          fold (build_k8s_ingress subj) (k8_ingresses k)
            (fold (build_k8s_service subj k) (k8_services k)
              (fold (build_k8s_pod subj) (k8_pods k)
                (fold (build_k8s_node subj) (k8_nodes k) b))))"

section \<open>Upstreams and endpoints\<close>

definition build_server :: "snapshot \<Rightarrow> int list \<Rightarrow> upstream \<Rightarrow> string \<Rightarrow> upstream_server \<Rightarrow> builder \<Rightarrow> builder" where
  "build_server s listening u upID v b =
     (let beID = ''be:'' @ us_Socket v;
          label = (if us_name v = [] then displaySocket (us_Socket v) else us_name v);
          st = (if us_down v then ''error'' else backendStatus (us_Socket v) listening);
          b = add_node ((mk_node beID ''backend'' (displaySocket (us_Socket v)) label (up_service u) st
                (Some [(''backup'', fmt_bool (us_backup v)), (''check'', fmt_bool (us_checked v))]))\<lparr>nd_port := us_port v\<rparr>) b;
          b = add_edge upID beID ''member'' (if us_backup v then ''backup'' else []) st b
      in linkBackendToContainer s beID (us_Socket v) b)"

definition build_upstream ::
  "topo_env \<Rightarrow> (string \<Rightarrow> finding list) \<Rightarrow> snapshot \<Rightarrow> int list \<Rightarrow> upstream \<Rightarrow> builder \<Rightarrow> builder" where
  "build_upstream T subj s listening u b =
     (let upID = ''up:'' @ up_service u @ '':'' @ up_name u;
          sub = (if up_health u \<noteq> [] then up_algorithm u @ middle_dot @ up_health u else up_algorithm u);
          sub = (if length (up_servers u) = 0
                 then trim_space (sub @ middle_dot @ te_t T ''topology.noBackends'' []) else sub);
          status = (if up_health u = [] \<and> length (up_servers u) > 1 then ''warn'' else ''ok'');
          b = add_node (mk_node upID ''upstream'' (up_name u) sub (up_service u) status
                (Some [(''file'', up_file u), (''mode'', up_mode u), (''servers'', itoa (int (length (up_servers u))))])) b;
          b = attachFindings subj upID (up_name u) b
      in fold (build_server s listening u upID) (up_servers u) b)"

text \<open>A pool that is referenced but not defined is drawn so that the gap is visible.\<close>

definition ensure_node :: "node \<Rightarrow> builder \<Rightarrow> builder" where
  "ensure_node n b = (if has_node b (nd_id n) then b else add_node n b)"

definition build_route ::
  "topo_env \<Rightarrow> snapshot \<Rightarrow> int list \<Rightarrow> endpoint \<Rightarrow> string \<Rightarrow> route_decl \<Rightarrow> builder \<Rightarrow> builder" where
  "build_route T s listening e ident r b =
     (if rd_kind r = ''upstream'' then
        let upID = ''up:'' @ ep_service e @ '':'' @ rd_target r;
            b = ensure_node (mk_node upID ''upstream'' (rd_target r) (te_t T ''topology.undetermined'' []) (ep_service e)
                  ''error'' None) b
        in add_edge ident upID ''routes'' (rd_match r) ''ok'' b
      else if rd_kind r = ''address'' then
        let beID = ''be:'' @ rd_target r;
            b = add_node (mk_node beID ''backend'' (displaySocket (rd_target r)) (te_t T ''topology.directAddress'' [])
                  (ep_service e) (backendStatus (rd_target r) listening) None) b;
            b = add_edge ident beID ''routes'' (rd_match r) ''ok'' b
        in linkBackendToContainer s beID (rd_target r) b
      else b)"

definition endpoint_meta :: "topo_env \<Rightarrow> endpoint \<Rightarrow> string \<Rightarrow> string strmap" where
  "endpoint_meta T e scheme =
     (let meta = [(''service'', ep_service e), (''scheme'', scheme), (''mode'', ep_mode e),
                  (''tls'', fmt_bool (ep_tls e)), (''file'', ep_file e), (''names'', join '', '' (ep_names e))];
          hint = unicodeHint (te_idna T) (ep_names e)
      in if hint \<noteq> [] then put ''names_unicode'' hint meta else meta)"

definition link_owner :: "string \<Rightarrow> string \<Rightarrow> builder \<Rightarrow> builder" where
  "link_owner service ident b =
     (if has_node b (''svc:'' @ service) then add_edge (''svc:'' @ service) ident ''listens'' [] ''ok'' b
      else add_edge ''host'' ident ''listens'' [] ''ok'' b)"

definition build_endpoint ::
  "topo_env \<Rightarrow> (string \<Rightarrow> finding list) \<Rightarrow> snapshot \<Rightarrow> int list \<Rightarrow> endpoint \<Rightarrow> builder \<Rightarrow> builder" where
  "build_endpoint T subj s listening e b =
     (let ident = ''ep:'' @ ep_id e;
          status = (if length (sn_listeners s) > 0 \<and> ep_port e \<notin> set listening then ''error'' else ''ok'');
          scheme = (if ep_tls e then ''https'' else if ep_mode e = ''http'' then ''http'' else ''tcp'');
          b = add_node ((mk_node ident ''endpoint'' (ep_label e) (ep_Socket e) (ep_service e) status
                (Some (endpoint_meta T e scheme)))\<lparr>nd_port := ep_port e, nd_public := ep_Public e\<rparr>) b;
          b = attachFindings subj ident (ep_Socket e) b;
          b = link_owner (ep_service e) ident b;
          b = (if ep_Public e then add_edge ''internet'' ident ''ingress'' scheme (statusOfNode status) b else b)
      in if ep_service e = ''docker'' then
           (let name = field_of (ep_extra e) ''container'' in
            if name \<noteq> []
            then add_edge ident (''ct:'' @ name) ''publishes'' (field_of (ep_extra e) ''container_port'') ''ok'' b
            else b)
         else fold (build_route T s listening e ident) (ep_routes e) b)"

section \<open>Listeners nothing declares\<close>

definition formatUptime :: "topo_env \<Rightarrow> int \<Rightarrow> string" where
  "formatUptime T seconds =
     (if seconds \<le> 0 then []
      else if seconds < 60 then te_t T ''topology.seconds'' [AInt seconds]
      else let m = seconds div 60 in
        if m < 60 then te_t T ''topology.minutes'' [AInt m]
        else let h = m div 60 in
          if h < 24 then te_t T ''topology.hours'' [AInt h]
          else te_t T ''topology.days'' [AInt (h div 24)])"

definition listener_meta :: "topo_env \<Rightarrow> listener \<Rightarrow> string strmap" where
  "listener_meta T l =
     (let meta = [];
          meta = (if ls_command l \<noteq> [] then put ''command'' (ls_command l) meta else meta);
          meta = (if ls_user l \<noteq> [] then put ''user'' (ls_user l) meta else meta);
          up = formatUptime T (ls_uptime l);
          meta = (if up \<noteq> [] then put ''started'' up meta else meta)
      in if ls_origin l = ''service'' then
           let meta = put ''origin'' (te_t T ''topology.originService'' []) meta in
           if ls_unit l \<noteq> [] then put ''unit'' (ls_unit l) meta else meta
         else if ls_origin l = ''manual'' then put ''origin'' (te_t T ''topology.originManual'' []) meta
         else if ls_origin l = ''container'' then
           let meta = put ''origin'' (te_t T ''topology.originContainer'' []) meta in
           if ls_container_id l \<noteq> [] then put ''container_id'' (ls_container_id l) meta else meta
         else meta)"

definition build_undeclared :: "topo_env \<Rightarrow> (string \<Rightarrow> finding list) \<Rightarrow> listener \<Rightarrow> builder \<Rightarrow> builder" where
  "build_undeclared T subj l b =
     (let sock = socket_str (ls_address l) (ls_port l);
          ident = ''misc:'' @ ls_protocol l @ '':'' @ sock;
          label = (if ls_process l = [] then te_t T ''topology.unknown'' [] else ls_process l);
          status = (if ls_Public l then ''warn'' else ''unknown'');
          b = add_node ((mk_node ident ''undeclared'' label (ls_protocol l @ '' '' @ sock) ''misc'' status
                (Some (listener_meta T l)))\<lparr>nd_port := ls_port l, nd_public := ls_Public l\<rparr>) b;
          b = attachFindings subj ident sock b;
          b = add_edge ''host'' ident ''listens'' [] ''ok'' b
      in if ls_Public l then add_edge ''internet'' ident ''ingress'' (ls_protocol l) (statusOfNode status) b else b)"

section \<open>The whole map\<close>

definition node_less :: "node \<Rightarrow> node \<Rightarrow> bool" where
  "node_less a b = (if nd_kind a \<noteq> nd_kind b then kindRank (nd_kind a) < kindRank (nd_kind b) else nd_label a < nd_label b)"

definition ref_less :: "finding_ref \<Rightarrow> finding_ref \<Rightarrow> bool" where
  "ref_less a b = (SeverityRank (fg_severity a) < SeverityRank (fg_severity b))"

definition start_builder :: builder where
  "start_builder = \<lparr>bd_nodes = (\<lambda>_. None), bd_order = [], bd_edges = [], bd_edge_seen = [], bd_findings = [], bd_panic = False\<rparr>"

definition build_steps :: "topo_env \<Rightarrow> snapshot \<Rightarrow> builder" where
  "build_steps T s =
     (let subj = by_subject s;
          listening = map ls_port (sn_listeners s);
          b = start_builder;
          b = add_node (mk_node ''host'' ''host'' (sn_hostname s) (sn_os s) [] ''ok''
                (Some [(''mode'', sn_mode s), (''kernel'', sn_kernel s)])) b;
          b = add_node (mk_node ''internet'' ''internet'' (te_t T ''topology.internet'' []) [] [] ''ok'' None) b;
          b = fold build_service (sn_services s) b;
          b = fold (build_container subj) (sn_containers s) b;
          b = fold (build_podman subj) (sn_podman s) b;
          b = fold (build_lxd subj) (sn_lxd s) b;
          b = fold (build_vm subj) (sn_vms s) b;
          b = buildK8s subj s b;
          b = fold build_network (sn_networks s) b;
          b = fold (build_upstream T subj s listening) (sn_upstreams s) b;
          b = fold (build_endpoint T subj s listening) (sn_endpoints s) b
      in fold (build_undeclared T subj) (UndeclaredListeners (te_run T) s) b)"

definition nodes_in_order :: "builder \<Rightarrow> node list" where
  "nodes_in_order b = map (\<lambda>ident. the (bd_nodes b ident)) (bd_order b)"

definition kind_counts :: "node list \<Rightarrow> string \<Rightarrow> nat" where
  "kind_counts ns = fold (\<lambda>n m. m(nd_kind n := m (nd_kind n) + 1)) ns (\<lambda>_. 0)"

definition Build :: "topo_env \<Rightarrow> snapshot \<Rightarrow> graph" where
  "Build T s =
     (let b = build_steps T s; ns = nodes_in_order b in
      \<lparr>gr_nodes = sort_stable node_less ns,
       gr_edges = bd_edges b,
       gr_stats = (kind_counts ns)(''edges'' := length (bd_edges b)),
       gr_findings = sort_stable ref_less (bd_findings b)\<rparr>)"

end
