(* ===== verification/AnaFacts.thy ===== *)
theory AnaFacts
  imports AnaK8s "HOL-Library.Multiset"
begin

text \<open>
  Facts on the analyzer: what the maps of the index hold in terms of the snapshot, what the
  collector keeps, the stable sort by a key, and lists that differ only in the order of
  groups with different keys.
\<close>

named_theorems ana_simps \<open>the index in terms of the snapshot\<close>

section \<open>The index\<close>

lemma fold_index_listener [ana_simps]:
  "fold index_listener ls m p = m p @ filter (\<lambda>l. ls_port l = p) ls"
  by (induction ls arbitrary: m) (auto simp: index_listener_def)

lemma fold_index_endpoint [ana_simps]:
  "fold index_endpoint es m p = m p @ filter (\<lambda>e. ep_port e = p) es"
  by (induction es arbitrary: m) (auto simp: index_endpoint_def)

lemma fold_set_true: "fold (\<lambda>x m. m(f x := True)) xs m y \<longleftrightarrow> m y \<or> y \<in> f ` set xs"
  by (induction xs arbitrary: m) auto

lemma fold_index_used [ana_simps]:
  "fold index_used es m k \<longleftrightarrow> m k \<or> (\<exists>e\<in>set es. k \<in> pool_key (ep_service e) ` set (ep_upstream e))"
  by (induction es arbitrary: m) (auto simp: index_used_def fold_set_true)

lemma fold_index_upstream [ana_simps]:
  "fold index_upstream us m k = None \<longleftrightarrow> m k = None \<and> (\<forall>u\<in>set us. pool_key (up_service u) (up_name u) \<noteq> k)"
  by (induction us arbitrary: m) (auto simp: index_upstream_def)

text \<open>A rule that lets traffic in, and one that forwards a port.\<close>

definition opens :: "run_env \<Rightarrow> firewall_rule \<Rightarrow> bool" where
  "opens E r \<longleftrightarrow> \<not> (fr_action r = ''DNAT'' \<and> fr_dnat_to r \<noteq> []) \<and> isAcceptAction E (fr_action r) \<and> isInputChain E r"

definition forwards :: "firewall_rule \<Rightarrow> bool" where
  "forwards r \<longleftrightarrow> fr_action r = ''DNAT'' \<and> fr_dnat_to r \<noteq> []"

lemma fold_append_at: "set (fold (\<lambda>p m. m(p := m p @ [x])) ps m q) = set (m q) \<union> (if q \<in> set ps then {x} else {})"
  by (induction ps arbitrary: m) auto

lemma index_rule_allowed:
  "set (fst (index_rule E r st) q) = set (fst st q) \<union> (if opens E r \<and> q \<in> set (fr_ports r) then {rule_source r} else {})"
  by (cases st) (auto simp: index_rule_def opens_def fold_append_at)

lemma index_rule_dnat:
  "snd (index_rule E r st) q \<longleftrightarrow> snd st q \<or> forwards r \<and> q \<in> set (fr_ports r)"
  by (cases st) (auto simp: index_rule_def forwards_def fold_set_true [where f = "\<lambda>x. x", simplified])

lemma fold_index_rule_allowed [ana_simps]:
  "src \<in> set (fst (fold (index_rule E) rs st) q) \<longleftrightarrow>
     src \<in> set (fst st q) \<or> (\<exists>r\<in>set rs. opens E r \<and> q \<in> set (fr_ports r) \<and> src = rule_source r)"
  by (induction rs arbitrary: st) (auto simp: index_rule_allowed)

lemma fold_index_rule_dnat [ana_simps]:
  "snd (fold (index_rule E) rs st) q \<longleftrightarrow> snd st q \<or> (\<exists>r\<in>set rs. forwards r \<and> q \<in> set (fr_ports r))"
  by (induction rs arbitrary: st) (auto simp: index_rule_dnat)

lemma buildIndex_listeners [ana_simps]:
  "ix_listeners (buildIndex E s) p = filter (\<lambda>l. ls_port l = p) (sn_listeners s)"
  by (simp add: buildIndex_def Let_def case_prod_unfold ana_simps)

lemma buildIndex_endpoints [ana_simps]:
  "ix_endpoints (buildIndex E s) p = filter (\<lambda>e. ep_port e = p) (sn_endpoints s)"
  by (simp add: buildIndex_def Let_def case_prod_unfold ana_simps)

lemma buildIndex_allowed [ana_simps]:
  "src \<in> set (ix_allowed (buildIndex E s) q) \<longleftrightarrow>
     (\<exists>r\<in>set (fs_rules (sn_firewall s)). opens E r \<and> q \<in> set (fr_ports r) \<and> src = rule_source r)"
  using fold_index_rule_allowed [of src E "fs_rules (sn_firewall s)" "(\<lambda>_. [], \<lambda>_. False)" q]
  by (simp add: buildIndex_def Let_def case_prod_unfold)

lemma buildIndex_dnat [ana_simps]:
  "ix_dnat (buildIndex E s) q \<longleftrightarrow> (\<exists>r\<in>set (fs_rules (sn_firewall s)). forwards r \<and> q \<in> set (fr_ports r))"
  using fold_index_rule_dnat [of E "fs_rules (sn_firewall s)" "(\<lambda>_. [], \<lambda>_. False)" q]
  by (simp add: buildIndex_def Let_def case_prod_unfold)

lemma buildIndex_policy [ana_simps]:
  "ix_policy (buildIndex E s) = fold index_policy (fs_policies (sn_firewall s)) ''unknown''"
  by (simp add: buildIndex_def Let_def case_prod_unfold)

lemma buildIndex_upstreams [ana_simps]:
  "ix_upstreams (buildIndex E s) k = None \<longleftrightarrow> (\<forall>u\<in>set (sn_upstreams s). pool_key (up_service u) (up_name u) \<noteq> k)"
  by (simp add: buildIndex_def Let_def case_prod_unfold ana_simps)

lemma hasListener_iff [ana_simps]:
  "hasListener (ix_listeners (buildIndex E s)) p \<longleftrightarrow> (\<exists>l\<in>set (sn_listeners s). ls_port l = p)"
  by (auto simp: hasListener_def ana_simps filter_empty_conv)

text \<open>The sockets and the configuration can be compared: some sockets were seen, and unless hardly
  anything is declared, one of them is on a declared port.\<close>

definition tcp_endpoints :: "snapshot \<Rightarrow> endpoint list" where
  "tcp_endpoints s = filter (\<lambda>e. ep_protocol e \<noteq> ''udp'') (sn_endpoints s)"

lemma comparable_counts:
  "fold (\<lambda>e (d, c). if ep_protocol e = ''udp'' then (d, c)
                   else (d + 1, if hasListener m (ep_port e) then c + 1 else c)) es (d::nat, c::nat) =
     (d + length (filter (\<lambda>e. ep_protocol e \<noteq> ''udp'') es),
      c + length (filter (\<lambda>e. ep_protocol e \<noteq> ''udp'' \<and> hasListener m (ep_port e)) es))"
  by (induction es arbitrary: d c) auto

lemma buildIndex_comparable [ana_simps]:
  "ix_comparable (buildIndex E s) \<longleftrightarrow>
     sn_listeners s \<noteq> [] \<and>
     (length (tcp_endpoints s) < 3 \<or> (\<exists>e\<in>set (tcp_endpoints s). \<exists>l\<in>set (sn_listeners s). ls_port l = ep_port e))"
proof -
  have "ix_comparable (buildIndex E s) \<longleftrightarrow>
      sn_listeners s \<noteq> [] \<and> listenersAreComparable (fold index_listener (sn_listeners s) (\<lambda>_. [])) s"
    by (simp add: buildIndex_def Let_def case_prod_unfold)
  also have "fold index_listener (sn_listeners s) (\<lambda>_. []) = (\<lambda>p. filter (\<lambda>l. ls_port l = p) (sn_listeners s))"
    by (rule ext) (simp add: ana_simps)
  finally show ?thesis
    by (auto simp: listenersAreComparable_def comparable_counts tcp_endpoints_def hasListener_def filter_empty_conv)
qed

section \<open>What the collector keeps\<close>

definition named :: "finding \<Rightarrow> finding" where
  "named f = (if fd_id f = [] then f\<lparr>fd_id := fd_rule f @ '':'' @ fd_object f\<rparr> else f)"

fun fresh :: "string set \<Rightarrow> finding list \<Rightarrow> finding list" where
  "fresh S [] = []"
| "fresh S (f # fs) = (if fd_id f \<in> S then fresh S fs else f # fresh (insert (fd_id f) S) fs)"

lemma collected:
  "co_findings (fold collector_add fs c) = co_findings c @ fresh (set (co_seen c)) (map named fs)"
proof (induction fs arbitrary: c)
  case (Cons f fs)
  have "collector_add f c =
      (if fd_id (named f) \<in> set (co_seen c) then c
       else \<lparr>co_findings = co_findings c @ [named f], co_seen = fd_id (named f) # co_seen c\<rparr>)"
    by (simp add: collector_add_def named_def Let_def)
  with Cons show ?case
    by simp
qed simp

lemma named_id: "fd_id (named f) \<noteq> []"
  by (simp add: named_def)

lemma fresh_append: "fresh S (xs @ ys) = fresh S xs @ fresh (S \<union> fd_id ` set xs) ys"
  by (induction xs arbitrary: S) (auto simp: insert_absorb)

lemma fresh_ids: "fd_id ` set (fresh S xs) = fd_id ` set xs - S"
  by (induction xs arbitrary: S) auto

lemma fresh_distinct: "distinct (map fd_id (fresh S xs))"
  using fresh_ids by (induction xs arbitrary: S) auto

lemma fresh_subset: "set (fresh S xs) \<subseteq> set xs"
  by (induction xs arbitrary: S) auto

section \<open>Stable sorting by a key\<close>

text \<open>
  A comparison that agrees with a linear order on keys, on the elements that occur: sorting
  by it is the sort of the library, and depends only on the elements of each key in order.
\<close>

locale keyed_order =
  fixes lt :: "'a \<Rightarrow> 'a \<Rightarrow> bool"
    and key :: "'a \<Rightarrow> 'k::linorder"
    and ok :: "'a \<Rightarrow> bool"
  assumes lt_key: "ok a \<Longrightarrow> ok b \<Longrightarrow> lt a b \<longleftrightarrow> key a < key b"
begin

lemma insert_stable_key:
  "ok x \<Longrightarrow> list_all ok ys \<Longrightarrow> insert_stable lt x ys = insort_key key x ys"
  by (induction ys) (auto simp: lt_key)

lemma sort_stable_key: "list_all ok xs \<Longrightarrow> sort_stable lt xs = sort_key key xs"
proof (induction xs)
  case (Cons x xs)
  then have "list_all ok (sort_key key xs)"
    by (simp add: list_all_iff)
  with Cons show ?case
    by (simp add: sort_stable_def sort_key_def insert_stable_key)
qed (simp add: sort_stable_def)

lemma sort_stable_mset: "list_all ok xs \<Longrightarrow> mset (sort_stable lt xs) = mset xs"
  by (simp add: sort_stable_key)

lemma sort_stable_sorted: "list_all ok xs \<Longrightarrow> sorted (map key (sort_stable lt xs))"
  by (simp add: sort_stable_key)

definition keywise :: "'a list \<Rightarrow> 'a list \<Rightarrow> bool" where
  "keywise xs ys \<longleftrightarrow> (\<forall>k. filter (\<lambda>x. key x = k) xs = filter (\<lambda>x. key x = k) ys)"

lemma keywise_refl [simp]: "keywise xs xs"
  by (simp add: keywise_def)

lemma keywise_append: "keywise xs ys \<Longrightarrow> keywise us vs \<Longrightarrow> keywise (xs @ us) (ys @ vs)"
  by (simp add: keywise_def)

lemma keywise_mset: "keywise xs ys \<Longrightarrow> mset xs = mset ys"
proof (rule multiset_eqI)
  fix a assume k: "keywise xs ys"
  have "count (mset zs) a = count (mset (filter (\<lambda>x. key x = key a) zs)) a" for zs
    by (induction zs) auto
  then show "count (mset xs) a = count (mset ys) a"
    using k unfolding keywise_def by metis
qed

lemma keywise_sort: "keywise xs ys \<Longrightarrow> sort_key key xs = sort_key key ys"
proof (rule properties_for_sort_key)
  assume k: "keywise xs ys"
  show "mset (sort_key key ys) = mset xs"
    using keywise_mset [OF k] by simp
  show "filter (\<lambda>x. key a = key x) (sort_key key ys) = filter (\<lambda>x. key a = key x) xs" for a
    using k sort_key_stable [of key "key a" ys]
    by (simp add: keywise_def eq_commute [of "key a"])
qed simp

lemma keywise_sort_stable:
  "keywise xs ys \<Longrightarrow> list_all ok xs \<Longrightarrow> list_all ok ys \<Longrightarrow> sort_stable lt xs = sort_stable lt ys"
  by (simp add: sort_stable_key keywise_sort)

end

definition finding_key :: "finding \<Rightarrow> nat \<times> string \<times> string" where
  "finding_key f = (SeverityRank (fd_severity f), fd_service f, fd_object f)"

interpretation findings: keyed_order finding_less finding_key "\<lambda>_. True"
  by unfold_locales (auto simp: finding_less_def finding_key_def Let_def less_prod_def)

section \<open>Groups in any order\<close>

text \<open>
  Two lists made of the same chunks in different order, where equal identifiers and equal keys
  only occur inside a chunk: deduplicated, they agree key by key.
\<close>

lemma filter_fresh:
  "(\<And>f g. f \<in> set xs \<Longrightarrow> g \<in> set xs \<Longrightarrow> fd_id f = fd_id g \<Longrightarrow> P f = P g) \<Longrightarrow>
   filter P (fresh S xs) = fresh S (filter P xs)"
proof (induction xs arbitrary: S)
  case (Cons x xs)
  have IH: "filter P (fresh S xs) = fresh S (filter P xs)" for S
    using Cons.prems by (intro Cons.IH) auto
  show ?case
  proof (cases "P x")
    case True
    then show ?thesis by (simp add: IH)
  next
    case False
    have "fresh (insert (fd_id x) S) (filter P xs) = fresh S (filter P xs)"
    proof -
      have "f \<in> set (filter P xs) \<Longrightarrow> fd_id f \<noteq> fd_id x" for f
        using Cons.prems [of f x] False by auto
      then show ?thesis
      proof (induction "filter P xs" arbitrary: S)
        case Nil then show ?case by simp
      next
        case (Cons y ys)
        have "fresh (insert a S) zs = fresh S zs" if "\<forall>f\<in>set zs. fd_id f \<noteq> a" for a S zs
          using that by (induction zs arbitrary: S) (auto simp: insert_commute)
        then show ?case using Cons.prems by blast
      qed
    qed
    then show ?thesis using False by (simp add: IH)
  qed
qed simp

lemma concat_chunk:
  assumes "distinct ps" "\<And>p f. p \<in> set ps \<Longrightarrow> f \<in> set (chunk p) \<Longrightarrow> c f = p"
  shows "filter (\<lambda>f. c f = q) (concat (map chunk ps)) = (if q \<in> set ps then chunk q else [])"
  using assms
proof (induction ps)
  case (Cons p ps)
  have tail: "filter (\<lambda>f. c f = q) (concat (map chunk ps)) = (if q \<in> set ps then chunk q else [])"
    using Cons.prems by (intro Cons.IH) auto
  have head: "filter (\<lambda>f. c f = q) (chunk p) = (if p = q then chunk p else [])"
    using Cons.prems(2) [of p] by (auto simp: filter_id_conv filter_empty_conv)
  show ?case
    using Cons.prems(1) by (auto simp: tail head)
qed simp

lemma chunks_keywise:
  assumes perm: "mset ps = mset qs" and dist: "distinct ps"
    and cls: "\<And>p f. p \<in> set ps \<Longrightarrow> f \<in> set (chunk p) \<Longrightarrow> c f = p"
    and ids: "\<And>p q f g. p \<in> set ps \<Longrightarrow> q \<in> set ps \<Longrightarrow> f \<in> set (chunk p) \<Longrightarrow> g \<in> set (chunk q) \<Longrightarrow>
                fd_id f = fd_id g \<or> finding_key f = finding_key g \<Longrightarrow> p = q"
  shows "findings.keywise (fresh S (concat (map chunk ps))) (fresh S (concat (map chunk qs)))"
proof -
  have sets: "set qs = set ps" and distq: "distinct qs"
    using perm dist by (auto dest: mset_eq_setD mset_eq_imp_distinct_iff)
  have part: "filter (\<lambda>f. c f = q) (fresh S (concat (map chunk rs))) = fresh S (if q \<in> set ps then chunk q else [])"
    if "rs = ps \<or> rs = qs" for rs q
  proof -
    have rs: "set rs = set ps" "distinct rs" using that sets distq dist by auto
    have "filter (\<lambda>f. c f = q) (fresh S (concat (map chunk rs))) =
        fresh S (filter (\<lambda>f. c f = q) (concat (map chunk rs)))"
    proof (rule filter_fresh)
      fix f g assume "f \<in> set (concat (map chunk rs))" "g \<in> set (concat (map chunk rs))" "fd_id f = fd_id g"
      then obtain a b where "a \<in> set ps" "f \<in> set (chunk a)" "b \<in> set ps" "g \<in> set (chunk b)"
        using rs by auto
      then show "(c f = q) = (c g = q)"
        using ids [of a b f g] cls \<open>fd_id f = fd_id g\<close> by auto
    qed
    also have "filter (\<lambda>f. c f = q) (concat (map chunk rs)) = (if q \<in> set rs then chunk q else [])"
      using cls rs by (intro concat_chunk) auto
    finally show ?thesis using rs by simp
  qed
  show ?thesis
    unfolding findings.keywise_def
  proof
    fix k
    show "filter (\<lambda>x. finding_key x = k) (fresh S (concat (map chunk ps))) =
          filter (\<lambda>x. finding_key x = k) (fresh S (concat (map chunk qs)))"
    proof (cases "\<exists>p\<in>set ps. \<exists>f\<in>set (chunk p). finding_key f = k")
      case False
      then have "filter (\<lambda>x. finding_key x = k) (fresh S (concat (map chunk rs))) = []"
        if "rs = ps \<or> rs = qs" for rs
      proof -
        have "set (fresh S (concat (map chunk rs))) \<subseteq> (\<Union>p\<in>set ps. set (chunk p))"
          using that sets by (intro subset_trans [OF fresh_subset]) auto
        with False show ?thesis unfolding filter_empty_conv by (meson UN_E subsetD)
      qed
      then show ?thesis by simp
    next
      case True
      then obtain p f where p: "p \<in> set ps" "f \<in> set (chunk p)" "finding_key f = k" by blast
      have "filter (\<lambda>x. finding_key x = k) (fresh S (concat (map chunk rs))) =
          filter (\<lambda>x. finding_key x = k) (filter (\<lambda>x. c x = p) (fresh S (concat (map chunk rs))))"
        if "rs = ps \<or> rs = qs" for rs
      proof -
        have "c g = p" if g: "g \<in> set (fresh S (concat (map chunk rs)))" "finding_key g = k" for g
        proof -
          obtain q where "q \<in> set ps" "g \<in> set (chunk q)"
            using g(1) fresh_subset [of S "concat (map chunk rs)"] \<open>rs = ps \<or> rs = qs\<close> sets by auto
          then show ?thesis using ids [of q p g f] cls p g(2) by auto
        qed
        then show ?thesis by (auto intro!: filter_cong)
      qed
      then show ?thesis by (simp add: part)
    qed
  qed
qed

end
