(* ===== verification/AnaTheorems.thy ===== *)
theory AnaTheorems
  imports AnaFacts
begin

text \<open>
  Theorems on the analyzer: its answer does not depend on the order Go ranges over maps,
  each problem is reported once and in order, the undeclared listeners and the port
  conflicts are exactly those of the snapshot, the rules that compare sockets with
  configurations stay quiet when the two cannot be compared, and a sensitive port is
  critical exactly when the firewall lets it through.
\<close>

section \<open>Identifiers and objects determine the port\<close>

lemma colon_itoa: "CHR '':'' \<notin> set (itoa p)"
proof -
  have "CHR '':'' \<notin> set (nat_str n)" for n
    using nat_str_digits [of n] by (auto simp: list_all_iff is_digit_def)
  then show ?thesis by (simp add: itoa_def)
qed

lemma split_at_colon: "CHR '':'' \<notin> set a \<Longrightarrow> CHR '':'' \<notin> set b \<Longrightarrow> a @ CHR '':'' # s = b @ CHR '':'' # t \<longleftrightarrow> a = b \<and> s = t"
proof (induction a arbitrary: b)
  case Nil then show ?case by (cases b) auto
next
  case (Cons c a) then show ?case by (cases b) auto
qed

lemma socket_str_inj: "socket_str a p = socket_str b q \<longleftrightarrow> a = b \<and> p = q"
proof
  assume "socket_str a p = socket_str b q"
  then have "rev (itoa p) @ CHR '':'' # rev a = rev (itoa q) @ CHR '':'' # rev b"
    by (metis append.assoc append_Cons append_Nil rev.simps(2) rev_append socket_str_def)
  then show "a = b \<and> p = q"
    using split_at_colon [of "rev (itoa p)" "rev (itoa q)" "rev a" "rev b"] colon_itoa by simp
qed simp

lemma conflict_id_port:
  "fd_id (conflict_finding p x) = fd_id (conflict_finding q y) \<or>
   finding_key (conflict_finding p x) = finding_key (conflict_finding q y) \<Longrightarrow> p = q"
  using split_at_colon [of "itoa p" "itoa q"] colon_itoa
  by (cases x; cases y) (auto simp: conflict_finding_def finding_key_def socket_str_inj)

section \<open>The order of ranging over maps\<close>

definition ranges :: "run_env \<Rightarrow> bool" where
  "ranges E \<longleftrightarrow> (\<forall>xs. mset (en_ports E xs) = mset xs) \<and>
     (\<forall>xs. mset (en_no_limits E xs) = mset xs) \<and> (\<forall>xs. mset (en_latest E xs) = mset xs)"

definition in_order :: "run_env \<Rightarrow> run_env" where
  "in_order E = E\<lparr>en_ports := \<lambda>xs. xs, en_no_limits := \<lambda>xs. xs, en_latest := \<lambda>xs. xs\<rparr>"

lemma in_order_sel [simp]:
  "en_now (in_order E) = en_now E" "en_day (in_order E) = en_day E" "en_day_time (in_order E) = en_day_time E"
  "en_rfc3339 (in_order E) = en_rfc3339 E" "en_lower (in_order E) = en_lower E" "en_upper (in_order E) = en_upper E"
  "en_ports (in_order E) xs = xs" "en_no_limits (in_order E) ys = ys" "en_latest (in_order E) ys = ys"
  by (simp_all add: in_order_def)

lemma same_chain [simp]: "isAcceptAction (in_order E) = isAcceptAction E" "isInputChain (in_order E) = isInputChain E"
  by (intro ext, simp add: isAcceptAction_def isInputChain_def)+

lemma same_index: "buildIndex (in_order E) s = buildIndex E s"
proof -
  have "index_rule (in_order E) = index_rule E"
    by (intro ext) (simp add: index_rule_def case_prod_unfold cong: if_cong)
  then show ?thesis by (simp add: buildIndex_def)
qed

lemma same_rules:
  "ruleStaleFirewallRules (in_order E) s i = ruleStaleFirewallRules E s i"
  "ruleCertificates (in_order E) s = ruleCertificates E s"
  "pod_findings (in_order E) s k = pod_findings E s k"
  "pvc_findings (in_order E) s k = pvc_findings E s k"
  "api_cert_findings (in_order E) = api_cert_findings E"
proof -
  have "stale_rule (in_order E) i = stale_rule E i"
    by (intro ext) (simp add: stale_rule_def cong: if_cong)
  then show "ruleStaleFirewallRules (in_order E) s i = ruleStaleFirewallRules E s i"
    by (simp add: ruleStaleFirewallRules_def)
  have "cert_findings (in_order E) = cert_findings E"
    by (intro ext) (simp add: cert_findings_def expiry_findings_def not_yet_findings_def serving_findings_def
        strength_findings_def isWeakSignature_def Let_def cong: if_cong)
  then show "ruleCertificates (in_order E) s = ruleCertificates E s"
    by (simp add: ruleCertificates_def)
  have age: "k8sAge (in_order E) s = k8sAge E s"
    by (intro ext) (simp add: k8sAge_def)
  show "pod_findings (in_order E) s k = pod_findings E s k" "pvc_findings (in_order E) s k = pvc_findings E s k"
    by (simp_all add: pod_findings_def pod_state_findings_def pvc_findings_def age Let_def cong: if_cong)
  show "api_cert_findings (in_order E) = api_cert_findings E"
    by (intro ext) (simp add: api_cert_findings_def Let_def cong: if_cong)
qed

lemma named_conflict: "named (conflict_finding p x) = conflict_finding p x"
  by (cases x) (simp add: named_def conflict_finding_def)

lemma named_group [simp]:
  "named (no_limits_finding m key) = no_limits_finding m key" "named (latest_finding m key) = latest_finding m key"
  by (simp_all add: named_def no_limits_finding_def latest_finding_def)

lemma conflicts_keywise:
  assumes "ranges E"
  shows "findings.keywise (fresh S (map named (rulePortConflicts E s)))
           (fresh S (map named (rulePortConflicts (in_order E) s)))"
proof -
  define ports where "ports = remdups (map ep_port (conflict_endpoints s))"
  define chunk where "chunk p = map named (conflicts_on p (fold index_endpoint (conflict_endpoints s) (\<lambda>_. []) p))" for p
  have chunk: "\<exists>x. f = conflict_finding p x" if "f \<in> set (chunk p)" for f p
  proof -
    have "f \<in> conflict_finding p ` set (pairs_of (fold index_endpoint (conflict_endpoints s) (\<lambda>_. []) p))"
      using that by (auto simp: chunk_def conflicts_on_def named_conflict split: if_splits)
    then show ?thesis by blast
  qed
  have eq: "map named (rulePortConflicts E' s) = concat (map chunk (en_ports E' ports))" for E'
    by (simp add: rulePortConflicts_def ports_def chunk_def [abs_def] map_concat comp_def)
  have "findings.keywise (fresh S (concat (map chunk (en_ports E ports)))) (fresh S (concat (map chunk ports)))"
  proof (rule chunks_keywise [where c = "\<lambda>f. case hd (tx_args (fd_title f)) of AInt p \<Rightarrow> p"])
    show "mset (en_ports E ports) = mset ports"
      using assms by (simp add: ranges_def)
    then show "distinct (en_ports E ports)"
      using mset_eq_imp_distinct_iff [of "en_ports E ports" ports] by (simp add: ports_def)
    show "(case hd (tx_args (fd_title f)) of AInt p \<Rightarrow> p) = p" if "f \<in> set (chunk p)" for p f
      using chunk [OF that] by (auto simp: conflict_finding_def)
    show "p = q" if "f \<in> set (chunk p)" "g \<in> set (chunk q)" "fd_id f = fd_id g \<or> finding_key f = finding_key g"
      for p q f g
      using chunk [OF that(1)] chunk [OF that(2)] that(3) conflict_id_port by blast
  qed
  then show ?thesis
    by (simp add: eq)
qed

lemma group_keys_distinct: "distinct (map fst m) \<Longrightarrow> distinct (map fst (group_add p item m))"
  by (simp add: group_add_def put_def Let_def distinct_update)

lemma groups_distinct: "distinct (map fst (fold (\<lambda>p. fold (group_add p) (items p)) ps []))"
proof -
  have "distinct (map fst (fold (group_add p) is m))" if "distinct (map fst m)" for p "is" m
    using that by (induction "is" arbitrary: m) (auto intro: group_keys_distinct)
  then have "distinct (map fst (fold (\<lambda>p. fold (group_add p) (items p)) ps m))" if "distinct (map fst m)" for m
    using that by (induction ps arbitrary: m) auto
  then show ?thesis by simp
qed

lemma group_findings_keywise:
  assumes perm: "mset ks' = mset ks" and dist: "distinct ks"
    and F: "\<And>k. fd_object (F k) = k" "\<And>k. fd_id (F k) = pre @ k"
  shows "findings.keywise (fresh S (map F ks')) (fresh S (map F ks))"
proof -
  have "findings.keywise (fresh S (concat (map (\<lambda>k. [F k]) ks'))) (fresh S (concat (map (\<lambda>k. [F k]) ks)))"
  proof (rule chunks_keywise [where c = fd_object])
    show "distinct ks'" using perm dist mset_eq_imp_distinct_iff by blast
  qed (auto simp: perm F finding_key_def)
  then show ?thesis by simp
qed

definition kw :: "finding list \<Rightarrow> finding list \<Rightarrow> bool" where
  "kw xs ys \<longleftrightarrow> set (map named xs) = set (map named ys) \<and>
     (\<forall>S. findings.keywise (fresh S (map named xs)) (fresh S (map named ys)))"

lemma kw_refl [simp]: "kw xs xs"
  by (simp add: kw_def)

lemma kw_append: "kw xs ys \<Longrightarrow> kw us vs \<Longrightarrow> kw (xs @ us) (ys @ vs)"
  unfolding kw_def by (auto simp: fresh_append intro!: findings.keywise_append)

lemma kw_conflicts: "ranges E \<Longrightarrow> kw (rulePortConflicts E s) (rulePortConflicts (in_order E) s)"
proof -
  assume r: "ranges E"
  then have "set (en_ports E xs) = set xs" for xs
    unfolding ranges_def by (metis set_mset_mset)
  then have "set (rulePortConflicts E s) = set (rulePortConflicts (in_order E) s)"
    by (simp add: rulePortConflicts_def)
  with r show ?thesis by (simp add: kw_def conflicts_keywise)
qed

lemma kw_groups:
  assumes "mset ks' = mset ks" "distinct ks" "\<And>k. fd_object (F k) = k" "\<And>k. fd_id (F k) = pre @ k"
    "\<And>k. named (F k) = F k"
  shows "kw (map F ks') (map F ks)"
proof -
  have "set ks' = set ks" using assms(1) by (metis set_mset_mset)
  moreover have "named \<circ> F = F"
    using assms(5) by (intro ext) simp
  ultimately show ?thesis
    unfolding kw_def using group_findings_keywise [OF assms(1-4)] by simp
qed

lemma kw_hygiene: "ranges E \<Longrightarrow> kw (ruleK8sHygiene E k) (ruleK8sHygiene (in_order E) k)"
  unfolding ruleK8sHygiene_def
  by (intro kw_append kw_groups [where pre = "''k8s-no-limits:''"] kw_groups [where pre = "''k8s-image-latest:''"])
    (simp_all add: ranges_def no_limits_groups_def latest_groups_def groups_distinct no_limits_finding_def latest_finding_def
      named_def)

lemma kw_kubernetes: "ranges E \<Longrightarrow> kw (ruleKubernetes E s i) (ruleKubernetes (in_order E) s i)"
  unfolding ruleKubernetes_def
  by (cases "sn_k8s s") (auto simp: same_rules intro!: kw_append kw_hygiene)

lemma kw_rules: "ranges E \<Longrightarrow> kw (rule_findings E s) (rule_findings (in_order E) s)"
  unfolding rule_findings_def Let_def same_index same_rules
  by (intro kw_append kw_conflicts kw_kubernetes kw_refl)

lemma Run_fresh: "Run E s = sort_stable finding_less (fresh {} (map named (rule_findings E s)))"
  by (simp add: Run_def SortFindings_def collected)

text \<open>C27. The order in which Go happens to range over the maps of ports and of pods does not show in the findings: they are the ones of the order of first mention.\<close>

theorem findings_ignore_map_order: "ranges E \<Longrightarrow> Run E s = Run (in_order E) s"
  unfolding Run_fresh
  by (rule findings.keywise_sort_stable) (use kw_rules in \<open>auto simp: kw_def list_all_iff\<close>)

section \<open>Each problem once, in order\<close>

definition in_report_order :: "finding list \<Rightarrow> bool" where
  "in_report_order fs \<longleftrightarrow> sorted_wrt (\<lambda>a b. \<not> finding_less b a) fs"

lemma Run_mset: "mset (Run E s) = mset (fresh {} (map named (rule_findings E s)))"
  unfolding Run_fresh by (rule findings.sort_stable_mset) (simp add: list_all_iff)

lemma Run_set: "set (Run E s) = set (fresh {} (map named (rule_findings E s)))"
  using Run_mset [of E s] by (rule mset_eq_setD)

lemma Run_ids: "fd_id ` set (Run E s) = fd_id ` named ` set (rule_findings E s)"
  unfolding Run_set using fresh_ids [of "{}" "map named (rule_findings E s)"] by simp

lemma Run_from_rules: "f \<in> set (Run E s) \<Longrightarrow> f \<in> named ` set (rule_findings E s)"
  unfolding Run_set using fresh_subset [of "{}" "map named (rule_findings E s)"] by auto

lemma Run_sorted: "in_report_order (Run E s)"
proof -
  have "sorted (map finding_key (Run E s))"
    unfolding Run_fresh by (rule findings.sort_stable_sorted) (simp add: list_all_iff)
  then show ?thesis
    unfolding in_report_order_def sorted_map
    by (rule sorted_wrt_mono_rel [rotated]) (auto simp: findings.lt_key)
qed

text \<open>Every identifier a rule hands in is reported, each exactly once and none empty, the worst severity first, then by service and object.\<close>

theorem findings_once_sorted:
  "distinct (map fd_id (Run E s)) \<and> [] \<notin> fd_id ` set (Run E s) \<and> in_report_order (Run E s) \<and>
   fd_id ` set (Run E s) = fd_id ` named ` set (rule_findings E s)"
proof (intro conjI)
  have "mset (map fd_id (Run E s)) = mset (map fd_id (fresh {} (map named (rule_findings E s))))"
    using Run_mset [of E s] by simp
  then show "distinct (map fd_id (Run E s))"
    using fresh_distinct mset_eq_imp_distinct_iff by blast
  show "[] \<notin> fd_id ` set (Run E s)"
    unfolding Run_ids by (metis imageE named_id)
qed (rule Run_sorted, rule Run_ids)

section \<open>Listeners nothing declares\<close>

text \<open>
  A listener is undeclared exactly when no endpoint of its port is served by its program. A
  listener whose program is unknown is taken as declared by any endpoint of its port.
\<close>

lemma undeclared_listeners_exact:
  "set (UndeclaredListeners E s) =
     {l \<in> set (sn_listeners s). ls_process l \<noteq> ''docker-proxy'' \<and>
        (\<forall>e\<in>set (sn_endpoints s). ep_port e = ls_port l \<longrightarrow> \<not> endpointOwns e l)}"
  by (auto simp: UndeclaredListeners_def undeclaredListeners_def ana_simps list_ex_iff)

section \<open>Which rule speaks\<close>

text \<open>
  A finding carries the name of its rule, and the identifier of a finding begins with it.
  \<open>speaks rules fs\<close>: the findings come from the given rules and are named accordingly, the ones on
  undeclared listeners by rule and object.
\<close>

definition speaks :: "string set \<Rightarrow> finding list \<Rightarrow> bool" where
  "speaks R fs \<longleftrightarrow> (\<forall>f\<in>set fs. fd_rule f \<in> R \<and> (has_prefix (fd_id f) (fd_rule f @ '':'') \<or> fd_id f = fd_rule f) \<and>
     (fd_rule f = ''listening-not-declared'' \<longrightarrow> fd_id f = fd_rule f @ '':'' @ fd_object f))"

lemma speaks_append: "speaks R fs \<Longrightarrow> speaks R' gs \<Longrightarrow> speaks (R \<union> R') (fs @ gs)"
  by (auto simp: speaks_def)

text \<open>The collection \<open>speaks_simps\<close> reads off a list of findings from how it is built, without looking into the texts.\<close>

named_theorems speaks_simps

lemma speaks_nil [speaks_simps]: "speaks R []"
  by (simp add: speaks_def)

lemma speaks_cons [speaks_simps]:
  "speaks R (f # fs) \<longleftrightarrow> (fd_rule f \<in> R \<and> (has_prefix (fd_id f) (fd_rule f @ '':'') \<or> fd_id f = fd_rule f) \<and>
     (fd_rule f = ''listening-not-declared'' \<longrightarrow> fd_id f = fd_rule f @ '':'' @ fd_object f)) \<and> speaks R fs"
  by (auto simp: speaks_def)

lemma speaks_if [speaks_simps]: "speaks R (if b then fs else gs) \<longleftrightarrow> (if b then speaks R fs else speaks R gs)"
  by simp

lemma speaks_app [speaks_simps]: "speaks R (fs @ gs) \<longleftrightarrow> speaks R fs \<and> speaks R gs"
  by (auto simp: speaks_def)

lemma speaks_mono: "speaks R fs \<Longrightarrow> R \<subseteq> R' \<Longrightarrow> speaks R' fs"
  by (auto simp: speaks_def)

lemma speaks_conflicts: "speaks {''port-conflict''} (rulePortConflicts E s)"
  by (auto simp: speaks_def rulePortConflicts_def conflicts_on_def conflict_finding_def Let_def split: if_splits)

lemma speaks_declared: "speaks {''declared-not-listening''} (ruleDeclaredNotListening s i)"
  by (auto simp: speaks_def ruleDeclaredNotListening_def declared_finding_def)

lemma speaks_stale: "speaks {''stale-firewall-rule''} (ruleStaleFirewallRules E s i)"
  by (auto simp: speaks_def ruleStaleFirewallRules_def stale_finding_def Let_def)

lemma speaks_sensitive: "speaks {''sensitive-port-public''} (ruleSensitivePortsPublic s i)"
  by (auto simp: speaks_def ruleSensitivePortsPublic_def sensitive_finding_def split: option.splits if_splits)

definition firewall_rules :: "string set" where
  "firewall_rules = {''listening-not-declared'', ''no-default-deny'', ''public-port-blocked'', ''docker-bypasses-firewall''}"

lemma speaks_map: "(\<And>x. speaks R [f x]) \<Longrightarrow> speaks R (map f xs)"
  by (auto simp: speaks_def)

lemma speaks_concat: "(\<And>x. x \<in> set xs \<Longrightarrow> speaks R (f x)) \<Longrightarrow> speaks R (concat (map f xs))"
  by (auto simp: speaks_def)

lemma speaks_firewall:
  "speaks firewall_rules (ruleListeningNotDeclared s i @ ruleFirewallDefaultPolicy s i @
     rulePublicPortWithoutRule s i @ ruleDockerBypassesFirewall s i)"
proof -
  note defs = speaks_simps firewall_rules_def
  have "speaks firewall_rules (ruleListeningNotDeclared s i)"
    unfolding ruleListeningNotDeclared_def by (rule speaks_map) (simp add: undeclared_finding_def defs)
  moreover have "speaks firewall_rules (ruleFirewallDefaultPolicy s i)"
    by (simp add: ruleFirewallDefaultPolicy_def defs)
  moreover have "speaks firewall_rules (rulePublicPortWithoutRule s i)"
    by (auto simp: rulePublicPortWithoutRule_def defs intro!: speaks_map) (simp_all add: blocked_finding_def)
  moreover have "speaks firewall_rules (ruleDockerBypassesFirewall s i)"
    by (auto simp: ruleDockerBypassesFirewall_def defs intro!: speaks_map speaks_concat)
      (simp_all add: bypass_finding_def split: option.splits)
  ultimately show ?thesis by (simp add: speaks_app)
qed

definition tls_rules :: "string set" where
  "tls_rules = {''weak-tls'', ''missing-hsts'', ''tls-cert-missing'', ''tls-cert-unreadable'', ''tls-cert-expired'',
     ''tls-cert-expiring'', ''tls-cert-not-yet-valid'', ''tls-cert-renewal-not-automatic'', ''tls-cert-orphan-lineage'',
     ''tls-cert-not-reloaded'', ''tls-cert-self-signed'', ''tls-cert-weak-key'', ''tls-cert-weak-signature'',
     ''tls-cert-name-mismatch''}"

lemma speaks_cert: "speaks tls_rules (cert_findings E c)"
proof -
  note defs = speaks_simps tls_rules_def Let_def
  have "speaks tls_rules [unreadable_finding c]"
    by (simp add: unreadable_finding_def defs)
  moreover have "speaks tls_rules (expiry_findings E c)"
    by (simp add: expiry_findings_def defs)
  moreover have "speaks tls_rules (not_yet_findings E c)"
    by (simp add: not_yet_findings_def defs)
  moreover have "speaks tls_rules (renewal_findings c)"
    by (simp add: renewal_findings_def defs)
  moreover have "speaks tls_rules (serving_findings E c)"
    by (simp add: serving_findings_def defs)
  moreover have "speaks tls_rules (strength_findings E c)"
    by (simp add: strength_findings_def defs)
  moreover have "speaks tls_rules [mismatch_finding c x]" for x
    by (simp add: mismatch_finding_def defs)
  ultimately show ?thesis
    by (simp add: cert_findings_def speaks_simps speaks_map)
qed

lemma speaks_tls: "speaks tls_rules (ruleTLS s @ ruleCertificates E s)"
proof -
  note defs = speaks_simps tls_rules_def Let_def
  have "speaks tls_rules (weak_tls_finding e)" for e
    by (simp add: weak_tls_finding_def defs)
  moreover have "speaks tls_rules (nginx_tls_findings e)" for e
    by (simp add: nginx_tls_findings_def hsts_finding_def cert_missing_finding_def defs)
  ultimately have "speaks tls_rules (ruleTLS s)"
    by (simp add: ruleTLS_def speaks_simps speaks_concat)
  moreover have "speaks tls_rules (ruleCertificates E s)"
    unfolding ruleCertificates_def by (rule speaks_concat) (rule speaks_cert)
  ultimately show ?thesis by (simp add: speaks_app)
qed

definition pool_rules :: "string set" where
  "pool_rules = {''public-plaintext-proxy'', ''upstream-undefined'', ''upstream-orphan'', ''single-backend'',
     ''all-backends-disabled'', ''backend-no-healthcheck'', ''docker-cli-missing'', ''container-restarting'',
     ''container-not-running'', ''container-undeclared'', ''container-no-restart-policy'', ''admin-interface-open''}"

lemma speaks_upstreams:
  "speaks (if ix_comparable i then insert ''upstream-member-down'' pool_rules else pool_rules) (ruleUpstreams s i)"
  by (auto simp: speaks_def pool_rules_def ruleUpstreams_def undefined_findings_def undefined_finding_def
      pool_findings_def member_finding_def split: if_splits)

lemma speaks_pools:
  "speaks pool_rules (rulePlaintextProxy s)" "speaks pool_rules (ruleHealthChecks s @ ruleContainers s)"
  "speaks pool_rules (ruleAdminInterfaces s)"
  by (auto simp: speaks_def pool_rules_def rulePlaintextProxy_def plaintext_finding_def ruleHealthChecks_def
      health_finding_def ruleContainers_def docker_cli_findings_def container_state_findings_def
      container_restart_findings_def ruleAdminInterfaces_def admin_finding_def split: if_splits)

lemma speaks_malware: "speaks {r. has_prefix r ''malware-''} (ruleMalware s)"
  by (auto simp: speaks_def ruleMalware_def malware_finding_def has_prefix_def)

abbreviation k8s_rules :: "string set" where
  "k8s_rules \<equiv> {r. has_prefix r ''k8s-''}"

lemma speaks_pods: "speaks k8s_rules (pod_findings E s k)"
  unfolding pod_findings_def
proof (rule speaks_concat)
  fix p
  have "speaks k8s_rules (pod_state_findings E s p)" "speaks k8s_rules (pod_privilege_findings p)"
    by (simp_all add: speaks_def pod_state_findings_def pod_privilege_findings_def Let_def has_prefix_def)
  then show "speaks k8s_rules (pod_state_findings E s p @ pod_privilege_findings p)"
    by (auto simp: speaks_def)
qed

lemma speaks_objects:
  "speaks k8s_rules (node_findings k)" "speaks k8s_rules (workload_findings k)" "speaks k8s_rules (pvc_findings E s k)"
  "speaks k8s_rules (service_findings i v)"
  by (simp_all add: speaks_def node_findings_def workload_findings_def workload_finding_def pvc_findings_def
      service_findings_def nodeport_finding_def Let_def has_prefix_def)

lemma speaks_api_cert: "speaks k8s_rules (api_cert_findings E now c)"
  by (cases "en_rfc3339 E (kc_not_after c)") (simp_all add: speaks_def api_cert_findings_def Let_def has_prefix_def)

lemma speaks_hygiene: "speaks k8s_rules (ruleK8sHygiene E k)"
proof -
  have "speaks k8s_rules (map (no_limits_finding m) ks)" "speaks k8s_rules (map (latest_finding m) ks)"
    "speaks k8s_rules (netpol_findings k)" for m ks
    by (simp_all add: speaks_def no_limits_finding_def latest_finding_def netpol_findings_def has_prefix_def)
  moreover have "speaks k8s_rules (concat (map admin_binding_findings bs))" for bs
    by (rule speaks_concat)
      (auto simp: admin_binding_findings_def speaks_def has_prefix_def split: prod.splits if_splits)
  ultimately show ?thesis
    unfolding ruleK8sHygiene_def by (metis speaks_append Un_absorb)
qed

lemma speaks_kubernetes: "speaks k8s_rules (ruleKubernetes E s i)"
proof (cases "sn_k8s s")
  case None then show ?thesis by (simp add: ruleKubernetes_def speaks_def)
next
  case (Some k)
  have "speaks k8s_rules (concat (map (api_cert_findings E now) cs))" for now cs
    by (rule speaks_concat) (rule speaks_api_cert)
  moreover have "speaks k8s_rules (if d then [] else concat (map (service_findings i) vs))" for d vs
    using speaks_concat [of vs k8s_rules "service_findings i"] speaks_objects(4) by (simp add: speaks_def)
  ultimately show ?thesis
    unfolding ruleKubernetes_def Some option.case
    by (metis speaks_append Un_absorb speaks_pods speaks_objects(1-3) speaks_hygiene)
qed

definition fixed_rules :: "string set" where
  "fixed_rules = {''port-conflict'', ''sensitive-port-public''} \<union> firewall_rules \<union> tls_rules \<union> pool_rules"

definition socket_rules :: "string set" where
  "socket_rules = {''declared-not-listening'', ''stale-firewall-rule'', ''upstream-member-down''}"

definition all_rules :: "bool \<Rightarrow> string set" where
  "all_rules comparable = fixed_rules \<union> {r. has_prefix r ''malware-''} \<union> k8s_rules \<union> (if comparable then socket_rules else {})"

lemma all_rules_subsets:
  "{''port-conflict''} \<subseteq> all_rules b" "{''sensitive-port-public''} \<subseteq> all_rules b" "firewall_rules \<subseteq> all_rules b"
  "tls_rules \<subseteq> all_rules b" "pool_rules \<subseteq> all_rules b" "{r. has_prefix r ''malware-''} \<subseteq> all_rules b"
  "k8s_rules \<subseteq> all_rules b" "b \<Longrightarrow> socket_rules \<subseteq> all_rules b"
  by (auto simp: all_rules_def fixed_rules_def)

lemma speaks_both: "speaks R fs \<Longrightarrow> speaks R gs \<Longrightarrow> speaks R (fs @ gs)"
  by (auto simp: speaks_def)

lemma speaks_socket_rules:
  "speaks (all_rules (ix_comparable i)) (ruleDeclaredNotListening s i)"
  "speaks (all_rules (ix_comparable i)) (ruleStaleFirewallRules E s i)"
  "speaks (all_rules (ix_comparable i)) (ruleUpstreams s i)"
proof -
  have sub: "{r} \<subseteq> all_rules (ix_comparable i)" if "r \<in> socket_rules" "ix_comparable i" for r
    using that all_rules_subsets(8) by blast
  show "speaks (all_rules (ix_comparable i)) (ruleDeclaredNotListening s i)"
  proof (cases "ix_comparable i")
    case True
    then show ?thesis by (intro speaks_mono [OF speaks_declared] sub) (simp add: socket_rules_def)
  qed (simp add: ruleDeclaredNotListening_def speaks_def)
  show "speaks (all_rules (ix_comparable i)) (ruleStaleFirewallRules E s i)"
  proof (cases "ix_comparable i")
    case True
    then show ?thesis by (intro speaks_mono [OF speaks_stale] sub) (simp add: socket_rules_def)
  qed (simp add: ruleStaleFirewallRules_def speaks_def)
  have "insert ''upstream-member-down'' pool_rules \<subseteq> all_rules True"
    using all_rules_subsets(5,8) [of True] by (auto simp: socket_rules_def)
  then have "(if ix_comparable i then insert ''upstream-member-down'' pool_rules else pool_rules) \<subseteq> all_rules (ix_comparable i)"
    using all_rules_subsets(5) by auto
  then show "speaks (all_rules (ix_comparable i)) (ruleUpstreams s i)"
    by (rule speaks_mono [OF speaks_upstreams])
qed

lemma speaks_rules: "speaks (all_rules (ix_comparable (buildIndex E s))) (rule_findings E s)"
proof -
  let ?i = "buildIndex E s"
  have F: "speaks (all_rules b) (ruleListeningNotDeclared s i)" "speaks (all_rules b) (ruleFirewallDefaultPolicy s i)"
    "speaks (all_rules b) (rulePublicPortWithoutRule s i)" "speaks (all_rules b) (ruleDockerBypassesFirewall s i)" for b i
    using speaks_mono [OF speaks_firewall [of s i] all_rules_subsets(3) [of b]] by (auto simp: speaks_def)
  have T: "speaks (all_rules b) (ruleTLS s)" "speaks (all_rules b) (ruleCertificates E s)" for b
    using speaks_mono [OF speaks_tls [of s E] all_rules_subsets(4) [of b]] by (auto simp: speaks_def)
  have P: "speaks (all_rules b) (ruleHealthChecks s)" "speaks (all_rules b) (ruleContainers s)" for b
    using speaks_mono [OF speaks_pools(2) [of s] all_rules_subsets(5) [of b]] by (auto simp: speaks_def)
  show ?thesis
    unfolding rule_findings_def Let_def
    by (intro speaks_both speaks_socket_rules F T P speaks_mono [OF speaks_conflicts all_rules_subsets(1)]
        speaks_mono [OF speaks_sensitive all_rules_subsets(2)] speaks_mono [OF speaks_pools(1) all_rules_subsets(5)]
        speaks_mono [OF speaks_pools(3) all_rules_subsets(5)] speaks_mono [OF speaks_malware all_rules_subsets(6)]
        speaks_mono [OF speaks_kubernetes all_rules_subsets(7)])
qed

lemma all_rules_nonempty: "[] \<notin> all_rules b"
  by (simp add: all_rules_def fixed_rules_def firewall_rules_def tls_rules_def pool_rules_def socket_rules_def)

lemma Run_speaks:
  assumes "f \<in> set (Run E s)"
  shows "f \<in> set (rule_findings E s)"
    and "has_prefix (fd_id f) (fd_rule f @ '':'') \<or> fd_id f = fd_rule f"
    and "fd_rule f \<in> all_rules (ix_comparable (buildIndex E s))"
proof -
  obtain g where g: "g \<in> set (rule_findings E s)" "f = named g"
    using Run_from_rules [OF assms] by blast
  have sp: "fd_rule g \<in> all_rules (ix_comparable (buildIndex E s))"
    "has_prefix (fd_id g) (fd_rule g @ '':'') \<or> fd_id g = fd_rule g"
    using speaks_rules [of E s] g(1) by (auto simp: speaks_def)
  then have "fd_id g \<noteq> []"
    using all_rules_nonempty by (auto simp: has_prefix_def)
  then have "f = g" using g(2) by (simp add: named_def)
  then show "f \<in> set (rule_findings E s)" "has_prefix (fd_id f) (fd_rule f @ '':'') \<or> fd_id f = fd_rule f"
    "fd_rule f \<in> all_rules (ix_comparable (buildIndex E s))"
    using g sp by auto
qed

text \<open>When at least three TCP sockets are declared and none of them is among the sockets seen, or none was seen at all, nothing is reported as not listening: no dead declaration, no stale firewall rule, no backend down.\<close>

theorem quiet_when_not_comparable:
  assumes "sn_listeners s = [] \<or>
      3 \<le> length (tcp_endpoints s) \<and> (\<forall>e\<in>set (tcp_endpoints s). \<forall>l\<in>set (sn_listeners s). ls_port l \<noteq> ep_port e)"
  shows "\<forall>f\<in>set (Run E s). fd_rule f \<notin> {''declared-not-listening'', ''stale-firewall-rule'', ''upstream-member-down''}"
proof
  fix f assume "f \<in> set (Run E s)"
  moreover have "\<not> ix_comparable (buildIndex E s)"
    using assms by (auto simp: buildIndex_comparable)
  ultimately have "fd_rule f \<in> all_rules False"
    using Run_speaks(3) [of f E s] by simp
  then show "fd_rule f \<notin> {''declared-not-listening'', ''stale-firewall-rule'', ''upstream-member-down''}"
    by (auto simp: all_rules_def fixed_rules_def firewall_rules_def tls_rules_def pool_rules_def)
qed

section \<open>Firewall rules nothing uses\<close>

definition stale_candidate :: "run_env \<Rightarrow> snapshot \<Rightarrow> firewall_rule \<Rightarrow> int \<Rightarrow> bool" where
  "stale_candidate E s r p \<longleftrightarrow>
     r \<in> set (fs_rules (sn_firewall s)) \<and> isAcceptAction E (fr_action r) \<and> isInputChain E r \<and> fr_backend r \<noteq> ''ufw6'' \<and>
     p \<in> set (fr_ports r) \<and> (\<forall>l\<in>set (sn_listeners s). ls_port l \<noteq> p) \<and>
     \<not> (\<exists>r'\<in>set (fs_rules (sn_firewall s)). forwards r' \<and> p \<in> set (fr_ports r'))"

definition unused :: "index \<Rightarrow> int \<Rightarrow> bool" where
  "unused i p \<longleftrightarrow> \<not> (hasListener (ix_listeners i) p \<or> ix_dnat i p)"

lemma lookup_better:
  "lookup (better_rule i r p best) q =
     (if q = p \<and> unused i p \<and> (case lookup best p of None \<Rightarrow> True | Some old \<Rightarrow> fr_backend r = ''ufw'' \<and> fr_backend old \<noteq> ''ufw'')
      then Some r else lookup best q)"
  by (auto simp: better_rule_def unused_def split: option.split)

lemma lookup_better_fold:
  "lookup (fold (better_rule i r) ps best) q =
     (if q \<in> set ps \<and> unused i q \<and> (case lookup best q of None \<Rightarrow> True | Some old \<Rightarrow> fr_backend r = ''ufw'' \<and> fr_backend old \<noteq> ''ufw'')
      then Some r else lookup best q)"
  by (induction ps arbitrary: best) (auto simp: lookup_better split: option.splits)

definition considered :: "run_env \<Rightarrow> index \<Rightarrow> firewall_rule \<Rightarrow> int \<Rightarrow> bool" where
  "considered E i r q \<longleftrightarrow> isAcceptAction E (fr_action r) \<and> isInputChain E r \<and> fr_backend r \<noteq> ''ufw6'' \<and>
     q \<in> set (fr_ports r) \<and> unused i q"

lemma lookup_stale:
  "lookup (stale_rule E i r best) q =
     (if considered E i r q \<and> (case lookup best q of None \<Rightarrow> True | Some old \<Rightarrow> fr_backend r = ''ufw'' \<and> fr_backend old \<noteq> ''ufw'')
      then Some r else lookup best q)"
  by (auto simp: stale_rule_def considered_def lookup_better_fold)

lemma lookup_stale_fold_None:
  "lookup (fold (stale_rule E i) rs best) q = None \<longleftrightarrow>
     lookup best q = None \<and> (\<forall>r\<in>set rs. \<not> considered E i r q)"
  by (induction rs arbitrary: best) (auto simp: lookup_stale split: option.splits)

lemma lookup_stale_fold_keeps_ufw:
  "lookup best q = Some old \<Longrightarrow> fr_backend old = ''ufw'' \<Longrightarrow> lookup (fold (stale_rule E i) rs best) q = Some old"
  by (induction rs arbitrary: best) (auto simp: lookup_stale)

lemma lookup_stale_fold_ufw:
  assumes "r \<in> set rs" "considered E i r q" "fr_backend r = ''ufw''"
  shows "\<exists>x. lookup (fold (stale_rule E i) rs best) q = Some x \<and> fr_backend x = ''ufw''"
  using assms(1)
proof (induction rs arbitrary: best)
  case (Cons a rs)
  show ?case
  proof (cases "a = r")
    case True
    have "\<exists>x. lookup (stale_rule E i r best) q = Some x \<and> fr_backend x = ''ufw''"
      using assms(2,3) by (auto simp: lookup_stale split: option.splits)
    then show ?thesis
      using True lookup_stale_fold_keeps_ufw by fastforce
  next
    case False
    with Cons show ?thesis by simp
  qed
qed simp

lemma stale_keys_distinct: "distinct (map fst best) \<Longrightarrow> distinct (map fst (fold (stale_rule E i) rs best))"
proof (induction rs arbitrary: best)
  case (Cons r rs)
  have "distinct (map fst (fold (better_rule i r) ps best))" if "distinct (map fst best)" for ps best
    using that by (induction ps arbitrary: best) (auto simp: better_rule_def put_def distinct_update split: option.split)
  then show ?case
    using Cons by (simp add: stale_rule_def)
qed simp

lemma considered_candidate:
  "r \<in> set (fs_rules (sn_firewall s)) \<and> considered E (buildIndex E s) r p \<longleftrightarrow> stale_candidate E s r p"
  by (auto simp: considered_def unused_def stale_candidate_def ana_simps)


section \<open>Sensitive ports\<close>

text \<open>The firewall lets a port through: opened to any source, forwarded, or no default deny.\<close>

definition let_through :: "run_env \<Rightarrow> snapshot \<Rightarrow> int \<Rightarrow> bool" where
  "let_through E s p \<longleftrightarrow>
     (\<exists>r\<in>set (fs_rules (sn_firewall s)). opens E r \<and> p \<in> set (fr_ports r) \<and> any_source (rule_source r)) \<or>
     (\<exists>r\<in>set (fs_rules (sn_firewall s)). forwards r \<and> p \<in> set (fr_ports r)) \<or>
     (fold index_policy (fs_policies (sn_firewall s)) ''unknown'' = ''ACCEPT'' \<and> \<not> AnyManagerActive (sn_firewall s))"

lemma reachable_let_through: "reachable_port s (buildIndex E s) p \<longleftrightarrow> let_through E s p"
proof -
  have "allowedFromAnywhere (buildIndex E s) p \<longleftrightarrow>
      (\<exists>r\<in>set (fs_rules (sn_firewall s)). opens E r \<and> p \<in> set (fr_ports r) \<and> any_source (rule_source r))"
    by (auto simp: allowedFromAnywhere_def list_ex_iff Bex_def buildIndex_allowed)
  then show ?thesis
    by (simp add: reachable_port_def let_through_def ana_simps)
qed

definition port_rules :: "string set" where
  "port_rules = {''port-conflict'', ''declared-not-listening'', ''stale-firewall-rule'', ''upstream-member-down''}"

definition other_rules :: "string set" where
  "other_rules = port_rules \<union> firewall_rules \<union> tls_rules \<union> pool_rules \<union> k8s_rules \<union> {r. has_prefix r ''malware-''}"

lemma other_rules_subsets:
  "firewall_rules \<subseteq> other_rules" "tls_rules \<subseteq> other_rules" "pool_rules \<subseteq> other_rules"
  "k8s_rules \<subseteq> other_rules" "{r. has_prefix r ''malware-''} \<subseteq> other_rules" "port_rules \<subseteq> other_rules"
  using Un_upper1 Un_upper2 unfolding other_rules_def by blast+

lemma other_rules_single:
  "{''port-conflict''} \<subseteq> other_rules" "{''declared-not-listening''} \<subseteq> other_rules" "{''stale-firewall-rule''} \<subseteq> other_rules"
  "(if b then insert ''upstream-member-down'' pool_rules else pool_rules) \<subseteq> other_rules"
proof -
  have single: "{x} \<subseteq> other_rules" if "x \<in> port_rules" for x
    using that other_rules_subsets(6) by blast
  show "{''port-conflict''} \<subseteq> other_rules" "{''declared-not-listening''} \<subseteq> other_rules"
    "{''stale-firewall-rule''} \<subseteq> other_rules"
    by (rule single, simp add: port_rules_def)+
  have "{''upstream-member-down''} \<subseteq> other_rules"
    by (rule single) (simp add: port_rules_def)
  then show "(if b then insert ''upstream-member-down'' pool_rules else pool_rules) \<subseteq> other_rules"
    using other_rules_subsets(3) by (simp only: insert_subset split: if_split) blast
qed

lemma speaks_others:
  "speaks other_rules
    (rulePortConflicts E s @ ruleDeclaredNotListening s i @ ruleListeningNotDeclared s i @ ruleFirewallDefaultPolicy s i @
      rulePublicPortWithoutRule s i @ ruleDockerBypassesFirewall s i @ ruleStaleFirewallRules E s i @ ruleTLS s @
      ruleCertificates E s @ rulePlaintextProxy s @ ruleUpstreams s i @ ruleHealthChecks s @ ruleContainers s @
      ruleKubernetes E s i @ ruleMalware s @ ruleAdminInterfaces s)"
proof -
  have F: "speaks other_rules (ruleListeningNotDeclared s i)" "speaks other_rules (ruleFirewallDefaultPolicy s i)"
    "speaks other_rules (rulePublicPortWithoutRule s i)" "speaks other_rules (ruleDockerBypassesFirewall s i)"
    using speaks_mono [OF speaks_firewall [of s i] other_rules_subsets(1)] by (simp_all add: speaks_app)
  have T: "speaks other_rules (ruleTLS s)" "speaks other_rules (ruleCertificates E s)"
    using speaks_mono [OF speaks_tls [of s E] other_rules_subsets(2)] by (simp_all add: speaks_app)
  have P: "speaks other_rules (ruleHealthChecks s)" "speaks other_rules (ruleContainers s)"
    using speaks_mono [OF speaks_pools(2) [of s] other_rules_subsets(3)] by (simp_all add: speaks_app)
  show ?thesis
    by (intro speaks_both F T P speaks_mono [OF speaks_upstreams other_rules_single(4)]
        speaks_mono [OF speaks_conflicts other_rules_single(1)] speaks_mono [OF speaks_declared other_rules_single(2)]
        speaks_mono [OF speaks_stale other_rules_single(3)] speaks_mono [OF speaks_pools(1) other_rules_subsets(3)]
        speaks_mono [OF speaks_pools(3) other_rules_subsets(3)] speaks_mono [OF speaks_malware other_rules_subsets(5)]
        speaks_mono [OF speaks_kubernetes other_rules_subsets(4)])
qed

lemma sensitive_rule_only:
  assumes "f \<in> set (rule_findings E s)" "fd_rule f = ''sensitive-port-public''"
  shows "f \<in> set (ruleSensitivePortsPublic s (buildIndex E s))"
proof -
  have no: "speaks R fs \<Longrightarrow> ''sensitive-port-public'' \<notin> R \<Longrightarrow> f \<notin> set fs" for R fs
    using assms(2) by (auto simp: speaks_def)
  show ?thesis
    using assms(1) no [OF speaks_others [of E s "buildIndex E s"]]
    by (simp add: rule_findings_def Let_def firewall_rules_def tls_rules_def pool_rules_def other_rules_def port_rules_def)
qed

lemma rules_without_colon: "r \<in> fixed_rules \<union> socket_rules \<Longrightarrow> CHR '':'' \<notin> set r"
  by (auto simp: fixed_rules_def firewall_rules_def tls_rules_def pool_rules_def socket_rules_def)

lemma rule_of_ident:
  assumes pre: "has_prefix (name @ CHR '':'' # x) (r @ '':'') \<or> name @ CHR '':'' # x = r"
    and name: "name \<noteq> []" "hd name \<noteq> CHR ''m''" "hd name \<noteq> CHR ''k''" "CHR '':'' \<notin> set name"
    and r: "r \<in> all_rules b"
  shows "r = name"
proof -
  have hd: "hd r = hd name" if "r \<noteq> []"
    using pre that name(1) by (cases r; cases name) auto
  have "\<not> has_prefix r ''malware-''" "\<not> has_prefix r ''k8s-''"
    using hd name by (cases r; simp)+
  then have colon: "CHR '':'' \<notin> set r"
    using r rules_without_colon by (auto simp: all_rules_def split: if_splits)
  then have "\<exists>t. name @ CHR '':'' # x = r @ CHR '':'' # t"
    using pre by (auto simp: has_prefix_iff)
  then show ?thesis
    using colon name(4) split_at_colon by metis
qed

lemma prefix_of_sensitive:
  "has_prefix (''sensitive-port-public:'' @ x) (r @ '':'') \<or> ''sensitive-port-public:'' @ x = r \<Longrightarrow>
   r \<in> all_rules b \<Longrightarrow> r = ''sensitive-port-public''"
  using rule_of_ident [of "''sensitive-port-public''" x r b] by simp

lemma prefix_of_listening:
  "has_prefix (''listening-not-declared:'' @ x) (r @ '':'') \<or> ''listening-not-declared:'' @ x = r \<Longrightarrow>
   r \<in> all_rules b \<Longrightarrow> r = ''listening-not-declared''"
  using rule_of_ident [of "''listening-not-declared''" x r b] by simp

text \<open>C29. A public socket on a port of a database or the like is always reported, as critical exactly when a rule opens the port to any source, the port is forwarded, or nothing denies by default.\<close>

theorem sensitive_port_reported:
  assumes l: "l \<in> set (sn_listeners s)" "ls_Public l" and name: "lookup sensitivePorts (ls_port l) \<noteq> None"
  shows "\<exists>f\<in>set (Run E s). fd_id f = ''sensitive-port-public:'' @ itoa (ls_port l) \<and>
           fd_severity f = (if let_through E s (ls_port l) then ''critical'' else ''high'')"
proof -
  let ?i = "buildIndex E s" and ?id = "''sensitive-port-public:'' @ itoa (ls_port l)"
  obtain n where n: "lookup sensitivePorts (ls_port l) = Some n" using name by blast
  have "sensitive_finding s ?i l n \<in> set (rule_findings E s)"
    using l n by (auto simp: rule_findings_def Let_def ruleSensitivePortsPublic_def intro!: bexI [of _ l])
  moreover have "fd_id (named (sensitive_finding s ?i l n)) = ?id"
    by (simp add: named_def sensitive_finding_def)
  ultimately have "?id \<in> fd_id ` set (Run E s)"
    unfolding Run_ids by (metis imageI)
  then obtain f where f: "f \<in> set (Run E s)" "fd_id f = ?id" by auto
  then have "fd_rule f = ''sensitive-port-public''"
    using Run_speaks(2,3) [OF f(1)] prefix_of_sensitive [of "itoa (ls_port l)" "fd_rule f"] by metis
  then have "f \<in> set (ruleSensitivePortsPublic s ?i)"
    using Run_speaks(1) [OF f(1)] sensitive_rule_only by blast
  then obtain m k where m: "f = sensitive_finding s ?i m k"
    by (auto simp: ruleSensitivePortsPublic_def split: if_splits option.splits)
  then have "ls_port m = ls_port l"
    using f(2) by (simp add: sensitive_finding_def split: if_splits)
  then have "fd_severity f = (if let_through E s (ls_port l) then ''critical'' else ''high'')"
    using m by (simp add: sensitive_finding_def flip: reachable_let_through)
  with f show ?thesis by blast
qed

end
