(* ===== verification/TopoFacts.thy ===== *)
theory TopoFacts
  imports TopoGraph AnaTheorems
begin

text \<open>
  The invariant of the builder of the resource map and what its steps keep: a node is stored
  under its identifier and listed once, every edge starts at a node and ends at one, and no
  step panics. \<open>leads b b'\<close> says that \<open>b'\<close> satisfies the invariant and only adds to \<open>b\<close>.
\<close>

named_theorems topo_steps \<open>one step of the builder, as \<open>leads\<close>\<close>

section \<open>The invariant\<close>

text \<open>
  The two links that may point outside the map: a published port of a container that is not
  among the containers, and the cluster node of a pod that is not among the nodes.
\<close>

definition may_dangle :: "string \<Rightarrow> bool" where
  "may_dangle kind \<longleftrightarrow> kind = ''publishes'' \<or> kind = ''scheduled''"

definition good_edge :: "builder \<Rightarrow> edge \<Rightarrow> bool" where
  "good_edge b e \<longleftrightarrow>
     ed_id e = edge_ident (ed_from e) (ed_to e) (ed_kind e) (ed_label e) \<and>
     ed_from e \<noteq> ed_to e \<and> has_node b (ed_from e) \<and> (may_dangle (ed_kind e) \<or> has_node b (ed_to e))"

text \<open>The nodes whose metadata is written to later are never stored without metadata.\<close>

definition keeps_meta :: "string \<Rightarrow> bool" where
  "keeps_meta i \<longleftrightarrow> has_prefix i ''lxd:'' \<or> has_prefix i ''vm:''"

definition good_node :: "node \<Rightarrow> bool" where
  "good_node n \<longleftrightarrow> nd_kind n \<in> set node_kinds \<and> (keeps_meta (nd_id n) \<longrightarrow> nd_meta n \<noteq> None)"

definition sound :: "builder \<Rightarrow> bool" where
  "sound b \<longleftrightarrow>
     distinct (bd_order b) \<and> (\<forall>i. i \<in> set (bd_order b) \<longleftrightarrow> has_node b i) \<and>
     (\<forall>i n. bd_nodes b i = Some n \<longrightarrow> nd_id n = i \<and> good_node n) \<and>
     set (bd_edge_seen b) = ed_id ` set (bd_edges b) \<and> distinct (map ed_id (bd_edges b)) \<and>
     (\<forall>e\<in>set (bd_edges b). good_edge b e) \<and> \<not> bd_panic b"

definition grows :: "builder \<Rightarrow> builder \<Rightarrow> bool" where
  "grows b b' \<longleftrightarrow>
     (\<forall>i n. bd_nodes b i = Some n \<longrightarrow>
        (\<exists>n'. bd_nodes b' i = Some n' \<and> (nd_meta n \<noteq> None \<longrightarrow> nd_meta n' \<noteq> None) \<and>
              (nd_findings n \<noteq> 0 \<longrightarrow> nd_findings n' \<noteq> 0))) \<and>
     set (bd_edges b) \<subseteq> set (bd_edges b')"

definition leads :: "builder \<Rightarrow> builder \<Rightarrow> bool" where
  "leads b b' \<longleftrightarrow> sound b' \<and> grows b b'"

lemma grows_refl [simp]: "grows b b"
  by (simp add: grows_def)

lemma grows_trans: "grows a b \<Longrightarrow> grows b c \<Longrightarrow> grows a c"
  unfolding grows_def by (meson order_trans)

lemma leads_refl: "sound b \<Longrightarrow> leads b b"
  by (simp add: leads_def)

lemma leads_trans: "leads a b \<Longrightarrow> leads b c \<Longrightarrow> leads a c"
  by (auto simp: leads_def intro: grows_trans)

lemma leads_sound: "leads a b \<Longrightarrow> sound b"
  by (simp add: leads_def)

lemma grows_node: "grows b b' \<Longrightarrow> has_node b i \<Longrightarrow> has_node b' i"
  by (fastforce simp: grows_def has_node_def)

lemma leads_node: "leads b b' \<Longrightarrow> has_node b i \<Longrightarrow> has_node b' i"
  unfolding leads_def by (blast intro: grows_node)

text \<open>A loop whose body leads on from every state the loop has led to.\<close>

lemma leads_fold:
  "leads b0 b \<Longrightarrow> (\<And>x b'. x \<in> set xs \<Longrightarrow> leads b0 b' \<Longrightarrow> leads b' (f x b')) \<Longrightarrow> leads b0 (fold f xs b)"
proof (induction xs arbitrary: b)
  case (Cons x xs)
  have "leads b0 (f x b)"
    using Cons.prems(1) Cons.prems(2) [of x b] by (auto intro: leads_trans)
  then show ?case
    using Cons.IH [of "f x b"] Cons.prems(2) by simp
qed simp

lemma leads_fold_last:
  assumes "leads b0 b" "x \<in> set xs"
    and step: "\<And>x b'. x \<in> set xs \<Longrightarrow> leads b0 b' \<Longrightarrow> leads b' (f x b')"
    and est: "\<And>b'. leads b0 b' \<Longrightarrow> P (f x b')"
    and keep: "\<And>b' c. P b' \<Longrightarrow> grows b' c \<Longrightarrow> P c"
  shows "P (fold f xs b)"
proof -
  obtain us vs where xs: "xs = us @ x # vs" using assms(2) by (auto simp: in_set_conv_decomp)
  have 1: "leads b0 (fold f us b)"
    using assms(1) step xs by (intro leads_fold) auto
  have 2: "leads b0 (f x (fold f us b))"
    using leads_trans [OF 1 step [OF assms(2) 1]] .
  have "leads (f x (fold f us b)) (fold f vs (f x (fold f us b)))"
  proof (rule leads_fold)
    show "leads (f x (fold f us b)) (f x (fold f us b))" using 2 by (auto simp: leads_def)
    show "leads b' (f y b')" if "y \<in> set vs" "leads (f x (fold f us b)) b'" for y b'
      using step [of y b'] that leads_trans [OF 2 that(2)] xs by auto
  qed
  then show ?thesis
    using keep [OF est [OF 1]] xs by (simp add: leads_def)
qed

section \<open>The operations\<close>

lemma add_node_has [simp]: "has_node (add_node n b) i \<longleftrightarrow> i = nd_id n \<or> has_node b i"
  by (auto simp: add_node_def has_node_def Let_def split: option.split)

lemma good_edge_mono: "good_edge b e \<Longrightarrow> (\<And>i. has_node b i \<Longrightarrow> has_node b' i) \<Longrightarrow> good_edge b' e"
  by (auto simp: good_edge_def)

lemma merge_node_sel [simp]:
  "nd_id (merge_node ex n) = nd_id ex" "nd_kind (merge_node ex n) = nd_kind ex"
  "nd_meta (merge_node ex n) = nd_meta ex" "nd_findings (merge_node ex n) = nd_findings ex"
  by (simp_all add: merge_node_def Let_def)

lemma good_merge [simp]: "good_node (merge_node ex n) = good_node ex"
  by (simp add: good_node_def)

lemma good_node_update [simp]:
  "good_node (n\<lparr>nd_findings := a\<rparr>) = good_node n" "good_node (n\<lparr>nd_severity := s\<rparr>) = good_node n"
  "good_node (n\<lparr>nd_status := t\<rparr>) = good_node n" "good_node n \<Longrightarrow> good_node (n\<lparr>nd_meta := Some m\<rparr>)"
  by (simp_all add: good_node_def)

lemma leads_add_node [topo_steps]:
  assumes "sound b" "good_node n"
  shows "leads b (add_node n b)"
proof -
  have "\<forall>e\<in>set (bd_edges b). good_edge (add_node n b) e"
    using assms(1) by (auto simp: sound_def intro: good_edge_mono)
  then show ?thesis
    using assms
    by (cases "bd_nodes b (nd_id n)") (auto simp: leads_def sound_def grows_def add_node_def has_node_def Let_def)
qed

lemma add_edge_nodes [simp]: "bd_nodes (add_edge f t k l st b) = bd_nodes b"
  by (simp add: add_edge_def Let_def)

lemma add_edge_has [simp]: "has_node (add_edge f t k l st b) i = has_node b i"
  by (simp add: has_node_def)

lemma leads_add_edge [topo_steps]:
  assumes "sound b" "has_node b f" "may_dangle k \<or> has_node b t"
  shows "leads b (add_edge f t k l st b)"
proof (cases "f = [] \<or> t = [] \<or> f = t \<or> edge_ident f t k l \<in> set (bd_edge_seen b)")
  case True
  then have "add_edge f t k l st b = b" by (auto simp: add_edge_def Let_def)
  with assms show ?thesis by (simp add: leads_refl)
next
  case False
  have "good_edge (add_edge f t k l st b) e" if "e \<in> set (bd_edges b)" for e
    using assms(1) that by (auto simp: sound_def intro: good_edge_mono)
  with False assms show ?thesis
    by (auto simp: leads_def sound_def grows_def add_edge_def Let_def good_edge_def has_node_def)
qed

lemma attach_has [simp]: "has_node (attachFindings subj i x b) j = has_node b j"
  by (auto simp: attachFindings_def has_node_def Let_def split: option.split)

lemma leads_attach [topo_steps]: "sound b \<Longrightarrow> leads b (attachFindings subj i x b)"
proof -
  assume w: "sound b"
  have "\<forall>e\<in>set (bd_edges b). good_edge (attachFindings subj i x b) e"
    using w by (auto simp: sound_def intro: good_edge_mono)
  then show ?thesis
    using w by (auto simp: attachFindings_def leads_def sound_def grows_def has_node_def Let_def split: option.split)
qed

lemma update_has [simp]: "has_node (update_node i f b) j = has_node b j"
  by (auto simp: update_node_def has_node_def split: option.split)

lemma leads_update [topo_steps]:
  assumes "sound b" "has_node b i"
    and "\<And>n. nd_id (f n) = nd_id n \<and> nd_kind (f n) = nd_kind n \<and> nd_findings (f n) = nd_findings n"
    and "\<And>n. nd_meta n \<noteq> None \<Longrightarrow> nd_meta (f n) \<noteq> None"
  shows "leads b (update_node i f b)"
proof -
  have "good_node n \<Longrightarrow> good_node (f n)" for n
    using assms(3,4) [of n] by (auto simp: good_node_def)
  moreover
  have "\<forall>e\<in>set (bd_edges b). good_edge (update_node i f b) e"
    using assms(1) by (auto simp: sound_def intro: good_edge_mono)
  ultimately show ?thesis
    using assms by (auto simp: update_node_def leads_def sound_def grows_def has_node_def split: option.split)
qed

definition has_meta :: "builder \<Rightarrow> string \<Rightarrow> bool" where
  "has_meta b i \<longleftrightarrow> (\<exists>n. bd_nodes b i = Some n \<and> nd_meta n \<noteq> None)"

lemma leads_meta: "leads b b' \<Longrightarrow> has_meta b i \<Longrightarrow> has_meta b' i"
  by (fastforce simp: leads_def grows_def has_meta_def)

lemma write_meta_has [simp]: "has_node (write_meta i k v b) j = has_node b j"
  by (auto simp: write_meta_def has_node_def split: option.split)

lemma leads_write_meta [topo_steps]: "sound b \<Longrightarrow> has_meta b i \<Longrightarrow> leads b (write_meta i k v b)"
proof -
  assume w: "sound b" "has_meta b i"
  have "\<forall>e\<in>set (bd_edges b). good_edge (write_meta i k v b) e"
    using w by (auto simp: sound_def intro: good_edge_mono)
  then show ?thesis
    using w by (auto simp: write_meta_def leads_def sound_def grows_def has_node_def has_meta_def split: option.split)
qed

lemma kept_meta: "sound b \<Longrightarrow> has_node b i \<Longrightarrow> keeps_meta i \<Longrightarrow> has_meta b i"
  by (auto simp: sound_def has_node_def has_meta_def good_node_def)

lemma leads_if [topo_steps]: "(c \<Longrightarrow> leads b x) \<Longrightarrow> (\<not> c \<Longrightarrow> leads b y) \<Longrightarrow> leads b (if c then x else y)"
  by simp

end
