(* ===== verification/TopoSteps.thy ===== *)
theory TopoSteps
  imports TopoFacts
begin

text \<open>
  Every step of \<open>Build\<close> leads from a sound builder to a sound one. \<open>adds R f P\<close>: when the
  nodes \<open>R\<close> are there, \<open>f\<close> leads on and the nodes \<open>P\<close> are there afterwards. The rules
  follow the shape of the steps.
\<close>

lemma kinds [simp]:
  "''internet'' \<in> set node_kinds" "''host'' \<in> set node_kinds" "''service'' \<in> set node_kinds"
  "''endpoint'' \<in> set node_kinds" "''undeclared'' \<in> set node_kinds" "''upstream'' \<in> set node_kinds"
  "''backend'' \<in> set node_kinds" "''container'' \<in> set node_kinds" "''podman_container'' \<in> set node_kinds"
  "''lxd_instance'' \<in> set node_kinds" "''vm'' \<in> set node_kinds" "''network'' \<in> set node_kinds"
  "''k8s_ingress'' \<in> set node_kinds" "''k8s_service'' \<in> set node_kinds" "''k8s_pod'' \<in> set node_kinds"
  "''k8s_node'' \<in> set node_kinds"
  by (simp_all add: node_kinds_def)

lemma dangles [simp]: "may_dangle ''publishes''" "may_dangle ''scheduled''"
  by (simp_all add: may_dangle_def)

lemma keeps_meta_pod [simp]: "\<not> keeps_meta (pod_ident p)"
  by (simp add: keeps_meta_def pod_ident_def)

lemma keeps_meta_pre [simp]:
  "keeps_meta (CHR ''l'' # CHR ''x'' # CHR ''d'' # CHR '':'' # x)" "keeps_meta (CHR ''v'' # CHR ''m'' # CHR '':'' # x)"
  by (simp_all add: keeps_meta_def)

lemma not_keeps_meta [simp]:
  "c \<noteq> CHR ''l'' \<Longrightarrow> c \<noteq> CHR ''v'' \<Longrightarrow> \<not> keeps_meta (c # x)"
  by (simp add: keeps_meta_def)

lemma good_node_literal [simp]:
  "good_node \<lparr>nd_id = i, nd_kind = k, nd_label = l, nd_sublabel = sb, nd_group = g, nd_status = st, nd_findings = f,
     nd_severity = sv, nd_port = p, nd_public = pub, nd_meta = m\<rparr> \<longleftrightarrow>
   k \<in> set node_kinds \<and> (keeps_meta i \<longrightarrow> m \<noteq> None)"
  by (simp add: good_node_def)

definition adds :: "string set \<Rightarrow> (builder \<Rightarrow> builder) \<Rightarrow> string set \<Rightarrow> bool" where
  "adds R f P \<longleftrightarrow> R \<subseteq> P \<and>
     (\<forall>b. sound b \<and> (\<forall>i\<in>R. has_node b i) \<longrightarrow> leads b (f b) \<and> (\<forall>i\<in>P. has_node (f b) i))"

named_theorems adds_rules \<open>rules that follow the shape of a step\<close>

lemma adds_leads: "adds R f P \<Longrightarrow> sound b \<Longrightarrow> \<forall>i\<in>R. has_node b i \<Longrightarrow> leads b (f b)"
  by (simp add: adds_def)

lemma adds_has: "adds R f P \<Longrightarrow> sound b \<Longrightarrow> \<forall>i\<in>R. has_node b i \<Longrightarrow> i \<in> P \<Longrightarrow> has_node (f b) i"
  by (simp add: adds_def)

lemma addsI: "(\<And>b. sound b \<Longrightarrow> \<forall>i\<in>P. has_node b i \<Longrightarrow> leads b (f b)) \<Longrightarrow> adds P f P"
  unfolding adds_def by (auto intro: leads_node)

lemma adds_id [adds_rules]: "adds R (\<lambda>b. b) R"
  by (auto simp: adds_def intro: leads_refl)

text \<open>A rule for a function \<open>g\<close> after \<open>h\<close>.\<close>

lemma adds_after:
  assumes h: "adds R h P" and g: "adds P g Q"
  shows "adds R (\<lambda>b. g (h b)) Q"
proof -
  have "R \<subseteq> Q" using h g by (auto simp: adds_def)
  moreover have "leads b (g (h b)) \<and> (\<forall>i\<in>Q. has_node (g (h b)) i)" if "sound b" "\<forall>i\<in>R. has_node b i" for b
  proof -
    have "leads b (h b)" "\<forall>i\<in>P. has_node (h b) i" using h that by (auto simp: adds_def)
    moreover from this have "leads (h b) (g (h b))" "\<forall>i\<in>Q. has_node (g (h b)) i"
      using g by (auto simp: adds_def dest: leads_sound)
    ultimately show ?thesis by (auto intro: leads_trans)
  qed
  ultimately show ?thesis by (simp add: adds_def)
qed

lemma adds_weaken: "adds R f P \<Longrightarrow> R \<subseteq> P' \<Longrightarrow> P' \<subseteq> P \<Longrightarrow> adds R f P'"
  by (auto simp: adds_def)

lemma adds_more:
  assumes "adds R f P"
  shows "adds (R \<union> S) f (P \<union> S)"
proof -
  have "leads b (f b) \<and> (\<forall>i\<in>P \<union> S. has_node (f b) i)" if "sound b" "\<forall>i\<in>R \<union> S. has_node b i" for b
  proof -
    have "leads b (f b)" "\<forall>i\<in>P. has_node (f b) i"
      using assms that by (auto simp: adds_def)
    then show ?thesis using that leads_node by blast
  qed
  then show ?thesis using assms by (auto simp: adds_def)
qed

lemma adds_node [adds_rules]:
  "adds R h P \<Longrightarrow> good_node n \<Longrightarrow> adds R (\<lambda>b. add_node n (h b)) (insert (nd_id n) P)"
  by (rule adds_after, assumption) (auto simp: adds_def intro: leads_add_node)

lemma adds_edge [adds_rules]:
  "adds R h P \<Longrightarrow> f \<in> P \<Longrightarrow> may_dangle k \<or> t \<in> P \<Longrightarrow> adds R (\<lambda>b. add_edge f t k l st (h b)) P"
  by (rule adds_after, assumption) (auto simp: adds_def intro: leads_add_edge)

lemma adds_attach [adds_rules]: "adds R h P \<Longrightarrow> adds R (\<lambda>b. attachFindings subj i x (h b)) P"
  by (rule adds_after, assumption) (auto simp: adds_def intro: leads_attach)

lemma adds_update [adds_rules]:
  assumes "adds R h P" "i \<in> P"
    and "\<And>n. nd_id (f n) = nd_id n \<and> nd_kind (f n) = nd_kind n \<and> nd_findings (f n) = nd_findings n"
    and "\<And>n. nd_meta n \<noteq> None \<Longrightarrow> nd_meta (f n) \<noteq> None"
  shows "adds R (\<lambda>b. update_node i f (h b)) P"
  by (rule adds_after [OF assms(1)]) (use assms(2-4) in \<open>auto simp: adds_def intro!: leads_update\<close>)

lemma adds_if [adds_rules]: "adds R f P \<Longrightarrow> adds R g P \<Longrightarrow> adds R (\<lambda>b. if c then f b else g b) P"
  by (simp add: adds_def)

lemma adds_skip: "adds P (\<lambda>b. g b) Q \<Longrightarrow> adds P (\<lambda>b. if c then b else g b) P"
  by (cases c) (auto simp: adds_def intro: leads_refl)

lemma adds_fold:
  assumes f: "\<And>x. x \<in> set xs \<Longrightarrow> adds P (f x) (Q x)"
  shows "adds P (fold f xs) (P \<union> (\<Union>x\<in>set xs. Q x))"
  using f
proof (induction xs)
  case Nil then show ?case by (auto simp: adds_def intro: leads_refl)
next
  case (Cons x xs)
  have 1: "adds P (f x) (Q x)" using Cons.prems by simp
  have "adds P (fold f xs) (P \<union> (\<Union>x\<in>set xs. Q x))" using Cons by simp
  from adds_more [OF this, of "Q x"] have 2: "adds (Q x) (fold f xs) (P \<union> (\<Union>x\<in>set xs. Q x) \<union> Q x)"
    using 1 by (simp add: adds_def sup.absorb2)
  have "adds P (\<lambda>b. fold f xs (f x b)) (P \<union> (\<Union>x\<in>set xs. Q x) \<union> Q x)"
    by (rule adds_after [OF 1 2])
  then show ?case by (simp add: comp_def Un_ac)
qed

lemma adds_loop [adds_rules]:
  assumes "adds R h P" "\<And>x. x \<in> set xs \<Longrightarrow> adds P (f x) (Q x)"
  shows "adds R (\<lambda>b. fold f xs (h b)) P"
proof (rule adds_weaken)
  show "adds R (\<lambda>b. fold f xs (h b)) (P \<union> (\<Union>x\<in>set xs. Q x))"
    by (rule adds_after [OF assms(1) adds_fold]) (rule assms(2))
qed (use assms(1) in \<open>auto simp: adds_def\<close>)

section \<open>The steps\<close>

lemma adds_managed [adds_rules]:
  assumes "adds R h P" "i \<in> P"
  shows "adds R (\<lambda>b. managed_by svc i (h b)) P"
proof (rule adds_after [OF assms(1)])
  show "adds P (\<lambda>b. managed_by svc i b) P"
    using assms(2) by (auto simp: adds_def managed_by_def intro: leads_refl leads_add_edge)
qed

lemma adds_link_network [adds_rules]:
  assumes "adds R h P" "i \<in> P" "\<not> keeps_meta net"
  shows "adds R (\<lambda>b. link_network i net label sub grp ip (h b)) (insert net P)"
  unfolding link_network_def
  using assms(2,3) adds_node [OF assms(1), of "mk_node net ''network'' label sub grp ''ok'' None"]
  by (intro adds_edge) auto

lemma adds_write_meta [adds_rules]:
  assumes h: "adds R h P" and m: "i \<in> P" "keeps_meta i"
  shows "adds R (\<lambda>b. write_meta i k v (h b)) P"
proof -
  have "leads b (write_meta i k v (h b)) \<and> (\<forall>j\<in>P. has_node (write_meta i k v (h b)) j)"
    if b: "sound b" "\<forall>i\<in>R. has_node b i" for b
  proof -
    have 1: "leads b (h b)" "\<forall>j\<in>P. has_node (h b) j" using h b by (auto simp: adds_def)
    then have "leads (h b) (write_meta i k v (h b))"
      using m by (auto intro!: leads_write_meta kept_meta leads_sound)
    with 1 show ?thesis by (auto intro: leads_trans)
  qed
  then show ?thesis using h by (auto simp: adds_def)
qed

text \<open>The set of nodes a step adds is found by the rules; what is claimed of it is part of it.\<close>

lemma adds_part: "adds R (\<lambda>b. f b) Q \<Longrightarrow> R \<subseteq> P \<and> P \<subseteq> Q \<Longrightarrow> adds R f P"
  by (auto intro: adds_weaken)

lemma adds_service: "adds R (build_service u) R"
  by (rule adds_part, unfold build_service_def Let_def, rule adds_skip, (rule adds_rules | simp)+)

lemma adds_container: "adds R (build_container subj ct) (insert (''ct:'' @ ct_name ct) R)"
  by (rule adds_part, unfold build_container_def Let_def, (rule adds_rules | simp)+) auto

lemma adds_podman: "adds R (build_podman subj pc) R"
  by (rule adds_part, unfold build_podman_def Let_def, (rule adds_rules | simp)+) auto

lemma adds_lxd_port: "{''host'', ''internet'', ''lxd:'' @ lx_name x} \<subseteq> R \<Longrightarrow> adds R (build_lxd_port x p) R"
proof -
  assume r: "{''host'', ''internet'', ''lxd:'' @ lx_name x} \<subseteq> R"
  obtain addr port ok where l: "lxdListen (lp_listen p) = (addr, port, ok)" by (cases "lxdListen (lp_listen p)")
  obtain a c o' where m: "lxdListen (lp_connect p) = (a, c, o')" by (cases "lxdListen (lp_connect p)")
  show ?thesis
    by (rule adds_part, unfold build_lxd_port_def Let_def l m prod.case, rule adds_skip, (rule adds_rules | (use r in simp))+)
qed

lemma adds_lxd:
  "{''host'', ''internet''} \<subseteq> R \<Longrightarrow> adds R (build_lxd subj x) (insert (''lxd:'' @ lx_name x) R)"
  by (rule adds_part, unfold build_lxd_def Let_def,
      (rule adds_lxd_port adds_rules | simp)+) auto

lemma adds_vm: "adds R (build_vm subj v) (insert (''vm:'' @ vm_name v) R)"
  by (rule adds_part, unfold build_vm_def Let_def, (rule adds_skip adds_rules | simp)+) auto

section \<open>Kubernetes\<close>

lemma adds_link_machines [adds_rules]:
  assumes "adds R h P" "i \<in> P"
  shows "adds R (\<lambda>b. fold (link_machine n i) (bd_order (h b)) (h b)) P"
proof (rule adds_after [OF assms(1)])
  have "leads b (fold (link_machine n i) (bd_order b) b)" if b: "sound b" "has_node b i" for b
  proof (rule leads_fold [OF leads_refl [OF b(1)]])
    fix c b' assume c: "c \<in> set (bd_order b)" "leads b b'"
    then have "has_node b c" using b(1) by (auto simp: sound_def)
    with c b have "has_node b' c" "has_node b' i" "sound b'"
      by (blast intro: leads_node leads_sound)+
    from this(1) obtain m where "bd_nodes b' c = Some m" by (auto simp: has_node_def)
    then show "leads b' (link_machine n i c b')"
      using \<open>has_node b' c\<close> \<open>has_node b' i\<close> \<open>sound b'\<close>
      by (simp add: link_machine_def leads_refl leads_add_edge)
  qed
  then show "adds P (\<lambda>b. fold (link_machine n i) (bd_order b) b) P"
    using assms(2) by (intro addsI) simp
qed

lemma adds_k8s_node: "adds R (build_k8s_node subj n) R"
  by (rule adds_part, unfold build_k8s_node_def Let_def, (rule adds_rules | simp)+) auto

lemma adds_k8s_pod: "adds R (build_k8s_pod subj p) (insert (pod_ident p) R)"
  by (rule adds_part, unfold build_k8s_pod_def Let_def case_prod_unfold, (rule adds_rules | simp)+) auto

lemma adds_open_port [adds_rules]: "''internet'' \<in> P \<Longrightarrow> i \<in> P \<Longrightarrow> adds P (open_port v i p) P"
  by (rule adds_part, unfold open_port_def, (rule adds_rules | simp)+)

lemma adds_k8s_service:
  assumes "''internet'' \<in> R" "\<And>p. p \<in> set (k8_pods k) \<Longrightarrow> pod_ident p \<in> R"
  shows "adds R (build_k8s_service subj k v) R"
proof -
  have "pod_ident p \<in> R" if "p \<in> set (matched_pods k v)" for p
    using assms(2) [of p] that by (simp add: matched_pods_def)
  note pods = this
  show ?thesis
    by (rule adds_part, unfold build_k8s_service_def Let_def,
        (rule adds_rules | (use assms(1) pods in \<open>simp; fail\<close>))+) auto
qed

lemma adds_link_service [adds_rules]:
  assumes "i \<in> P"
  shows "adds P (link_service ns i svc) P"
proof -
  let ?to = "''k8s:svc:'' @ k8sKey ns svc"
  let ?m = "mk_node ?to ''k8s_service'' svc (ns @ middle_dot @ em_dash) ''kubernetes'' ''error'' None"
  have "\<exists>Q. adds P (\<lambda>b. add_edge i ?to ''routes'' svc ''error'' (add_node ?m (update_node i (\<lambda>n. n\<lparr>nd_status := ''error''\<rparr>) b))) Q"
    by (rule exI, (rule adds_rules | (use assms in simp))+)
  then obtain Q where Q: "adds P (\<lambda>b. add_edge i ?to ''routes'' svc ''error'' (add_node ?m (update_node i (\<lambda>n. n\<lparr>nd_status := ''error''\<rparr>) b))) Q"
    by blast
  have "leads b (link_service ns i svc b)" if "sound b" "\<forall>j\<in>P. has_node b j" for b
  proof (cases "has_node b ?to")
    case True
    then show ?thesis using that assms by (simp add: link_service_def Let_def leads_add_edge)
  next
    case False
    then show ?thesis using adds_leads [OF Q that] by (simp add: link_service_def Let_def)
  qed
  then show ?thesis by (rule addsI)
qed

lemma adds_k8s_ingress: "''internet'' \<in> R \<Longrightarrow> adds R (build_k8s_ingress subj x) R"
  by (rule adds_part, unfold build_k8s_ingress_def Let_def, (rule adds_rules | simp)+) auto

lemma adds_k8s:
  assumes "''internet'' \<in> R"
  shows "adds R (buildK8s subj s) R"
proof (cases "sn_k8s s")
  case None then show ?thesis by (simp add: buildK8s_def adds_def leads_refl)
next
  case (Some k)
  let ?P = "R \<union> (\<Union>p\<in>set (k8_pods k). insert (pod_ident p) R)"
  have 1: "adds R (fold (build_k8s_node subj) (k8_nodes k)) (R \<union> (\<Union>x\<in>set (k8_nodes k). R))"
    by (rule adds_fold) (rule adds_k8s_node)
  have 2: "adds R (fold (build_k8s_pod subj) (k8_pods k)) ?P"
    by (rule adds_fold) (rule adds_k8s_pod)
  have "adds ?P (fold (build_k8s_service subj k) (k8_services k)) (?P \<union> (\<Union>x\<in>set (k8_services k). ?P))"
    by (rule adds_fold, rule adds_k8s_service) (use assms in auto)
  then have 3: "adds ?P (fold (build_k8s_service subj k) (k8_services k)) ?P"
    by (rule adds_weaken) auto
  have "adds ?P (fold (build_k8s_ingress subj) (k8_ingresses k)) (?P \<union> (\<Union>x\<in>set (k8_ingresses k). ?P))"
    by (rule adds_fold, rule adds_k8s_ingress) (use assms in auto)
  then have 4: "adds ?P (fold (build_k8s_ingress subj) (k8_ingresses k)) ?P"
    by (rule adds_weaken) auto
  have 1: "adds R (fold (build_k8s_node subj) (k8_nodes k)) R"
    using 1 by (rule adds_weaken) auto
  note all = adds_after [OF adds_after [OF adds_after [OF 1 2] 3] 4]
  have "buildK8s subj s = (\<lambda>b. fold (build_k8s_ingress subj) (k8_ingresses k) (fold (build_k8s_service subj k) (k8_services k)
      (fold (build_k8s_pod subj) (k8_pods k) (fold (build_k8s_node subj) (k8_nodes k) b))))"
    using Some by (intro ext) (simp add: buildK8s_def)
  then show ?thesis
    using adds_weaken [OF all, of R] by simp
qed

section \<open>Networks, upstreams, endpoints, listeners\<close>

lemma adds_network: "adds R (build_network n) R"
proof (rule addsI)
  fix b assume b: "sound b"
  let ?i = "''net:'' @ dn_name n" and ?sub = "join '', '' (dn_subnets n)"
  let ?meta = "Some [(''driver'', dn_driver n), (''bridge'', dn_bridge n), (''gateway'', dn_gateway n)]"
  show "leads b (build_network n b)"
    using b leads_update [OF b, of ?i "\<lambda>x. x\<lparr>nd_sublabel := ?sub, nd_meta := ?meta\<rparr>"]
    by (auto simp: build_network_def Let_def intro: leads_add_node)
qed

definition workloads :: "snapshot \<Rightarrow> string set" where
  "workloads s = (\<lambda>c. ''ct:'' @ ct_name c) ` set (sn_containers s) \<union> (\<lambda>x. ''lxd:'' @ lx_name x) ` set (sn_lxd s) \<union>
     (\<lambda>v. ''vm:'' @ vm_name v) ` set (sn_vms s)"

lemma first_some_in: "first_some f xs = Some y \<Longrightarrow> \<exists>x\<in>set xs. f x = Some y"
  by (induction xs) (auto split: option.splits)

lemma served_by_workload: "served_by s host port portStr = Some (t, l) \<Longrightarrow> t \<in> workloads s"
  by (auto simp: served_by_def workloads_def container_serves_def lxd_serves_def vm_serves_def
      split: option.splits if_splits dest!: first_some_in)

lemma adds_link_backend [adds_rules]:
  assumes "adds R h P" "be \<in> P" "workloads s \<subseteq> P"
  shows "adds R (\<lambda>b. linkBackendToContainer s be sock (h b)) P"
proof (rule adds_after [OF assms(1)])
  show "adds P (\<lambda>b. linkBackendToContainer s be sock b) P"
  proof (rule addsI)
    fix b assume b: "sound b" "\<forall>i\<in>P. has_node b i"
    have "leads b (add_edge be t ''served-by'' l ''ok'' b)" if "served_by s host port portStr = Some (t, l)" for host port portStr t l
      using served_by_workload [OF that] b assms(2,3) by (auto intro: leads_add_edge)
    then show "leads b (linkBackendToContainer s be sock b)"
      using b(1) by (simp add: linkBackendToContainer_def Let_def leads_refl split: prod.split option.split)
  qed
qed

lemma adds_server: "workloads s \<subseteq> P \<Longrightarrow> u \<in> P \<Longrightarrow> adds P (build_server s ports up u v) P"
  by (rule adds_part, unfold build_server_def Let_def, (rule adds_rules | simp)+) auto

lemma adds_upstream: "workloads s \<subseteq> R \<Longrightarrow> adds R (build_upstream T subj s ports u) R"
  by (rule adds_part, unfold build_upstream_def Let_def, (rule adds_server adds_rules | simp add: subset_insertI2)+)

lemma adds_ensure [adds_rules]:
  assumes "adds R h P" "good_node n"
  shows "adds R (\<lambda>b. ensure_node n (h b)) (insert (nd_id n) P)"
proof (rule adds_after [OF assms(1)])
  show "adds P (\<lambda>b. ensure_node n b) (insert (nd_id n) P)"
    using assms(2) by (auto simp: adds_def ensure_node_def intro: leads_refl leads_add_node)
qed

lemma adds_route:
  assumes "workloads s \<subseteq> P" "i \<in> P"
  shows "adds P (build_route T s ports e i r) P"
proof -
  let ?n = "mk_node (''up:'' @ ep_service e @ '':'' @ rd_target r) ''upstream'' (rd_target r) (te_t T ''topology.undetermined'' [])
      (ep_service e) ''error'' None"
  let ?m = "mk_node (''be:'' @ rd_target r) ''backend'' (displaySocket (rd_target r)) (te_t T ''topology.directAddress'' [])
      (ep_service e) (backendStatus (rd_target r) ports) None"
  have "adds P (\<lambda>b. add_edge i (nd_id ?n) ''routes'' (rd_match r) ''ok'' (ensure_node ?n b)) (insert (nd_id ?n) P)"
    by ((rule adds_rules | (use assms in \<open>simp; fail\<close>))+)
  moreover have "adds P (\<lambda>b. linkBackendToContainer s (nd_id ?m) (rd_target r)
      (add_edge i (nd_id ?m) ''routes'' (rd_match r) ''ok'' (add_node ?m b))) (insert (nd_id ?m) P)"
    by ((rule adds_rules | (use assms in \<open>simp add: subset_insertI2; fail\<close>))+)
  ultimately show ?thesis
    by (intro addsI) (auto simp: build_route_def Let_def leads_refl dest: adds_leads)
qed

lemma adds_owner [adds_rules]:
  assumes "adds R h P" "''host'' \<in> P" "i \<in> P"
  shows "adds R (\<lambda>b. link_owner service i (h b)) P"
proof (rule adds_after [OF assms(1)])
  show "adds P (\<lambda>b. link_owner service i b) P"
    using assms(2,3) by (auto simp: adds_def link_owner_def intro: leads_add_edge)
qed

lemma adds_endpoint:
  assumes "workloads s \<subseteq> R" "''host'' \<in> R" "''internet'' \<in> R"
  shows "adds R (build_endpoint T subj s ports e) R"
  by (rule adds_part, unfold build_endpoint_def Let_def,
      (rule adds_route adds_rules | (use assms in \<open>simp add: subset_insertI2\<close>))+)

lemma adds_undeclared:
  "{''host'', ''internet''} \<subseteq> R \<Longrightarrow>
   adds R (build_undeclared T subj l) (insert (''misc:'' @ ls_protocol l @ '':'' @ socket_str (ls_address l) (ls_port l)) R)"
  by (rule adds_part, unfold build_undeclared_def Let_def, (rule adds_rules | simp)+) auto

end
