(* ===== verification/TopoTheorems.thy ===== *)
theory TopoTheorems
  imports TopoSteps
begin

text \<open>
  Theorems on the resource map: its nodes and edges are well-formed, no step of building it
  panics, the counts and the orders are right, and what the analyzer finds undeclared is on it
  with its findings.
\<close>

section \<open>The whole build\<close>

definition base :: "topo_env \<Rightarrow> snapshot \<Rightarrow> builder" where
  "base T s =
     add_node (mk_node ''internet'' ''internet'' (te_t T ''topology.internet'' []) [] [] ''ok'' None)
       (add_node (mk_node ''host'' ''host'' (sn_hostname s) (sn_os s) [] ''ok''
          (Some [(''mode'', sn_mode s), (''kernel'', sn_kernel s)])) start_builder)"

definition before_undeclared :: "topo_env \<Rightarrow> snapshot \<Rightarrow> builder" where
  "before_undeclared T s =
     fold (build_endpoint T (by_subject s) s (map ls_port (sn_listeners s))) (sn_endpoints s)
       (fold (build_upstream T (by_subject s) s (map ls_port (sn_listeners s))) (sn_upstreams s)
         (fold build_network (sn_networks s) (buildK8s (by_subject s) s
           (fold (build_vm (by_subject s)) (sn_vms s) (fold (build_lxd (by_subject s)) (sn_lxd s)
             (fold (build_podman (by_subject s)) (sn_podman s) (fold (build_container (by_subject s)) (sn_containers s)
               (fold build_service (sn_services s) (base T s)))))))))"

lemma build_steps_split:
  "build_steps T s = fold (build_undeclared T (by_subject s)) (UndeclaredListeners (te_run T) s) (before_undeclared T s)"
  by (simp only: build_steps_def before_undeclared_def base_def Let_def)

lemma sound_start: "sound start_builder"
  by (simp add: sound_def start_builder_def has_node_def)

lemma sound_base: "sound (base T s)" "has_node (base T s) ''host''" "has_node (base T s) ''internet''"
proof -
  show "sound (base T s)"
    unfolding base_def
    by (intro leads_sound [OF leads_add_node] sound_start) simp_all
  show "has_node (base T s) ''host''" "has_node (base T s) ''internet''"
    by (simp_all add: base_def)
qed

lemma adds_all: "(\<And>x. adds P (f x) P) \<Longrightarrow> adds P (fold f xs) P"
  by (rule adds_weaken [OF adds_fold [where Q = "\<lambda>_. P"]]) auto

lemma adds_each: "(\<And>x. adds P (f x) (insert (i x) P)) \<Longrightarrow> adds P (fold f xs) (P \<union> i ` set xs)"
  by (rule adds_weaken [OF adds_fold [where Q = "\<lambda>x. insert (i x) P"]]) auto

abbreviation roots :: "string set" where
  "roots \<equiv> {''host'', ''internet''}"

lemma before_adds:
  "sound (before_undeclared T s)" "has_node (before_undeclared T s) ''host''" "has_node (before_undeclared T s) ''internet''"
proof -
  let ?subj = "by_subject s" and ?ports = "map ls_port (sn_listeners s)"
  let ?C = "(\<lambda>c. ''ct:'' @ ct_name c) ` set (sn_containers s)"
  let ?L = "(\<lambda>x. ''lxd:'' @ lx_name x) ` set (sn_lxd s)"
  let ?V = "(\<lambda>v. ''vm:'' @ vm_name v) ` set (sn_vms s)"
  let ?P = "roots \<union> ?C \<union> ?L \<union> ?V"
  have W: "workloads s \<subseteq> ?P" unfolding workloads_def by blast
  have 1: "adds roots (fold build_service (sn_services s)) roots"
    by (rule adds_all) (rule adds_service)
  have 2: "adds roots (fold (build_container ?subj) (sn_containers s)) (roots \<union> ?C)"
    by (rule adds_each) (rule adds_container)
  have 3: "adds (roots \<union> ?C) (fold (build_podman ?subj) (sn_podman s)) (roots \<union> ?C)"
    by (rule adds_all) (rule adds_podman)
  have 4: "adds (roots \<union> ?C) (fold (build_lxd ?subj) (sn_lxd s)) (roots \<union> ?C \<union> ?L)"
    by (rule adds_each, rule adds_lxd) auto
  have 5: "adds (roots \<union> ?C \<union> ?L) (fold (build_vm ?subj) (sn_vms s)) ?P"
    by (rule adds_each) (rule adds_vm)
  have 6: "adds ?P (buildK8s ?subj s) ?P"
    by (rule adds_k8s) auto
  have 7: "adds ?P (fold build_network (sn_networks s)) ?P"
    by (rule adds_all) (rule adds_network)
  have 8: "adds ?P (fold (build_upstream T ?subj s ?ports) (sn_upstreams s)) ?P"
    by (rule adds_all, rule adds_upstream) (rule W)
  have 9: "adds ?P (fold (build_endpoint T ?subj s ?ports) (sn_endpoints s)) ?P"
    by (rule adds_all, rule adds_endpoint [OF W]) auto
  note all = adds_after [OF adds_after [OF adds_after [OF adds_after [OF adds_after [OF adds_after [OF adds_after
    [OF adds_after [OF 1 2] 3] 4] 5] 6] 7] 8] 9]
  have r: "\<forall>i\<in>roots. has_node (base T s) i" using sound_base by simp
  show "sound (before_undeclared T s)"
    using leads_sound [OF adds_leads [OF all sound_base(1) r]] unfolding before_undeclared_def .
  show "has_node (before_undeclared T s) ''host''" "has_node (before_undeclared T s) ''internet''"
    unfolding before_undeclared_def using adds_has [OF all sound_base(1) r] by simp_all
qed

lemma build_leads: "leads (before_undeclared T s) (build_steps T s)"
proof -
  have "adds roots (fold (build_undeclared T (by_subject s)) (UndeclaredListeners (te_run T) s))
      (roots \<union> (\<lambda>l. ''misc:'' @ ls_protocol l @ '':'' @ socket_str (ls_address l) (ls_port l)) ` set (UndeclaredListeners (te_run T) s))"
    by (rule adds_each, rule adds_undeclared) simp
  then show ?thesis
    unfolding build_steps_split by (rule adds_leads) (use before_adds in auto)
qed

lemma build_sound: "sound (build_steps T s)"
  using build_leads by (rule leads_sound)

section \<open>The shape of the map\<close>

lemma order_nodes: "sound b \<Longrightarrow> i \<in> set (bd_order b) \<Longrightarrow> \<exists>n. bd_nodes b i = Some n \<and> nd_id n = i"
  by (auto simp: sound_def has_node_def)

lemma nodes_in_order_ids: "sound b \<Longrightarrow> map nd_id (nodes_in_order b) = bd_order b"
  unfolding nodes_in_order_def map_map comp_def by (intro map_idI) (auto dest: order_nodes)

lemma nodes_in_order_set: "sound b \<Longrightarrow> bd_nodes b i = Some n \<Longrightarrow> n \<in> set (nodes_in_order b)"
proof -
  assume b: "sound b" "bd_nodes b i = Some n"
  then have "i \<in> set (bd_order b)" by (simp add: sound_def has_node_def)
  moreover have "n = the (bd_nodes b i)" using b(2) by simp
  ultimately show ?thesis unfolding nodes_in_order_def set_map by (rule image_eqI [rotated])
qed

lemma nodes_in_order_good: "sound b \<Longrightarrow> n \<in> set (nodes_in_order b) \<Longrightarrow> bd_nodes b (nd_id n) = Some n \<and> nd_kind n \<in> set node_kinds"
proof -
  assume b: "sound b" "n \<in> set (nodes_in_order b)"
  then obtain i where i: "i \<in> set (bd_order b)" "n = the (bd_nodes b i)" by (auto simp: nodes_in_order_def)
  then have n: "bd_nodes b i = Some n" "nd_id n = i" using order_nodes [OF b(1) i(1)] by auto
  then have "good_node n" using b(1) by (simp add: sound_def)
  with n show ?thesis by (simp add: good_node_def)
qed

lemma rank_in_inj: "a \<in> set xs \<Longrightarrow> rank_in xs a = rank_in xs b \<Longrightarrow> a = b"
  by (induction xs) (auto split: if_splits)

interpretation nodes: keyed_order node_less "\<lambda>n. (kindRank (nd_kind n), nd_label n)" "\<lambda>n. nd_kind n \<in> set node_kinds"
  by unfold_locales (auto simp: node_less_def kindRank_def less_prod_def dest: rank_in_inj)

interpretation refs: keyed_order ref_less "\<lambda>r. SeverityRank (fg_severity r)" "\<lambda>_. True"
  by unfold_locales (simp add: ref_less_def)

lemma Build_nodes:
  "mset (gr_nodes (Build T s)) = mset (nodes_in_order (build_steps T s))"
  "sorted (map (\<lambda>n. (kindRank (nd_kind n), nd_label n)) (gr_nodes (Build T s)))"
proof -
  have "list_all (\<lambda>n. nd_kind n \<in> set node_kinds) (nodes_in_order (build_steps T s))"
    using nodes_in_order_good [OF build_sound] by (auto simp: list_all_iff)
  then show "mset (gr_nodes (Build T s)) = mset (nodes_in_order (build_steps T s))"
    "sorted (map (\<lambda>n. (kindRank (nd_kind n), nd_label n)) (gr_nodes (Build T s)))"
    by (simp_all add: Build_def Let_def nodes.sort_stable_mset nodes.sort_stable_sorted)
qed

lemma Build_node_set: "set (gr_nodes (Build T s)) = set (nodes_in_order (build_steps T s))"
  using Build_nodes(1) by (rule mset_eq_setD)

lemma Build_edges: "gr_edges (Build T s) = bd_edges (build_steps T s)"
  by (simp add: Build_def Let_def)

text \<open>C30. On the resource map no two nodes and no two edges share an identifier, no edge is a loop, and every edge joins two nodes of the map, except a published port of a container that was not seen and the cluster node of a pod that was not listed.\<close>

theorem map_well_formed:
  "distinct (map nd_id (gr_nodes (Build T s))) \<and> distinct (map ed_id (gr_edges (Build T s))) \<and>
   (\<forall>e\<in>set (gr_edges (Build T s)).
      ed_from e \<noteq> ed_to e \<and> ed_from e \<in> nd_id ` set (gr_nodes (Build T s)) \<and>
      (ed_to e \<in> nd_id ` set (gr_nodes (Build T s)) \<or> ed_kind e = ''publishes'' \<or> ed_kind e = ''scheduled''))"
proof -
  let ?b = "build_steps T s"
  have ids: "mset (map nd_id (gr_nodes (Build T s))) = mset (bd_order ?b)"
    using Build_nodes(1) [of T s] nodes_in_order_ids [OF build_sound] by (metis mset_map)
  then have dist: "distinct (map nd_id (gr_nodes (Build T s)))"
    using build_sound [of T s] mset_eq_imp_distinct_iff unfolding sound_def by blast
  have dom: "nd_id ` set (gr_nodes (Build T s)) = {i. has_node ?b i}"
    using mset_eq_setD [OF ids] build_sound [of T s] by (auto simp: sound_def)
  show ?thesis
    using dist build_sound [of T s] unfolding dom Build_edges
    by (auto simp: sound_def good_edge_def may_dangle_def)
qed

text \<open>Building the map of any snapshot never writes through a missing node or into missing metadata.\<close>

theorem map_build_no_panic: "\<not> bd_panic (build_steps T s)"
  using build_sound [of T s] by (simp add: sound_def)

lemma kind_counts_filter: "fold (\<lambda>n m. m(nd_kind n := m (nd_kind n) + 1)) ns m k = m k + length (filter (\<lambda>n. nd_kind n = k) ns)"
  by (induction ns arbitrary: m) auto

lemma kind_counts_eq: "kind_counts ns k = length (filter (\<lambda>n. nd_kind n = k) ns)"
  unfolding kind_counts_def kind_counts_filter by simp

lemma Build_stats:
  "gr_stats (Build T s) k =
     (if k = ''edges'' then length (gr_edges (Build T s)) else length (filter (\<lambda>n. nd_kind n = k) (gr_nodes (Build T s))))"
proof -
  have "size (filter_mset P (mset (gr_nodes (Build T s)))) = size (filter_mset P (mset (nodes_in_order (build_steps T s))))" for P
    using Build_nodes(1) [of T s] by simp
  then have "length (filter P (gr_nodes (Build T s))) = length (filter P (nodes_in_order (build_steps T s)))" for P
    by (metis mset_filter size_mset)
  moreover have "gr_stats (Build T s) k = (if k = ''edges'' then length (gr_edges (Build T s)) else kind_counts (nodes_in_order (build_steps T s)) k)"
    by (simp add: Build_def Let_def)
  ultimately show ?thesis by (simp add: kind_counts_eq)
qed

text \<open>The map lists its nodes by kind from the internet inwards and by label within a kind, its findings from the worst severity on, and its statistics are the number of nodes of each kind and of edges.\<close>

theorem map_sorted_and_counted:
  "sorted (map (\<lambda>n. (kindRank (nd_kind n), nd_label n)) (gr_nodes (Build T s))) \<and>
   sorted (map (\<lambda>r. SeverityRank (fg_severity r)) (gr_findings (Build T s))) \<and>
   mset (gr_findings (Build T s)) = mset (bd_findings (build_steps T s)) \<and>
   gr_stats (Build T s) ''edges'' = length (gr_edges (Build T s)) \<and>
   (\<forall>k\<in>set node_kinds. gr_stats (Build T s) k = length (filter (\<lambda>n. nd_kind n = k) (gr_nodes (Build T s))))"
proof -
  have "list_all (\<lambda>_. True) (bd_findings (build_steps T s))" by (simp add: list_all_iff)
  note refs = refs.sort_stable_sorted [OF this] refs.sort_stable_mset [OF this]
  have "''edges'' \<notin> set node_kinds" by (simp add: node_kinds_def)
  then show ?thesis
    using Build_nodes(2) [of T s] refs Build_stats [of T s]
    by (auto simp: Build_def Let_def)
qed

section \<open>What the analyzer found is on the map\<close>

lemma by_subject_filter: "by_subject s x = filter (\<lambda>f. fd_object f = x) (sn_findings s)"
proof -
  have "fold (\<lambda>f m. m(fd_object f := m (fd_object f) @ [f])) fs m x = m x @ filter (\<lambda>f. fd_object f = x) fs" for fs :: "finding list" and m
    by (induction fs arbitrary: m) auto
  then show ?thesis by (simp add: by_subject_def)
qed

lemma undeclared_has_finding:
  assumes "l \<in> set (UndeclaredListeners E s)"
  shows "\<exists>f\<in>set (Run E s). fd_rule f = ''listening-not-declared'' \<and> fd_object f = socket_str (ls_address l) (ls_port l)"
proof -
  let ?o = "socket_str (ls_address l) (ls_port l)"
  have "undeclared_finding l \<in> set (rule_findings E s)"
    using assms by (simp add: rule_findings_def Let_def ruleListeningNotDeclared_def UndeclaredListeners_def)
  moreover have "fd_id (named (undeclared_finding l)) = ''listening-not-declared:'' @ ?o"
    by (simp add: named_def undeclared_finding_def)
  ultimately have "''listening-not-declared:'' @ ?o \<in> fd_id ` set (Run E s)"
    unfolding Run_ids by (metis imageI)
  then obtain f where f: "f \<in> set (Run E s)" "fd_id f = ''listening-not-declared:'' @ ?o" by auto
  have rule: "fd_rule f = ''listening-not-declared''"
    using Run_speaks(2,3) [OF f(1)] f(2) prefix_of_listening [of ?o "fd_rule f"] by metis
  moreover have "fd_id f = fd_rule f @ '':'' @ fd_object f"
    using speaks_rules [of E s] Run_speaks(1) [OF f(1)] rule by (auto simp: speaks_def)
  ultimately have "fd_object f = ?o" using f(2) by simp
  with f rule show ?thesis by blast
qed

text \<open>A node with a finding, and an edge by its identifier: both stay.\<close>

definition flagged :: "string \<Rightarrow> builder \<Rightarrow> bool" where
  "flagged i b \<longleftrightarrow> (\<exists>n. bd_nodes b i = Some n \<and> nd_findings n \<noteq> 0)"

definition linked :: "string \<Rightarrow> string \<Rightarrow> string \<Rightarrow> string \<Rightarrow> builder \<Rightarrow> bool" where
  "linked from to kind label b \<longleftrightarrow> edge_ident from to kind label \<in> ed_id ` set (bd_edges b)"

lemma flagged_grows: "flagged i b \<Longrightarrow> grows b c \<Longrightarrow> flagged i c"
  unfolding flagged_def grows_def by metis

lemma linked_grows: "linked f t k l b \<Longrightarrow> grows b c \<Longrightarrow> linked f t k l c"
  unfolding linked_def grows_def by blast

lemma linked_edge: "sound b \<Longrightarrow> f \<noteq> [] \<Longrightarrow> t \<noteq> [] \<Longrightarrow> f \<noteq> t \<Longrightarrow> linked f t k l (add_edge f t k l st b)"
  by (auto simp: linked_def add_edge_def Let_def sound_def)

lemma flagged_edge: "flagged i (add_edge f t k l st b) = flagged i b"
  by (simp add: flagged_def)

lemma flagged_attach: "subj x \<noteq> [] \<Longrightarrow> has_node b i \<Longrightarrow> flagged i (attachFindings subj i x b)"
  by (auto simp: flagged_def attachFindings_def has_node_def Let_def)

definition listener_ident :: "listener \<Rightarrow> string" where
  "listener_ident l = ''misc:'' @ ls_protocol l @ '':'' @ socket_str (ls_address l) (ls_port l)"

definition shown :: "listener \<Rightarrow> builder \<Rightarrow> bool" where
  "shown l b \<longleftrightarrow> flagged (listener_ident l) b \<and> linked ''host'' (listener_ident l) ''listens'' [] b \<and>
     (ls_Public l \<longrightarrow> linked ''internet'' (listener_ident l) ''ingress'' (ls_protocol l) b)"

lemma undeclared_shown:
  assumes b: "sound b" "has_node b ''host''" "has_node b ''internet''"
    and f: "subj (socket_str (ls_address l) (ls_port l)) \<noteq> []"
  shows "shown l (build_undeclared T subj l b)"
proof -
  let ?i = "listener_ident l" and ?sock = "socket_str (ls_address l) (ls_port l)"
  have i: "?i \<noteq> []" "''host'' \<noteq> ?i" "''internet'' \<noteq> ?i"
    by (simp_all add: listener_ident_def)
  obtain n where n: "nd_id n = ?i" "good_node n"
    "build_undeclared T subj l b =
      (let c = add_edge ''host'' ?i ''listens'' [] ''ok'' (attachFindings subj ?i ?sock (add_node n b))
       in if ls_Public l then add_edge ''internet'' ?i ''ingress'' (ls_protocol l) (statusOfNode ''warn'') c else c)"
  proof (rule that)
    let ?n = "(mk_node ?i ''undeclared'' (if ls_process l = [] then te_t T ''topology.unknown'' [] else ls_process l)
        (ls_protocol l @ '' '' @ ?sock) ''misc'' (if ls_Public l then ''warn'' else ''unknown'')
        (Some (listener_meta T l)))\<lparr>nd_port := ls_port l, nd_public := ls_Public l\<rparr>"
    show "nd_id ?n = ?i" by simp
    show "good_node ?n" by (simp add: good_node_def)
    show "build_undeclared T subj l b =
      (let c = add_edge ''host'' ?i ''listens'' [] ''ok'' (attachFindings subj ?i ?sock (add_node ?n b))
       in if ls_Public l then add_edge ''internet'' ?i ''ingress'' (ls_protocol l) (statusOfNode ''warn'') c else c)"
      by (simp add: build_undeclared_def Let_def listener_ident_def)
  qed
  let ?a = "attachFindings subj ?i ?sock (add_node n b)"
  let ?c = "add_edge ''host'' ?i ''listens'' [] ''ok'' ?a"
  have a: "sound ?a" "flagged ?i ?a" "has_node ?a ''host''" "has_node ?a ''internet''" "has_node ?a ?i"
    using leads_sound [OF leads_attach [OF leads_sound [OF leads_add_node [OF b(1) n(2)]]]] b n(1) f
    by (auto intro: flagged_attach)
  then have c: "leads ?a ?c" "linked ''host'' ?i ''listens'' [] ?c"
    using i by (auto intro: leads_add_edge linked_edge)
  let ?d = "add_edge ''internet'' ?i ''ingress'' (ls_protocol l) (statusOfNode ''warn'') ?c"
  have d: "leads ?c ?d" "linked ''internet'' ?i ''ingress'' (ls_protocol l) ?d"
    using c(1) a i by (auto intro!: leads_add_edge linked_edge intro: leads_sound)
  show ?thesis
  proof (cases "ls_Public l")
    case True
    then have "build_undeclared T subj l b = ?d" by (simp add: n(3) Let_def)
    then show ?thesis
      using a(2) c(2) d linked_grows [OF c(2)] by (auto simp: shown_def flagged_edge leads_def)
  next
    case False
    then have "build_undeclared T subj l b = ?c" by (simp add: n(3) Let_def)
    then show ?thesis using a(2) c(2) False by (simp add: shown_def flagged_edge)
  qed
qed

lemma shown_grows: "shown l b \<Longrightarrow> grows b c \<Longrightarrow> shown l c"
  unfolding shown_def by (blast intro: flagged_grows linked_grows)

lemma UndeclaredListeners_findings [simp]: "UndeclaredListeners E (s\<lparr>sn_findings := fs\<rparr>) = UndeclaredListeners E s"
  by (simp add: UndeclaredListeners_def undeclaredListeners_def buildIndex_def listenersAreComparable_def)

text \<open>C31. When the map of a host is built with the findings of the analyzer, every listener that no configuration declares is a node of it carrying at least one finding, linked to the host, and linked to the internet when it is public.\<close>

theorem undeclared_listener_on_map:
  assumes "l \<in> set (UndeclaredListeners (te_run T) s)"
  shows "\<exists>n\<in>set (gr_nodes (Build T (s\<lparr>sn_findings := Run (te_run T) s\<rparr>))).
    nd_id n = listener_ident l \<and> nd_findings n \<noteq> 0 \<and>
    edge_ident ''host'' (nd_id n) ''listens'' [] \<in> ed_id ` set (gr_edges (Build T (s\<lparr>sn_findings := Run (te_run T) s\<rparr>))) \<and>
    (ls_Public l \<longrightarrow> edge_ident ''internet'' (nd_id n) ''ingress'' (ls_protocol l)
       \<in> ed_id ` set (gr_edges (Build T (s\<lparr>sn_findings := Run (te_run T) s\<rparr>))))"
proof -
  let ?s = "s\<lparr>sn_findings := Run (te_run T) s\<rparr>"
  let ?b = "build_steps T ?s"
  have sub: "by_subject ?s (socket_str (ls_address l) (ls_port l)) \<noteq> []"
    using undeclared_has_finding [OF assms] by (auto simp: by_subject_filter filter_empty_conv)
  have "shown l (fold (build_undeclared T (by_subject ?s)) (UndeclaredListeners (te_run T) s) (before_undeclared T ?s))"
  proof (rule leads_fold_last [where ?b0.0 = "before_undeclared T ?s", OF leads_refl [OF before_adds(1)] assms])
    show "leads b' (build_undeclared T (by_subject ?s) x b')" if "leads (before_undeclared T ?s) b'" for x b'
      using adds_leads [OF adds_undeclared, of roots b' T "by_subject ?s" x] that before_adds [of T ?s]
      by (auto intro: leads_node leads_sound)
    show "shown l (build_undeclared T (by_subject ?s) l b')" if "leads (before_undeclared T ?s) b'" for b'
      using undeclared_shown [where subj = "by_subject ?s" and l = l and T = T, OF leads_sound [OF that]
          leads_node [OF that before_adds(2)] leads_node [OF that before_adds(3)] sub] .
  qed (rule shown_grows)
  then have "shown l ?b" by (simp add: build_steps_split)
  then obtain n where n: "bd_nodes ?b (listener_ident l) = Some n" "nd_findings n \<noteq> 0"
    "linked ''host'' (listener_ident l) ''listens'' [] ?b"
    "ls_Public l \<Longrightarrow> linked ''internet'' (listener_ident l) ''ingress'' (ls_protocol l) ?b"
    by (auto simp: shown_def flagged_def)
  have "nd_id n = listener_ident l" using build_sound [of T ?s] n(1) by (simp add: sound_def)
  moreover have "n \<in> set (gr_nodes (Build T ?s))"
    unfolding Build_node_set using nodes_in_order_set [OF build_sound n(1)] .
  ultimately show ?thesis
    using n(2-4) unfolding Build_edges linked_def by metis
qed

end
