(* ===== verification/TopoExamples.thy ===== *)
theory TopoExamples
  imports TopoTheorems
begin

text \<open>
  A small host: nginx and haproxy declare the same two ports, a database listens in public
  without being declared, ufw opens a port nothing listens on. The theorems on the analyzer and
  the map are applied to it, and the places where the code does not do what its comments say
  are shown on concrete inputs.
\<close>

definition ex_env :: run_env where
  "ex_env = \<lparr>en_now = 0, en_day = (\<lambda>_. []), en_day_time = (\<lambda>_. []), en_rfc3339 = (\<lambda>_. None),
     en_lower = (\<lambda>s. s), en_upper = (\<lambda>s. s), en_ports = rev, en_no_limits = rev, en_latest = rev\<rparr>"

definition ex_endpoint :: "string \<Rightarrow> string \<Rightarrow> int \<Rightarrow> endpoint" where
  "ex_endpoint ident svc port = \<lparr>ep_id = ident, ep_service = svc, ep_address = ''0.0.0.0'', ep_port = port,
     ep_protocol = ''tcp'', ep_tls = False, ep_mode = ''tcp'', ep_names = [], ep_routes = [], ep_upstream = [],
     ep_file = ''/etc/x.conf'', ep_line = 1, ep_label = ident, ep_extra = []\<rparr>"

definition ex_listener :: "string \<Rightarrow> string \<Rightarrow> int \<Rightarrow> string \<Rightarrow> listener" where
  "ex_listener proto addr port proc = \<lparr>ls_protocol = proto, ls_address = addr, ls_port = port, ls_process = proc,
     ls_command = [], ls_user = [], ls_uptime = 0, ls_unit = [], ls_container_id = [], ls_origin = []\<rparr>"

definition ex_rule :: "string \<Rightarrow> string \<Rightarrow> string \<Rightarrow> int \<Rightarrow> firewall_rule" where
  "ex_rule backend chain action port = \<lparr>fr_backend = backend, fr_chain = chain, fr_action = action, fr_protocol = [], fr_port_spec = [],
     fr_ports = [port], fr_source = [], fr_destination = [], fr_zone = [], fr_dnat_to = [], fr_packets = 0, fr_raw = []\<rparr>"

definition ex_host :: snapshot where
  "ex_host = empty_snapshot\<lparr>
     sn_endpoints := [ex_endpoint ''a'' ''nginx'' 80, ex_endpoint ''b'' ''haproxy'' 80,
                      ex_endpoint ''c'' ''nginx'' 443, ex_endpoint ''d'' ''haproxy'' 443],
     sn_listeners := [ex_listener ''tcp'' ''0.0.0.0'' 80 ''nginx'', ex_listener ''tcp'' ''0.0.0.0'' 5432 ''postgres''],
     sn_firewall := \<lparr>fs_managers = [], fs_policies = [],
       fs_rules = [ex_rule ''iptables'' ''INPUT'' ''ACCEPT'' 8443, ex_rule ''ufw'' ''ufw-user-input'' ''ALLOW'' 8443]\<rparr>\<rparr>"

lemma ex_ranges: "ranges ex_env"
  by (simp add: ranges_def ex_env_def)

lemma findings_ignore_map_order_witness:
  "Run ex_env ex_host = Run (in_order ex_env) ex_host \<and>
   rulePortConflicts ex_env ex_host \<noteq> rulePortConflicts (in_order ex_env) ex_host"
proof
  show "Run ex_env ex_host = Run (in_order ex_env) ex_host"
    by (rule findings_ignore_map_order) (rule ex_ranges)
  show "rulePortConflicts ex_env ex_host \<noteq> rulePortConflicts (in_order ex_env) ex_host"
    by (simp add: rulePortConflicts_def conflict_endpoints_def ex_host_def ex_endpoint_def empty_snapshot_def ex_env_def
        in_order_def conflicts_on_def index_endpoint_def conflicting_def addressesOverlap_def ep_Public_def
        sameSocketTwoLayers_def conflict_finding_def Let_def)
qed

definition ex_dark :: snapshot where
  "ex_dark = ex_host\<lparr>sn_listeners := [ex_listener ''tcp'' ''127.0.0.1'' 9 ''x'']\<rparr>"

lemma quiet_when_not_comparable_witness:
  "\<forall>f\<in>set (Run ex_env ex_dark). fd_rule f \<notin> {''declared-not-listening'', ''stale-firewall-rule'', ''upstream-member-down''}"
  by (rule quiet_when_not_comparable)
    (simp add: tcp_endpoints_def ex_dark_def ex_host_def ex_endpoint_def ex_listener_def empty_snapshot_def)


lemma sensitive_port_reported_witness:
  "\<exists>f\<in>set (Run ex_env ex_host). fd_id f = ''sensitive-port-public:'' @ itoa 5432 \<and> fd_severity f = ''high''"
proof -
  let ?l = "ex_listener ''tcp'' ''0.0.0.0'' 5432 ''postgres''"
  have l: "?l \<in> set (sn_listeners ex_host)" "ls_Public ?l" "lookup sensitivePorts (ls_port ?l) \<noteq> None"
    by (simp_all add: ex_host_def ex_listener_def ls_Public_def sensitivePorts_def lookup_def)
  have "\<not> let_through ex_env ex_host (ls_port ?l)"
    by (simp add: let_through_def ex_host_def ex_rule_def ex_listener_def forwards_def empty_snapshot_def)
  then show ?thesis
    using sensitive_port_reported [OF l, of ex_env] by (simp add: ex_listener_def)
qed

definition ex_topo :: topo_env where
  "ex_topo = \<lparr>te_run = ex_env, te_t = (\<lambda>k _. k), te_idna = (\<lambda>_. None)\<rparr>"

lemma undeclared_listener_on_map_witness:
  "\<exists>n\<in>set (gr_nodes (Build ex_topo (ex_host\<lparr>sn_findings := Run ex_env ex_host\<rparr>))).
     nd_id n = ''misc:tcp:0.0.0.0:'' @ itoa 5432 \<and> nd_findings n \<noteq> 0 \<and>
     ''internet->misc:tcp:0.0.0.0:'' @ itoa 5432 @ '':ingress:tcp'' \<in> ed_id ` set (gr_edges (Build ex_topo (ex_host\<lparr>sn_findings := Run ex_env ex_host\<rparr>)))"
proof -
  let ?l = "ex_listener ''tcp'' ''0.0.0.0'' 5432 ''postgres''"
  have l: "?l \<in> set (UndeclaredListeners (te_run ex_topo) ex_host)"
    by (simp add: undeclared_listeners_exact ex_host_def ex_listener_def ex_endpoint_def)
  have "te_run ex_topo = ex_env" "ls_Public ?l" "ls_protocol ?l = ''tcp''"
    by (simp_all add: ex_topo_def ex_listener_def ls_Public_def)
  moreover have "listener_ident ?l = ''misc:tcp:0.0.0.0:'' @ itoa 5432"
    by (simp add: listener_ident_def socket_str_def ex_listener_def)
  ultimately show ?thesis
    using undeclared_listener_on_map [OF l] by (auto simp: edge_ident_def)
qed

lemma map_well_formed_witness:
  "''host'' \<in> set (map nd_id (gr_nodes (Build ex_topo ex_host))) \<and> distinct (map nd_id (gr_nodes (Build ex_topo ex_host))) \<and>
   filter (\<lambda>e. ed_from e = ed_to e) (gr_edges (Build ex_topo ex_host)) = []"
proof -
  have "has_node (before_undeclared ex_topo ex_host) ''host''" by (rule before_adds)
  then have "has_node (build_steps ex_topo ex_host) ''host''" using leads_node [OF build_leads] by blast
  then obtain n where n: "bd_nodes (build_steps ex_topo ex_host) ''host'' = Some n" by (auto simp: has_node_def)
  then have "nd_id n = ''host''" using build_sound [of ex_topo ex_host] by (auto simp: sound_def)
  moreover from n have "n \<in> set (gr_nodes (Build ex_topo ex_host))"
    unfolding Build_node_set using nodes_in_order_set [OF build_sound] by blast
  ultimately have "''host'' \<in> set (map nd_id (gr_nodes (Build ex_topo ex_host)))" by force
  then show ?thesis using map_well_formed [of ex_topo ex_host] by (simp add: filter_empty_conv)
qed

lemma map_sorted_and_counted_witness:
  "gr_stats (Build ex_topo ex_host) ''undeclared'' =
     length (filter (\<lambda>n. nd_kind n = ''undeclared'') (gr_nodes (Build ex_topo ex_host))) \<and>
   sorted (map (\<lambda>n. (kindRank (nd_kind n), nd_label n)) (gr_nodes (Build ex_topo ex_host)))"
proof -
  have "''undeclared'' \<in> set node_kinds" by (simp add: node_kinds_def)
  with map_sorted_and_counted [of ex_topo ex_host] show ?thesis by blast
qed

section \<open>Where the code differs from its comments\<close>

text \<open>
  \<open>isInputChain\<close> is said to report whether a rule governs incoming traffic. The chain of ufw for
  outgoing traffic passes it, so a database made reachable to this host is taken for one that
  the host opens to anyone.
\<close>

lemma outgoing_rule_counts_as_incoming:
  "isInputChain ex_env (ex_rule ''iptables'' ''ufw-user-output'' ''ACCEPT'' 5432) \<and>
   let_through ex_env
     (ex_host\<lparr>sn_firewall := \<lparr>fs_managers = [], fs_policies = [], fs_rules = [ex_rule ''iptables'' ''ufw-user-output'' ''ACCEPT'' 5432]\<rparr>\<rparr>) 5432"
proof -
  have "isInputChain ex_env (ex_rule ''iptables'' ''ufw-user-output'' ''ACCEPT'' 5432)"
    by (simp add: isInputChain_def ex_rule_def to_lower_def is_ascii_def lower_char_def contains_def has_prefix_def Let_def)
  moreover have "isAcceptAction ex_env ''ACCEPT''"
    by (simp add: isAcceptAction_def to_upper_def is_ascii_def upper_char_def)
  ultimately show ?thesis
    by (simp add: let_through_def opens_def ex_rule_def rule_source_def any_source_def)
qed

text \<open>The identifier of an undeclared listener lacks its protocol: of a TCP and a UDP socket on one address and port only one is reported.\<close>

lemma udp_listener_lost:
  assumes "l = ex_listener ''tcp'' ''0.0.0.0'' 5353 ''a''" "m = ex_listener ''udp'' ''0.0.0.0'' 5353 ''b''"
  shows "l \<noteq> m \<and> fresh {} [undeclared_finding l, undeclared_finding m] = [undeclared_finding l]"
  using assms by (simp add: undeclared_finding_def ex_listener_def)

text \<open>A name that begins with a dot counts as one level under the wildcard, although its label is empty.\<close>

lemma wildcard_covers_empty_label: "covers_one ''.example.org'' ''*.example.org''"
  by (simp add: covers_one_def has_prefix_def has_suffix_def trim_suffix_def contains_def)

text \<open>What a wildcard covers: exactly the names with one dot-free label before its domain.\<close>

lemma covers_one_wildcard:
  "covers_one name (''*.'' @ domain) \<longleftrightarrow>
     name = ''*.'' @ domain \<or> (\<exists>label. CHR ''.'' \<notin> set label \<and> name = label @ ''.'' @ domain)"
proof -
  have dot: "contains label ''.'' \<longleftrightarrow> CHR ''.'' \<in> set label" for label
    by (induction label) (auto simp: contains_def)
  have suf: "has_suffix name (CHR ''.'' # domain) \<and> CHR ''.'' \<notin> set (trim_suffix name (CHR ''.'' # domain)) \<longleftrightarrow>
      (\<exists>label. CHR ''.'' \<notin> set label \<and> name = label @ CHR ''.'' # domain)"
    by (auto simp: has_suffix_iff trim_suffix_def)
  show ?thesis
    using suf by (auto simp: covers_one_def dot)
qed

end
