(* ===== verification/AuthLimit.thy ===== *)
theory AuthLimit
  imports GoNet
begin

text \<open>
  Guessing secrets: the limiter of failed attempts (internal/auth/attempts.go), the logins that
  ask it (internal/auth/service.go and systemlogin.go) and the token line of the reverse tunnel
  (internal/tunnel). Time is counted in nanoseconds; every call that reads the clock takes its
  reading as an argument. A method of the limiter holds its mutex from beginning to end and is
  one step.
\<close>

definition nano_second :: int where "nano_second = 1000000000"
definition nano_minute :: int where "nano_minute = 60 * nano_second"

section \<open>The limiter\<close>

text \<open>\<open>blocked = None\<close> is the zero time, which every reading of the clock is after.\<close>

record attempt_state =
  at_count :: int
  at_blocked :: "int option"

type_synonym limiter = "string \<Rightarrow> attempt_state option"

definition NewAttemptLimiter :: limiter where
  "NewAttemptLimiter = (\<lambda>_. None)"

definition Allow :: "limiter \<Rightarrow> string \<Rightarrow> int \<Rightarrow> bool" where
  "Allow l key now =
     (case l key of None \<Rightarrow> True
      | Some st \<Rightarrow> (case at_blocked st of None \<Rightarrow> True | Some b \<Rightarrow> b < now))"

definition fail_delay :: "int \<Rightarrow> int" where
  "fail_delay n =
     (let delay = 2 ^ nat (min (n - 5) 5) * 2 * nano_second in
      if 5 * nano_minute < delay then 5 * nano_minute else delay)"

definition Fail :: "limiter \<Rightarrow> string \<Rightarrow> int \<Rightarrow> limiter" where
  "Fail l key now =
     (let st = (case l key of None \<Rightarrow> \<lparr>at_count = 0, at_blocked = None\<rparr> | Some st \<Rightarrow> st);
          n = at_count st + 1 in
      l(key \<mapsto> (if 5 \<le> n then \<lparr>at_count = n, at_blocked = Some (now + fail_delay n)\<rparr>
                else st\<lparr>at_count := n\<rparr>)))"

definition Clear :: "limiter \<Rightarrow> string \<Rightarrow> limiter" where
  "Clear l key = l(key := None)"

section \<open>Logins\<close>

record auth_user =
  au_id :: int
  au_name :: string
  au_hash :: string
  au_role :: string
  au_disabled :: bool

datatype user_lookup = NoUser | DbError string | Found auth_user

datatype login_error = InvalidCredentials | TooManyAttempts | OtherError string

record session_opened =
  so_token :: string
  so_expires :: int
  so_user :: auth_user

text \<open>
  What a login uses of the database, the hash and the random source. \<open>verify\<close> is None when the
  stored hash is malformed; \<open>new_token\<close> and \<open>create\<close> answer the error, if any.
\<close>

record login_env =
  le_user :: "string \<Rightarrow> user_lookup"
  le_verify :: "string \<Rightarrow> string \<Rightarrow> bool option"
  le_token :: "string + string"
  le_create :: "string option"
  le_ttl :: int

definition open_session :: "login_env \<Rightarrow> auth_user \<Rightarrow> int \<Rightarrow> login_error + session_opened" where
  "open_session E u now =
     (case le_token E of
        Inl e \<Rightarrow> Inl (OtherError e)
      | Inr tok \<Rightarrow>
          (case le_create E of
             Some e \<Rightarrow> Inl (OtherError e)
           | None \<Rightarrow> Inr \<lparr>so_token = tok, so_expires = now + le_ttl E, so_user = u\<rparr>))"

text \<open>\<open>now\<close> is read by \<open>Allow\<close>, \<open>later\<close> by what follows the check of the password.\<close>

definition Login ::
  "login_env \<Rightarrow> limiter \<Rightarrow> string \<Rightarrow> string \<Rightarrow> int \<Rightarrow> int \<Rightarrow> (login_error + session_opened) \<times> limiter" where
  "Login E l username password now later =
     (if \<not> Allow l username now then (Inl TooManyAttempts, l)
      else
        (case le_user E username of
           NoUser \<Rightarrow> (Inl InvalidCredentials, Fail l username later)
         | DbError e \<Rightarrow> (Inl (OtherError e), l)
         | Found u \<Rightarrow>
             if au_disabled u then (Inl InvalidCredentials, Fail l username later)
             else if le_verify E password (au_hash u) \<noteq> Some True
               then (Inl InvalidCredentials, Fail l username later)
             else (open_session E u later, Clear l username)))"

section \<open>Logins of the system\<close>

text \<open>The groups that may administer: members listed in the group file, or the primary group.\<close>

definition sudoGroups :: "string list" where
  "sudoGroups = [''sudo'', ''wheel'', ''admin'']"

definition colon_fields :: "string \<Rightarrow> string list" where
  "colon_fields line = split_char CHR '':'' (trim_space line)"

definition primaryGroupName :: "string \<Rightarrow> string \<Rightarrow> string \<Rightarrow> string" where
  "primaryGroupName passwd group_file username =
     (let gid = (case find (\<lambda>f. \<not> (length f < 4 \<or> f ! 0 \<noteq> username))
                   (map colon_fields (split_char CHR 0x0A passwd)) of None \<Rightarrow> [] | Some f \<Rightarrow> f ! 3) in
      if gid = [] then []
      else (case find (\<lambda>f. \<not> (length f < 3 \<or> f ! 2 \<noteq> gid))
              (map colon_fields (split_char CHR 0x0A group_file)) of None \<Rightarrow> [] | Some f \<Rightarrow> f ! 0))"

definition userIsAdmin :: "string \<Rightarrow> string \<Rightarrow> string \<Rightarrow> bool" where
  "userIsAdmin passwd group_file username =
     (if username = [] then False
      else if primaryGroupName passwd group_file username \<in> set sudoGroups then True
      else list_ex (\<lambda>f. \<not> (length f < 4 \<or> f ! 0 \<notin> set sudoGroups) \<and>
                        list_ex (\<lambda>m. trim_space m = username) (split_char CHR '','' (f ! 3)))
             (map colon_fields (split_char CHR 0x0A group_file)))"

text \<open>
  What a system login reads: the two files (no group file is an error), the answer of the
  helper that checks passwords, the creation of a missing account (the error, if any) and the
  account as it is read back afterwards.
\<close>

record system_env = login_env +
  se_enabled :: bool
  se_group :: "string option"
  se_passwd :: string
  se_check :: "string \<Rightarrow> string \<Rightarrow> bool"
  se_created :: "string option"
  se_after :: "string \<Rightarrow> user_lookup"

definition systemUserInSudoGroup :: "system_env \<Rightarrow> string \<Rightarrow> bool option" where
  "systemUserInSudoGroup E username =
     (case se_group E of None \<Rightarrow> None | Some g \<Rightarrow> Some (userIsAdmin (se_passwd E) g username))"

definition ensureSystemUser :: "system_env \<Rightarrow> string \<Rightarrow> login_error + auth_user" where
  "ensureSystemUser E username =
     (case le_user E username of
        Found u \<Rightarrow> if au_disabled u then Inl InvalidCredentials else Inr u
      | DbError e \<Rightarrow> Inl (OtherError e)
      | NoUser \<Rightarrow>
          (case se_created E of
             Some e \<Rightarrow> Inl (OtherError e)
           | None \<Rightarrow>
               (case se_after E username of
                  Found u \<Rightarrow> Inr u
                | DbError e \<Rightarrow> Inl (OtherError e)
                | NoUser \<Rightarrow> Inl (OtherError ''not found''))))"

definition LoginSystem ::
  "system_env \<Rightarrow> limiter \<Rightarrow> string \<Rightarrow> string \<Rightarrow> int \<Rightarrow> int \<Rightarrow> (login_error + session_opened) \<times> limiter" where
  "LoginSystem E l username password now later =
     (if \<not> se_enabled E then (Inl InvalidCredentials, l)
      else if \<not> Allow l username now then (Inl TooManyAttempts, l)
      else if username \<noteq> ''root'' \<and> systemUserInSudoGroup E username \<noteq> Some True
        then (Inl InvalidCredentials, Fail l username later)
      else if \<not> se_check E username password then (Inl InvalidCredentials, Fail l username later)
      else
        (case ensureSystemUser E username of
           Inl e \<Rightarrow> (Inl e, Clear l username)
         | Inr u \<Rightarrow> (open_session (login_env.truncate E) u later, Clear l username)))"

section \<open>The token line of the tunnel\<close>

text \<open>
  \<open>WriteToken\<close> writes the token and a line break; \<open>readToken\<close> reads to the first line break of
  what arrives before the deadline (\<open>None\<close> stands for no line break in it) and drops the line
  breaks at its end.
\<close>

definition WriteToken :: "string \<Rightarrow> string" where
  "WriteToken token = token @ [CHR 0x0A]"

definition readToken :: "string \<Rightarrow> string option" where
  "readToken arrived =
     (if CHR 0x0A \<in> set arrived
      then (let line = takeWhile (\<lambda>c. c \<noteq> CHR 0x0A) arrived @ [CHR 0x0A] in
            Some (rev (dropWhile (\<lambda>c. c = CHR 0x0A) (rev line))))
      else None)"

datatype tunnel_answer = Refused | NoToken | WrongToken | Served

text \<open>\<open>handleConn\<close> up to the multiplexed session. \<open>remote\<close> is the text of the remote address: host and port.\<close>

definition handleConn ::
  "string \<Rightarrow> limiter \<Rightarrow> string \<Rightarrow> string \<Rightarrow> int \<Rightarrow> int \<Rightarrow> tunnel_answer \<times> limiter" where
  "handleConn token l remote arrived now later =
     (if \<not> Allow l remote now then (Refused, l)
      else
        (case readToken arrived of
           None \<Rightarrow> (NoToken, Fail l remote later)
         | Some t \<Rightarrow> if t \<noteq> token then (WrongToken, Fail l remote later)
                    else (Served, Clear l remote)))"

end
