(* ===== verification/AuthTheorems.thy ===== *)
theory AuthTheorems
  imports AuthLimit
begin

text \<open>
  How many passwords can be tried against one account when the calls come one after another,
  the token line of the tunnel, and where the limiter does not limit: requests in flight at
  once, and the connections of the tunnel.
\<close>

section \<open>The limiter as a keyed store\<close>

interpretation limiters: keyed_store "\<lambda>l k. l k" "\<lambda>k v l. l(k := Some v)" "\<lambda>k l. l(k := None)" "\<lambda>_. True"
  by unfold_locales auto

lemma Allow_other [simp]: "k \<noteq> key \<Longrightarrow> Allow (Fail l key t) k now = Allow l k now" "k \<noteq> key \<Longrightarrow> Allow (Clear l key) k now = Allow l k now"
  by (simp_all add: Allow_def Fail_def Clear_def Let_def limiters.get_set_other limiters.get_remove_other)

lemma fail_delay_bounds: "5 \<le> n \<Longrightarrow> 2 * nano_second \<le> fail_delay n \<and> fail_delay n \<le> 64 * nano_second"
proof -
  assume n: "5 \<le> n"
  let ?k = "nat (min (n - 5) 5)"
  have "(2::int) ^ 0 \<le> 2 ^ ?k" "(2::int) ^ ?k \<le> 2 ^ 5"
    using n by (intro power_increasing; simp)+
  then show ?thesis
    by (auto simp: fail_delay_def nano_second_def nano_minute_def Let_def)
qed

lemma fail_delay_top: "10 \<le> n \<Longrightarrow> fail_delay n = 64 * nano_second"
  by (simp add: fail_delay_def nano_second_def nano_minute_def min_def)

text \<open>The counter of \<open>u\<close> stands at \<open>n\<close> at least; from ten on, each failure has pushed the lock by 64 seconds.\<close>

definition tried :: "int \<Rightarrow> string \<Rightarrow> nat \<Rightarrow> limiter \<Rightarrow> bool" where
  "tried t0 u n l \<longleftrightarrow>
     (case l u of None \<Rightarrow> n = 0
      | Some st \<Rightarrow> int n \<le> at_count st \<and>
          (10 \<le> n \<longrightarrow> (\<exists>b. at_blocked st = Some b \<and> t0 + 64 * nano_second * (int n - 9) \<le> b)))"

lemma tried_less: "tried t0 u (Suc n) l \<Longrightarrow> tried t0 u n l"
  by (auto simp: tried_def nano_second_def split: option.splits)

lemma tried_fail:
  assumes "tried t0 u n l" "Allow l u now" "t0 \<le> now" "now \<le> later"
  shows "tried t0 u (Suc n) (Fail l u later)"
proof (cases "l u")
  case None
  then have "n = 0" using assms(1) by (simp add: tried_def)
  then show ?thesis using None by (simp add: tried_def Fail_def)
next
  case (Some st)
  then have n: "int n \<le> at_count st"
    and b: "10 \<le> n \<Longrightarrow> \<exists>b. at_blocked st = Some b \<and> t0 + 64 * nano_second * (int n - 9) \<le> b \<and> b < now"
    using assms(1,2) by (auto simp: tried_def Allow_def)
  show ?thesis
  proof (cases "10 \<le> Suc n")
    case True
    then have ten: "10 \<le> at_count st + 1" using n by simp
    have "t0 + 64 * nano_second * (int (Suc n) - 9) \<le> later + 64 * nano_second"
    proof (cases "10 \<le> n")
      case True then show ?thesis using b assms(4) by (auto simp: nano_second_def)
    next
      case False
      then have "n = 9" using \<open>10 \<le> Suc n\<close> by simp
      then show ?thesis using assms(3,4) by simp
    qed
    then show ?thesis using Some n ten by (simp add: tried_def Fail_def fail_delay_top)
  next
    case False
    then show ?thesis using Some n by (simp add: tried_def Fail_def Let_def)
  qed
qed

lemma tried_other [simp]: "k \<noteq> u \<Longrightarrow> tried t0 u n (Fail l k t) = tried t0 u n l" "k \<noteq> u \<Longrightarrow> tried t0 u n (Clear l k) = tried t0 u n l"
  by (simp_all add: tried_def Fail_def Clear_def Let_def)

section \<open>Guessing a password\<close>

text \<open>Both kinds of login share one limiter. A call carries what it finds around it and its two readings of the clock.\<close>

datatype login_call =
    ByPassword login_env string string int int
  | BySystem system_env string string int int

fun call_user :: "login_call \<Rightarrow> string" where
  "call_user (ByPassword _ u _ _ _) = u"
| "call_user (BySystem _ u _ _ _) = u"

fun call_times :: "login_call \<Rightarrow> int list" where
  "call_times (ByPassword _ _ _ now later) = [now, later]"
| "call_times (BySystem _ _ _ now later) = [now, later]"

fun call_login :: "limiter \<Rightarrow> login_call \<Rightarrow> limiter" where
  "call_login l (ByPassword E u p now later) = snd (Login E l u p now later)"
| "call_login l (BySystem E u p now later) = snd (LoginSystem E l u p now later)"

text \<open>Whether the call compares its password with the one of the account, and whether it is the right one.\<close>

fun compares :: "limiter \<Rightarrow> login_call \<Rightarrow> bool" where
  "compares l (ByPassword E u p now later) =
     (Allow l u now \<and> (\<exists>a. le_user E u = Found a \<and> \<not> au_disabled a))"
| "compares l (BySystem E u p now later) =
     (se_enabled E \<and> Allow l u now \<and> (u = ''root'' \<or> systemUserInSudoGroup E u = Some True))"

fun right_password :: "login_call \<Rightarrow> bool" where
  "right_password (ByPassword E u p _ _) = (\<exists>a. le_user E u = Found a \<and> le_verify E p (au_hash a) = Some True)"
| "right_password (BySystem E u p _ _) = se_check E u p"

fun guesses :: "string \<Rightarrow> limiter \<Rightarrow> login_call list \<Rightarrow> nat" where
  "guesses u l [] = 0"
| "guesses u l (c # cs) = (if call_user c = u \<and> compares l c then 1 else 0) + guesses u (call_login l c) cs"

lemma call_other: "call_user c \<noteq> u \<Longrightarrow> tried t0 u n (call_login l c) = tried t0 u n l"
  by (cases c) (auto simp: Login_def LoginSystem_def split: user_lookup.splits sum.splits)

lemma call_wrong:
  assumes "tried t0 u n l" "call_user c = u" "\<not> right_password c" "\<forall>t\<in>set (call_times c). t0 \<le> t" "sorted (call_times c)"
  shows "tried t0 u (n + (if compares l c then 1 else 0)) (call_login l c)"
proof -
  have failed: "tried t0 u (Suc n) (Fail l u later) \<and> tried t0 u n (Fail l u later)"
    if "Allow l u now" "t0 \<le> now" "now \<le> later" for now later
    using tried_fail [OF assms(1) that] tried_less by blast
  show ?thesis
  proof (cases c)
    case (ByPassword E v p now later)
    then have "v = u" "t0 \<le> now" "now \<le> later" using assms by simp_all
    with ByPassword show ?thesis
      using assms(1,3) failed [of now later] by (cases "le_user E u") (auto simp: Login_def)
  next
    case (BySystem E v p now later)
    then have "v = u" "t0 \<le> now" "now \<le> later" using assms by simp_all
    with BySystem show ?thesis
      using assms(1,3) failed [of now later] by (simp add: LoginSystem_def)
  qed
qed

lemma compares_window:
  assumes "tried t0 u n l" "call_user c = u" "compares l c" "\<forall>t\<in>set (call_times c). t0 \<le> t \<and> t \<le> t0 + w"
  shows "64 * nano_second * (int (Suc n) - 10) \<le> w"
proof -
  obtain now where now: "now \<in> set (call_times c)" "Allow l u now"
    using assms(2,3) by (cases c) auto
  show ?thesis
  proof (cases "10 \<le> n")
    case True
    then obtain b where "t0 + 64 * nano_second * (int n - 9) \<le> b" "b < now"
      using assms(1) now(2) by (auto simp: tried_def Allow_def split: option.splits)
    then show ?thesis using assms(4) now(1) by fastforce
  next
    case False
    have "64 * nano_second * (int (Suc n) - 10) \<le> 0"
      using False by (intro mult_nonneg_nonpos) (auto simp: nano_second_def)
    moreover have "0 \<le> w" using assms(4) now(1) by force
    ultimately show ?thesis by simp
  qed
qed

lemma guesses_window:
  assumes "tried t0 u n l" "sorted (concat (map call_times cs))"
    "\<forall>c\<in>set cs. \<forall>t\<in>set (call_times c). t0 \<le> t \<and> t \<le> t0 + w"
    "\<forall>c\<in>set cs. call_user c = u \<longrightarrow> \<not> right_password c"
  shows "guesses u l cs = 0 \<or> 64 * nano_second * (int (n + guesses u l cs) - 10) \<le> w"
  using assms
proof (induction cs arbitrary: l n)
  case (Cons c cs)
  let ?l = "call_login l c" and ?d = "if call_user c = u \<and> compares l c then 1 else 0 :: nat"
  have times: "sorted (call_times c)" "sorted (concat (map call_times cs))" "\<forall>t\<in>set (call_times c). t0 \<le> t \<and> t \<le> t0 + w"
    using Cons.prems by (auto simp: sorted_append)
  have "tried t0 u (n + ?d) ?l"
  proof (cases "call_user c = u")
    case True
    then show ?thesis using call_wrong [OF Cons.prems(1) True] Cons.prems(4) times by auto
  next
    case False
    then show ?thesis using Cons.prems(1) by (simp add: call_other)
  qed
  then have IH: "guesses u ?l cs = 0 \<or> 64 * nano_second * (int (n + ?d + guesses u ?l cs) - 10) \<le> w"
    by (rule Cons.IH) (use Cons.prems(3,4) times(2) in auto)
  show ?case
  proof (cases "guesses u ?l cs = 0 \<and> ?d = 1")
    case True
    then have "call_user c = u" "compares l c" by (simp_all split: if_splits)
    from compares_window [OF Cons.prems(1) this times(3)] True show ?thesis by simp
  next
    case False
    with IH show ?thesis by (auto simp: ac_simps)
  qed
qed simp

text \<open>C32. When the logins to an account come one after another and every password is wrong, at most ten passwords and one more for every 64 seconds are compared, in whatever order the two kinds of login are used and whatever else happens in between.\<close>

theorem login_guesses_bounded:
  assumes "\<forall>st. l u = Some st \<longrightarrow> 0 \<le> at_count st"
    and "sorted (concat (map call_times cs))"
    and "\<forall>c\<in>set cs. \<forall>t\<in>set (call_times c). t0 \<le> t \<and> t \<le> t0 + w"
    and "\<forall>c\<in>set cs. call_user c = u \<longrightarrow> \<not> right_password c"
    and "0 \<le> w"
  shows "int (guesses u l cs) \<le> 10 + w div (64 * nano_second)"
proof -
  have pos: "0 < 64 * nano_second" by (simp add: nano_second_def)
  have "tried t0 u 0 l" using assms(1) by (auto simp: tried_def split: option.splits)
  from guesses_window [OF this assms(2-4)]
  have "guesses u l cs = 0 \<or> (int (guesses u l cs) - 10) * (64 * nano_second) \<le> w" by (simp add: mult.commute)
  then have "guesses u l cs = 0 \<or> int (guesses u l cs) - 10 \<le> w div (64 * nano_second)"
    using zdiv_mono1 [OF _ pos, of _ w] pos by force
  moreover have "0 \<le> w div (64 * nano_second)"
    using assms(5) pos by (simp add: pos_imp_zdiv_nonneg_iff)
  ultimately show ?thesis by auto
qed

definition guess_env :: login_env where
  "guess_env = \<lparr>le_user = (\<lambda>_. Found \<lparr>au_id = 1, au_name = ''root'', au_hash = ''h'', au_role = ''admin'', au_disabled = False\<rparr>),
     le_verify = (\<lambda>p _. Some (p = ''secret'')), le_token = Inr ''t'', le_create = None, le_ttl = 3600\<rparr>"

definition guess_now :: "int \<Rightarrow> login_call" where
  "guess_now t = ByPassword guess_env ''root'' ''guess'' t t"

lemma login_guesses_bounded_witness:
  "int (guesses ''root'' NewAttemptLimiter (map guess_now [0, 1, 2, 3, 4, 5, 6])) \<le> 10 \<and>
   guesses ''root'' NewAttemptLimiter (map guess_now [0, 1, 2, 3, 4, 5, 6]) = 5"
proof
  have "int (guesses ''root'' NewAttemptLimiter (map guess_now [0, 1, 2, 3, 4, 5, 6])) \<le> 10 + 6 div (64 * nano_second)"
    by (rule login_guesses_bounded [where ?t0.0 = 0])
      (simp_all add: guess_now_def guess_env_def NewAttemptLimiter_def)
  then show "int (guesses ''root'' NewAttemptLimiter (map guess_now [0, 1, 2, 3, 4, 5, 6])) \<le> 10"
    by (simp add: nano_second_def)
  show "guesses ''root'' NewAttemptLimiter (map guess_now [0, 1, 2, 3, 4, 5, 6]) = 5"
    by (simp add: guess_now_def guess_env_def Login_def Allow_def Fail_def NewAttemptLimiter_def
        fail_delay_def nano_second_def nano_minute_def Let_def)
qed

text \<open>The lock never lasts the five minutes its comment names: the exponent stops at five, 64 seconds.\<close>

lemma lock_at_most_64_seconds: "fail_delay n \<le> 64 * nano_second"
proof (cases "5 \<le> n")
  case False
  then have "nat (min (n - 5) 5) = 0" by simp
  then show ?thesis by (simp add: fail_delay_def nano_second_def nano_minute_def)
qed (simp add: fail_delay_bounds)

text \<open>
  The check and the record of a login are two steps. Requests in flight at once are all let
  through: the bound above is one on calls that follow each other.
\<close>

datatype login_event = Asks string int | Records string int

fun granted :: "limiter \<Rightarrow> login_event list \<Rightarrow> nat" where
  "granted l [] = 0"
| "granted l (Asks u t # es) = (if Allow l u t then 1 else 0) + granted l es"
| "granted l (Records u t # es) = granted (Fail l u t) es"

lemma in_flight_not_limited:
  assumes "Allow l u t"
  shows "granted l (replicate n (Asks u t) @ replicate n (Records u t)) = n"
proof -
  have records: "granted m (replicate k (Records u t)) = 0" for m k
    by (induction k arbitrary: m) simp_all
  have "granted l (replicate n (Asks u t) @ replicate k (Records u t)) = n" for k
    using assms records by (induction n) simp_all
  then show ?thesis .
qed

section \<open>The tunnel\<close>

lemma token_line_roundtrip:
  "CHR 0x0A \<notin> set token \<Longrightarrow> readToken (WriteToken token @ rest) = Some token"
proof -
  assume "CHR 0x0A \<notin> set token"
  then have "takeWhile (\<lambda>c. c \<noteq> CHR 0x0A) (token @ CHR 0x0A # rest) = token"
    by (subst takeWhile_append2) auto
  moreover have "dropWhile (\<lambda>c. c = CHR 0x0A) (rev token) = rev token"
    using \<open>CHR 0x0A \<notin> set token\<close> hd_in_set [of "rev token"] by (auto simp: dropWhile_eq_self_iff)
  ultimately show ?thesis by (simp add: readToken_def WriteToken_def Let_def)
qed

text \<open>
  The tunnel counts failures by the remote address with its port. Connections come from
  different ports, so none is ever refused, and the limiter keeps an entry for each of them.
\<close>

fun tunnel_run :: "string \<Rightarrow> limiter \<Rightarrow> (string \<times> string \<times> int \<times> int) list \<Rightarrow> tunnel_answer list \<times> limiter" where
  "tunnel_run token l [] = ([], l)"
| "tunnel_run token l ((remote, arrived, now, later) # cs) =
     (let (a, l1) = handleConn token l remote arrived now later; (as, l2) = tunnel_run token l1 cs in (a # as, l2))"

lemma tunnel_never_refuses:
  "distinct (map fst cs) \<Longrightarrow> \<forall>r\<in>set (map fst cs). l r = None \<Longrightarrow> Refused \<notin> set (fst (tunnel_run token l cs))"
proof (induction cs arbitrary: l)
  case (Cons c cs)
  obtain remote arrived now later where c: "c = (remote, arrived, now, later)" by (cases c)
  let ?h = "handleConn token l remote arrived now later"
  have "\<forall>r\<in>set (map fst cs). snd ?h r = None"
    using Cons.prems by (auto simp: c handleConn_def Fail_def Clear_def Let_def split: option.splits)
  then have "Refused \<notin> set (fst (tunnel_run token (snd ?h) cs))"
    using Cons by (simp add: c)
  moreover have "fst ?h \<noteq> Refused"
    using Cons.prems by (simp add: c handleConn_def Allow_def split: option.splits)
  ultimately show ?case by (simp add: c case_prod_unfold Let_def)
qed simp

lemma tunnel_keeps_every_peer:
  "length cs = n \<Longrightarrow> distinct (map fst cs) \<Longrightarrow> \<forall>c\<in>set cs. readToken (fst (snd c)) \<noteq> Some token \<Longrightarrow>
   \<forall>r\<in>set (map fst cs). l r = None \<Longrightarrow> set (map fst cs) \<union> dom l = dom (snd (tunnel_run token l cs))"
proof (induction cs arbitrary: l n)
  case (Cons c cs)
  obtain remote arrived now later where c: "c = (remote, arrived, now, later)" by (cases c)
  let ?h = "handleConn token l remote arrived now later"
  have h: "snd ?h = Fail l remote later"
    using Cons.prems by (auto simp: c handleConn_def Allow_def split: option.splits)
  have "set (map fst cs) \<union> dom (snd ?h) = dom (snd (tunnel_run token (snd ?h) cs))"
  proof (rule Cons.IH [OF refl])
    show "\<forall>r\<in>set (map fst cs). snd ?h r = None"
      using Cons.prems by (auto simp: c h Fail_def Let_def)
  qed (use Cons.prems in simp_all)
  moreover have "dom (Fail l remote later) = insert remote (dom l)"
    by (auto simp: Fail_def Let_def)
  ultimately show ?case by (auto simp: c h case_prod_unfold Let_def)
qed simp

end
