(* ===== verification/OneTime.thy ===== *)
theory OneTime
  imports GoNet
begin

text \<open>
  Secrets kept for a while in the memory of the hub (internal/hub/onetime.go): a password travels
  as a token, is taken once and forgotten. The byte slices live in an explicit heap, because the
  code wipes them in place: an address is a slice the store has allocated. \<open>os_given\<close> is a record
  of the model only, the slices that were handed to a caller.
\<close>

section \<open>The store\<close>

record secret_item =
  it_val :: nat
  it_exp :: int

record secrets =
  os_heap :: "nat \<Rightarrow> string"
  os_next :: nat
  os_m :: "(string \<times> secret_item) list"
  os_given :: "nat list"

definition no_secrets :: secrets where
  "no_secrets = \<lparr>os_heap = (\<lambda>_. []), os_next = 0, os_m = [], os_given = []\<rparr>"

definition oneTimeTTL :: int where "oneTimeTTL = 900000000000"
definition hostSecretTTL :: int where "hostSecretTTL = 3600000000000"

definition wipe :: "nat \<Rightarrow> secrets \<Rightarrow> secrets" where
  "wipe a s = s\<lparr>os_heap := (os_heap s)(a := map (\<lambda>_. CHR 0x00) (os_heap s a))\<rparr>"

text \<open>\<open>append([]byte(nil), val...)\<close>: a fresh slice with the bytes of another.\<close>

definition copy_bytes :: "string \<Rightarrow> secrets \<Rightarrow> secrets" where
  "copy_bytes val s = s\<lparr>os_heap := (os_heap s)(os_next s := val), os_next := os_next s + 1\<rparr>"

definition sweep_entry :: "int \<Rightarrow> string \<times> secret_item \<Rightarrow> secrets \<Rightarrow> secrets" where
  "sweep_entry now e s =
     (if it_exp (snd e) < now then (wipe (it_val (snd e)) s)\<lparr>os_m := del (fst e) (os_m s)\<rparr> else s)"

definition sweep :: "int \<Rightarrow> secrets \<Rightarrow> secrets" where
  "sweep now s = fold (sweep_entry now) (os_m s) s"

definition store_secret :: "string \<Rightarrow> string \<Rightarrow> int \<Rightarrow> secrets \<Rightarrow> secrets" where
  "store_secret key val expires s =
     (copy_bytes val s)\<lparr>os_m := put key \<lparr>it_val = os_next s, it_exp = expires\<rparr> (os_m s)\<rparr>"

text \<open>The token of \<open>Put\<close>: two hexadecimal digits for each of sixteen random bytes.\<close>

definition hex_token :: "nat list \<Rightarrow> string" where
  "hex_token bs = concat (map (\<lambda>b. [hex_digit (b div 16), hex_digit (b mod 16)]) bs)"

definition Put :: "nat list \<Rightarrow> string \<Rightarrow> int \<Rightarrow> int \<Rightarrow> secrets \<Rightarrow> string \<times> secrets" where
  "Put random val now later s =
     (hex_token random, store_secret (hex_token random) val (later + oneTimeTTL) (sweep now s))"

definition hand_out :: "nat \<Rightarrow> secrets \<Rightarrow> secrets" where
  "hand_out a s = s\<lparr>os_given := a # os_given s\<rparr>"

definition Take :: "string \<Rightarrow> int \<Rightarrow> secrets \<Rightarrow> nat option \<times> secrets" where
  "Take tok now s =
     (let s1 = sweep now s in
      case lookup (os_m s1) tok of
        None \<Rightarrow> (None, s1)
      | Some it \<Rightarrow> (Some (it_val it), hand_out (it_val it) (s1\<lparr>os_m := del tok (os_m s1)\<rparr>)))"

definition SetSecret :: "string \<Rightarrow> string \<Rightarrow> int \<Rightarrow> int \<Rightarrow> int \<Rightarrow> secrets \<Rightarrow> secrets" where
  "SetSecret key val ttl now later s =
     (let s1 = sweep now s;
          s2 = (case lookup (os_m s1) key of None \<Rightarrow> s1 | Some old \<Rightarrow> wipe (it_val old) s1) in
      store_secret key val (later + ttl) s2)"

definition GetSecret :: "string \<Rightarrow> int \<Rightarrow> secrets \<Rightarrow> nat option \<times> secrets" where
  "GetSecret key now s =
     (let s1 = sweep now s in
      case lookup (os_m s1) key of
        None \<Rightarrow> (None, s1)
      | Some it \<Rightarrow> (Some (os_next s1), hand_out (os_next s1) (copy_bytes (os_heap s1 (it_val it)) s1)))"

definition DeleteSecret :: "string \<Rightarrow> secrets \<Rightarrow> secrets" where
  "DeleteSecret key s =
     (case lookup (os_m s) key of
        None \<Rightarrow> s
      | Some it \<Rightarrow> (wipe (it_val it) s)\<lparr>os_m := del key (os_m s)\<rparr>)"

definition sshPasswordKey :: "int \<Rightarrow> string" where "sshPasswordKey h = ''ssh:'' @ itoa h"
definition sudoPasswordKey :: "int \<Rightarrow> string" where "sudoPasswordKey h = ''sudo:'' @ itoa h"
definition userPasswordKey :: "int \<Rightarrow> string" where "userPasswordKey h = ''userpw:'' @ itoa h"

section \<open>Runs\<close>

text \<open>An operation with its readings of the clock; it answers the bytes it hands out.\<close>

datatype secret_op =
    OpPut "nat list" string int int
  | OpTake string int
  | OpSet string string int int int
  | OpGet string int
  | OpDelete string

definition bytes_at :: "nat option \<times> secrets \<Rightarrow> string option \<times> secrets" where
  "bytes_at r = (map_option (os_heap (snd r)) (fst r), snd r)"

fun secret_step :: "secret_op \<Rightarrow> secrets \<Rightarrow> string option \<times> secrets" where
  "secret_step (OpPut random val now later) s = (None, snd (Put random val now later s))"
| "secret_step (OpTake tok now) s = bytes_at (Take tok now s)"
| "secret_step (OpSet key val ttl now later) s = (None, SetSecret key val ttl now later s)"
| "secret_step (OpGet key now) s = bytes_at (GetSecret key now s)"
| "secret_step (OpDelete key) s = (None, DeleteSecret key s)"

fun secret_run :: "secret_op list \<Rightarrow> secrets \<Rightarrow> string option list \<times> secrets" where
  "secret_run [] s = ([], s)"
| "secret_run (q # qs) s = (let (a, t) = secret_step q s; (as, u) = secret_run qs t in (a # as, u))"

section \<open>What callers may rely on\<close>

text \<open>
  The slices of the store are distinct and not those of the callers; a slice that is in neither
  hand holds zeros only.
\<close>

abbreviation kept :: "secrets \<Rightarrow> nat list" where
  "kept s \<equiv> map (\<lambda>e. it_val (snd e)) (os_m s)"

abbreviation held :: "secrets \<Rightarrow> nat set" where
  "held s \<equiv> set (kept s) \<union> set (os_given s)"

definition tidy :: "secrets \<Rightarrow> bool" where
  "tidy s \<longleftrightarrow> wf_map (os_m s) \<and> distinct (kept s) \<and> set (kept s) \<inter> set (os_given s) = {} \<and>
     (\<forall>a\<in>held s. a < os_next s) \<and>
     (\<forall>a<os_next s. a \<notin> held s \<longrightarrow> set (os_heap s a) \<subseteq> {CHR 0x00})"

text \<open>The abstract store: what each key gives and until when.\<close>

type_synonym vault = "string \<Rightarrow> (string \<times> int) option"

definition vault_of :: "secrets \<Rightarrow> vault" where
  "vault_of s = (\<lambda>k. map_option (\<lambda>it. (os_heap s (it_val it), it_exp it)) (lookup (os_m s) k))"

definition live :: "int \<Rightarrow> vault \<Rightarrow> vault" where
  "live now V = (\<lambda>k. case V k of None \<Rightarrow> None | Some (v, e) \<Rightarrow> if e < now then None else Some (v, e))"

fun vault_step :: "secret_op \<Rightarrow> vault \<Rightarrow> string option \<times> vault" where
  "vault_step (OpPut random val now later) V = (None, (live now V)(hex_token random \<mapsto> (val, later + oneTimeTTL)))"
| "vault_step (OpTake tok now) V = (map_option fst (live now V tok), (live now V)(tok := None))"
| "vault_step (OpSet key val ttl now later) V = (None, (live now V)(key \<mapsto> (val, later + ttl)))"
| "vault_step (OpGet key now) V = (map_option fst (live now V key), live now V)"
| "vault_step (OpDelete key) V = (None, V(key := None))"

fun vault_run :: "secret_op list \<Rightarrow> vault \<Rightarrow> string option list" where
  "vault_run [] V = []"
| "vault_run (q # qs) V = fst (vault_step q V) # vault_run qs (snd (vault_step q V))"

text \<open>Whether an operation stores something under the key.\<close>

fun stores :: "string \<Rightarrow> secret_op \<Rightarrow> bool" where
  "stores k (OpPut random _ _ _) = (hex_token random = k)"
| "stores k (OpSet key _ _ _ _) = (key = k)"
| "stores k _ = False"

text \<open>The random source never draws a token that is in use.\<close>

fun fresh_run :: "secret_op list \<Rightarrow> secrets \<Rightarrow> bool" where
  "fresh_run [] s = True"
| "fresh_run (q # qs) s =
     ((case q of OpPut random _ now _ \<Rightarrow> lookup (os_m (sweep now s)) (hex_token random) = None | _ \<Rightarrow> True) \<and>
      fresh_run qs (snd (secret_step q s)))"

end
