(* ===== verification/OneTimeFacts.thy ===== *)
theory OneTimeFacts
  imports OneTime
begin

text \<open>
  The store of secrets keeps its slices apart from those of its callers, wipes what it forgets,
  and answers as a plain map with deadlines would.
\<close>

named_theorems vault_simps \<open>what an operation does to the abstract store\<close>

lemma del_notin: "k \<notin> fst ` set m \<Longrightarrow> del k m = m"
  by (force simp: del_def AList.delete_eq filter_id_conv)

lemma kept_del: "wf_map m \<Longrightarrow> lookup m k = Some it \<Longrightarrow> distinct (map (\<lambda>e. it_val (snd e)) m) \<Longrightarrow>
    set (map (\<lambda>e. it_val (snd e)) (del k m)) = set (map (\<lambda>e. it_val (snd e)) m) - {it_val it}"
proof (induction m)
  case (Cons e m)
  have dm: "del k (e # m) = (if fst e = k then del k m else e # del k m)"
    by (cases e) (simp add: del_def)
  show ?case
  proof (cases "fst e = k")
    case True
    then have "it = snd e" using Cons.prems(2) by (cases e) (simp add: lookup_def)
    moreover have "k \<notin> fst ` set m" using Cons.prems(1) True by (auto simp: wf_map_def)
    ultimately show ?thesis using True dm Cons.prems(3) by (auto simp: del_notin)
  next
    case False
    then have "lookup m k = Some it" using Cons.prems(2) by (cases e) (simp add: lookup_def)
    moreover from this have "(k, it) \<in> set m" by (rule lookup_in_set)
    ultimately show ?thesis
      using Cons False dm by (auto simp: wf_map_def image_iff)
  qed
qed simp

lemma kept_del_sub: "set (map (\<lambda>e. it_val (snd e)) (del k m)) \<subseteq> set (map (\<lambda>e. it_val (snd e)) m)"
  by (auto simp: del_def AList.delete_eq)

lemma kept_del_distinct: "distinct (map (\<lambda>e. it_val (snd e)) m) \<Longrightarrow> distinct (map (\<lambda>e. it_val (snd e)) (del k m))"
  by (simp add: del_def AList.delete_eq distinct_map_filter)

lemma kept_lookup: "lookup m k = Some it \<Longrightarrow> it_val it \<in> set (map (\<lambda>e. it_val (snd e)) m)"
  by (auto dest!: lookup_in_set intro!: image_eqI)

text \<open>Two keys never share a slice.\<close>

lemma kept_inj:
  assumes "distinct (map (\<lambda>e. it_val (snd e)) m)" "lookup m k = Some it" "lookup m j = Some jt" "it_val it = it_val jt"
  shows "k = j"
proof -
  have "(k, it) \<in> set m" "(j, jt) \<in> set m" using assms(2,3) by (simp_all add: lookup_in_set)
  moreover have "inj_on (\<lambda>e. it_val (snd e)) (set m)" using assms(1) by (simp add: distinct_map)
  ultimately have "(k, it) = (j, jt)" using assms(4) by (metis (no_types, lifting) inj_onD snd_conv)
  then show ?thesis by simp
qed

section \<open>Forgetting one entry\<close>

definition forget :: "string \<Rightarrow> secret_item \<Rightarrow> secrets \<Rightarrow> secrets" where
  "forget k it s = (wipe (it_val it) s)\<lparr>os_m := del k (os_m s)\<rparr>"

lemma forget_fields [simp]:
  "os_m (forget k it s) = del k (os_m s)" "os_given (forget k it s) = os_given s" "os_next (forget k it s) = os_next s"
  "a \<noteq> it_val it \<Longrightarrow> os_heap (forget k it s) a = os_heap s a"
  by (simp_all add: forget_def wipe_def)

lemma tidyI:
  assumes "wf_map (os_m s)" "distinct (kept s)" "set (kept s) \<inter> set (os_given s) = {}" "\<And>a. a \<in> held s \<Longrightarrow> a < os_next s"
    "\<And>a. a < os_next s \<Longrightarrow> a \<notin> held s \<Longrightarrow> set (os_heap s a) \<subseteq> {CHR 0x00}"
  shows "tidy s"
  unfolding tidy_def using assms by blast

lemma tidyD:
  assumes "tidy s"
  shows "wf_map (os_m s)" "distinct (kept s)" "set (kept s) \<inter> set (os_given s) = {}" "a \<in> held s \<Longrightarrow> a < os_next s"
    "a < os_next s \<Longrightarrow> a \<notin> held s \<Longrightarrow> set (os_heap s a) \<subseteq> {CHR 0x00}"
  using assms unfolding tidy_def by blast+

lemma forget_tidy:
  assumes s: "tidy s" and it: "lookup (os_m s) k = Some it"
  shows "tidy (forget k it s)"
proof (rule tidyI)
  have d: "set (kept (forget k it s)) = set (kept s) - {it_val it}"
    using kept_del [OF tidyD(1) [OF s] it tidyD(2) [OF s]] by simp
  show "wf_map (os_m (forget k it s))" using tidyD(1) [OF s] by simp
  show "distinct (kept (forget k it s))" using kept_del_distinct [OF tidyD(2) [OF s]] by simp
  show "set (kept (forget k it s)) \<inter> set (os_given (forget k it s)) = {}"
    using d tidyD(3) [OF s] by auto
  show "a < os_next (forget k it s)" if "a \<in> held (forget k it s)" for a
    using that d tidyD(4) [OF s, of a] by auto
  show "set (os_heap (forget k it s) a) \<subseteq> {CHR 0x00}"
    if "a < os_next (forget k it s)" "a \<notin> held (forget k it s)" for a
  proof (cases "a = it_val it")
    case True then show ?thesis by (auto simp: forget_def wipe_def)
  next
    case False
    then have "a \<notin> held s" using that(2) d by auto
    then show ?thesis using tidyD(5) [OF s, of a] that(1) False by simp
  qed
qed

lemma forget_vault [vault_simps]:
  assumes "tidy s" "lookup (os_m s) k = Some it"
  shows "vault_of (forget k it s) = (vault_of s)(k := None)"
proof
  fix j
  show "vault_of (forget k it s) j = ((vault_of s)(k := None)) j"
  proof (cases "j = k")
    case False
    have "it_val jt \<noteq> it_val it" if "lookup (os_m s) j = Some jt" for jt
      using kept_inj [OF _ assms(2) that] assms(1) False by (auto simp: tidy_def)
    then show ?thesis using False by (cases "lookup (os_m s) j") (auto simp: vault_of_def)
  qed (simp add: vault_of_def)
qed

section \<open>Slices in the hands of callers\<close>

text \<open>From \<open>s\<close> to \<open>t\<close> no slice of a caller changes.\<close>

definition spares :: "secrets \<Rightarrow> secrets \<Rightarrow> bool" where
  "spares s t \<longleftrightarrow> tidy t \<and> set (os_given s) \<subseteq> set (os_given t) \<and> (\<forall>a\<in>set (os_given s). os_heap t a = os_heap s a)"

lemma spares_refl: "tidy s \<Longrightarrow> spares s s"
  by (simp add: spares_def)

lemma spares_trans: "spares s t \<Longrightarrow> spares t u \<Longrightarrow> spares s u"
  unfolding spares_def by (metis subset_iff)

lemma spares_tidy: "spares s t \<Longrightarrow> tidy t"
  by (simp add: spares_def)

lemma given_apart: "tidy s \<Longrightarrow> lookup (os_m s) k = Some it \<Longrightarrow> it_val it \<notin> set (os_given s)"
  using kept_lookup [of "os_m s" k it] tidyD(3) [of s] by auto

lemma spares_forget: "tidy s \<Longrightarrow> lookup (os_m s) k = Some it \<Longrightarrow> spares s (forget k it s)"
  unfolding spares_def by (metis forget_fields(2,4) forget_tidy given_apart subset_refl)

lemma spares_wipe:
  assumes s: "tidy s" and it: "lookup (os_m s) k = Some it"
  shows "spares s (wipe (it_val it) s)" "os_m (wipe (it_val it) s) = os_m s"
    "os_next (wipe (it_val it) s) = os_next s"
proof -
  have "tidy (wipe (it_val it) s)"
    by (rule tidyI) (use tidyD [OF s] in \<open>auto simp: wipe_def\<close>)
  then show "spares s (wipe (it_val it) s)"
    using given_apart [OF s it] by (auto simp: spares_def wipe_def)
qed (simp_all add: wipe_def)

text \<open>A fresh slice that is stored, or handed out.\<close>

lemma kept_put: "set (map (\<lambda>e. it_val (snd e)) (put k it m)) \<subseteq> insert (it_val it) (set (map (\<lambda>e. it_val (snd e)) m))"
  by (induction m) (auto simp: put_def)

lemma kept_put_distinct:
  "distinct (map (\<lambda>e. it_val (snd e)) m) \<Longrightarrow> it_val it \<notin> set (map (\<lambda>e. it_val (snd e)) m) \<Longrightarrow>
   distinct (map (\<lambda>e. it_val (snd e)) (put k it m))"
proof (induction m)
  case (Cons e m)
  obtain j jt where e: "e = (j, jt)" by (cases e)
  have "set (map (\<lambda>e. it_val (snd e)) (put k it m)) \<subseteq> insert (it_val it) (set (map (\<lambda>e. it_val (snd e)) m))"
    by (rule kept_put)
  with Cons show ?case by (cases "j = k") (auto simp: e put_def)
qed (simp add: put_def)

text \<open>Storing over a key: its old slice must have been wiped, or there is none.\<close>

lemma spares_store:
  assumes s: "tidy s" and old: "\<And>it. lookup (os_m s) k = Some it \<Longrightarrow> set (os_heap s (it_val it)) \<subseteq> {CHR 0x00}"
  shows "spares s (store_secret k v e s)"
proof -
  let ?t = "store_secret k v e s" and ?it = "\<lparr>it_val = os_next s, it_exp = e\<rparr>"
  have fields: "os_m ?t = put k ?it (os_m s)" "os_given ?t = os_given s" "os_next ?t = os_next s + 1"
    "os_heap ?t = (os_heap s)(os_next s := v)"
    by (simp_all add: store_secret_def copy_bytes_def)
  have fresh: "os_next s \<notin> held s" using tidyD(4) [OF s, of "os_next s"] by auto
  have new: "set (kept ?t) \<subseteq> insert (os_next s) (set (kept s))"
    using kept_put [of k ?it "os_m s"] by (simp add: fields)
  have tidy: "tidy ?t"
  proof (rule tidyI)
    show "wf_map (os_m ?t)" using tidyD(1) [OF s] by (simp add: fields)
    show "distinct (kept ?t)"
      using kept_put_distinct [OF tidyD(2) [OF s], of ?it k] fresh by (simp add: fields)
    show "set (kept ?t) \<inter> set (os_given ?t) = {}"
      using new fresh tidyD(3) [OF s] unfolding fields by blast
    show "a < os_next ?t" if "a \<in> held ?t" for a
      using that new tidyD(4) [OF s, of a] by (force simp: fields)
    show "set (os_heap ?t a) \<subseteq> {CHR 0x00}" if a: "a < os_next ?t" "a \<notin> held ?t" for a
    proof -
      have in_t: "os_next s \<in> set (kept ?t)"
        using kept_lookup [of "os_m ?t" k ?it] by (simp add: fields)
      then have "a \<noteq> os_next s" using a(2) by blast
      with a(1) have lt: "a \<noteq> os_next s" "a < os_next s" by (simp_all add: fields)
      have "set (os_heap s a) \<subseteq> {CHR 0x00}"
      proof (cases "a \<in> set (kept s)")
        case True
        then obtain j jt where j: "(j, jt) \<in> set (os_m s)" "it_val jt = a" by auto
        then have "lookup (os_m s) j = Some jt" using in_set_lookup tidyD(1) [OF s] by metis
        moreover have "j = k"
        proof (rule ccontr)
          assume "j \<noteq> k"
          with calculation have "lookup (os_m ?t) j = Some jt" by (simp add: fields)
          from kept_lookup [OF this] j(2) a(2) show False by simp
        qed
        ultimately show ?thesis using old j(2) by auto
      next
        case False
        then show ?thesis using tidyD(5) [OF s lt(2)] a(2) by (simp add: fields)
      qed
      then show ?thesis using lt by (simp add: fields)
    qed
  qed
  then show ?thesis using fresh by (auto simp: spares_def fields)
qed

lemma spares_copy_out:
  assumes s: "tidy s"
  shows "spares s (hand_out (os_next s) (copy_bytes v s))"
proof -
  have fresh: "os_next s \<notin> held s" using tidyD(4) [OF s, of "os_next s"] by auto
  have "tidy (hand_out (os_next s) (copy_bytes v s))"
    by (rule tidyI) (use fresh tidyD [OF s] in \<open>auto simp: hand_out_def copy_bytes_def less_Suc_eq\<close>)
  then show ?thesis using fresh by (auto simp: spares_def hand_out_def copy_bytes_def)
qed

lemma spares_take:
  assumes s: "tidy s" and it: "lookup (os_m s) k = Some it"
  shows "spares s (hand_out (it_val it) (s\<lparr>os_m := del k (os_m s)\<rparr>))"
proof -
  let ?t = "hand_out (it_val it) (s\<lparr>os_m := del k (os_m s)\<rparr>)"
  have d: "set (kept ?t) = set (kept s) - {it_val it}"
    using kept_del [OF tidyD(1) [OF s] it tidyD(2) [OF s]] by (simp add: hand_out_def)
  have v: "it_val it \<in> set (kept s)" using it by (rule kept_lookup)
  have "tidy ?t"
  proof (rule tidyI)
    show "wf_map (os_m ?t)" using tidyD(1) [OF s] by (simp add: hand_out_def)
    show "distinct (kept ?t)" using kept_del_distinct [OF tidyD(2) [OF s]] by (simp add: hand_out_def)
    show "set (kept ?t) \<inter> set (os_given ?t) = {}" unfolding d using tidyD(3) [OF s] by (auto simp: hand_out_def)
    show "a < os_next ?t" if "a \<in> held ?t" for a
      using that v tidyD(4) [OF s, of a] unfolding d by (auto simp: hand_out_def)
    show "set (os_heap ?t a) \<subseteq> {CHR 0x00}" if "a < os_next ?t" "a \<notin> held ?t" for a
      using that tidyD(5) [OF s, of a] unfolding d by (auto simp: hand_out_def)
  qed
  then show ?thesis by (auto simp: spares_def hand_out_def)
qed

section \<open>The sweep\<close>

lemma sweep_entry_forget: "sweep_entry now e s = (if it_exp (snd e) < now then forget (fst e) (snd e) s else s)"
  by (simp add: sweep_entry_def forget_def)

lemma sweep_entries:
  assumes "tidy s" "\<forall>e\<in>set es. lookup (os_m s) (fst e) = Some (snd e)" "distinct (map fst es)"
  shows "spares s (fold (sweep_entry now) es s) \<and>
    vault_of (fold (sweep_entry now) es s) = (\<lambda>k. if \<exists>e\<in>set es. fst e = k \<and> it_exp (snd e) < now then None else vault_of s k)"
  using assms
proof (induction es arbitrary: s)
  case Nil then show ?case by (simp add: spares_refl)
next
  case (Cons e es)
  let ?s = "sweep_entry now e s"
  have e: "lookup (os_m s) (fst e) = Some (snd e)" using Cons.prems(2) by simp
  have sp: "spares s ?s"
    using spares_forget [OF Cons.prems(1) e] spares_refl [OF Cons.prems(1)] by (simp add: sweep_entry_forget)
  have "\<forall>x\<in>set es. lookup (os_m ?s) (fst x) = Some (snd x)"
    using Cons.prems(2,3) by (force simp: sweep_entry_forget)
  with Cons.IH [OF spares_tidy [OF sp]] Cons.prems(3)
  have IH: "spares ?s (fold (sweep_entry now) es ?s)"
    "vault_of (fold (sweep_entry now) es ?s) = (\<lambda>k. if \<exists>e\<in>set es. fst e = k \<and> it_exp (snd e) < now then None else vault_of ?s k)"
    by simp_all
  have v: "vault_of ?s k = (if fst e = k \<and> it_exp (snd e) < now then None else vault_of s k)" for k
    using forget_vault [OF Cons.prems(1) e] by (auto simp: sweep_entry_forget)
  have "vault_of (fold (sweep_entry now) (e # es) s) =
      (\<lambda>k. if \<exists>x\<in>set (e # es). fst x = k \<and> it_exp (snd x) < now then None else vault_of s k)"
    by (rule ext) (auto simp: IH(2) v)
  with spares_trans [OF sp IH(1)] show ?case by simp
qed

lemma sweep_good:
  assumes "tidy s"
  shows "spares s (sweep now s)" "vault_of (sweep now s) = live now (vault_of s)"
proof -
  have wf: "wf_map (os_m s)" using assms by (rule tidyD)
  then have es: "\<forall>e\<in>set (os_m s). lookup (os_m s) (fst e) = Some (snd e)" "distinct (map fst (os_m s))"
    by (auto simp: wf_map_def lookup_def)
  note all = sweep_entries [OF assms es, of now]
  show "spares s (sweep now s)" unfolding sweep_def using all by blast
  have "vault_of (sweep now s) k = live now (vault_of s) k" for k
  proof (cases "lookup (os_m s) k")
    case None
    then have "\<forall>e\<in>set (os_m s). fst e \<noteq> k" by (auto simp: lookup_def map_of_eq_None_iff)
    then show ?thesis using all None by (auto simp: sweep_def live_def vault_of_def)
  next
    case (Some it)
    then have "(\<exists>e\<in>set (os_m s). fst e = k \<and> it_exp (snd e) < now) \<longleftrightarrow> it_exp it < now"
      using es(1) lookup_in_set [OF Some] by (metis fst_conv option.inject snd_conv)
    then show ?thesis using all Some by (auto simp: sweep_def live_def vault_of_def)
  qed
  then show "vault_of (sweep now s) = live now (vault_of s)" by blast
qed

end
