(* ===== verification/OneTimeTheorems.thy ===== *)
theory OneTimeTheorems
  imports OneTimeFacts
begin

text \<open>What the store of secrets promises over any run of its operations.\<close>

section \<open>One operation\<close>

lemma store_vault: "tidy s \<Longrightarrow> vault_of (store_secret k v e s) = (vault_of s)(k \<mapsto> (v, e))"
proof
  fix j assume s: "tidy s"
  have "it_val it \<noteq> os_next s" if "lookup (os_m s) j = Some it" for it
    using kept_lookup [OF that] tidyD(4) [OF s, of "it_val it"] by auto
  then show "vault_of (store_secret k v e s) j = ((vault_of s)(k \<mapsto> (v, e))) j"
    by (cases "lookup (os_m s) j") (auto simp: vault_of_def store_secret_def copy_bytes_def)
qed

lemma wipe_vault_other:
  "tidy s \<Longrightarrow> lookup (os_m s) k = Some it \<Longrightarrow> j \<noteq> k \<Longrightarrow> vault_of (wipe (it_val it) s) j = vault_of s j"
proof -
  assume s: "tidy s" "lookup (os_m s) k = Some it" "j \<noteq> k"
  have "it_val jt \<noteq> it_val it" if "lookup (os_m s) j = Some jt" for jt
    using kept_inj [OF tidyD(2) [OF s(1)] s(2) that] s(3) by auto
  then show ?thesis by (cases "lookup (os_m s) j") (auto simp: vault_of_def wipe_def)
qed

lemma copy_vault: "tidy s \<Longrightarrow> vault_of (hand_out (os_next s) (copy_bytes v s)) = vault_of s"
proof
  fix j assume s: "tidy s"
  have "it_val it \<noteq> os_next s" if "lookup (os_m s) j = Some it" for it
    using kept_lookup [OF that] tidyD(4) [OF s, of "it_val it"] by auto
  then show "vault_of (hand_out (os_next s) (copy_bytes v s)) j = vault_of s j"
    by (cases "lookup (os_m s) j") (auto simp: vault_of_def hand_out_def copy_bytes_def)
qed

lemma hand_out_heap: "os_heap (hand_out a s) = os_heap s"
  by (simp add: hand_out_def)

lemma take_vault: "vault_of (hand_out a (s\<lparr>os_m := del k (os_m s)\<rparr>)) = (vault_of s)(k := None)"
  by (auto simp: vault_of_def hand_out_def)

text \<open>\<open>agrees q s\<close>: the operation answers as the abstract store does, keeps the store in order and spares the slices of the callers.\<close>

definition agrees :: "secret_op \<Rightarrow> secrets \<Rightarrow> bool" where
  "agrees q s \<longleftrightarrow> spares s (snd (secret_step q s)) \<and> fst (secret_step q s) = fst (vault_step q (vault_of s)) \<and>
     vault_of (snd (secret_step q s)) = snd (vault_step q (vault_of s))"

lemma put_agrees:
  assumes s: "tidy s" and fresh: "lookup (os_m (sweep now s)) (hex_token r) = None"
  shows "agrees (OpPut r v now later) s"
proof -
  note sw = sweep_good [OF s, of now]
  note t = spares_tidy [OF sw(1)]
  have "spares (sweep now s) (store_secret (hex_token r) v (later + oneTimeTTL) (sweep now s))"
    by (rule spares_store [OF t]) (simp add: fresh)
  from spares_trans [OF sw(1) this] store_vault [OF t] show ?thesis
    by (simp add: agrees_def Put_def sw(2))
qed

lemma take_agrees:
  assumes s: "tidy s"
  shows "agrees (OpTake tok now) s"
proof -
  note sw = sweep_good [OF s, of now]
  show ?thesis
  proof (cases "lookup (os_m (sweep now s)) tok")
    case None
    then have "live now (vault_of s) tok = None" using sw(2) [symmetric] by (simp add: vault_of_def)
    then show ?thesis using None sw by (simp add: agrees_def Take_def Let_def bytes_at_def fun_upd_idem)
  next
    case (Some it)
    have "live now (vault_of s) tok = Some (os_heap (sweep now s) (it_val it), it_exp it)"
      using sw(2) [symmetric] Some by (simp add: vault_of_def)
    moreover have "spares s (hand_out (it_val it) ((sweep now s)\<lparr>os_m := del tok (os_m (sweep now s))\<rparr>))"
      using spares_trans [OF sw(1) spares_take [OF spares_tidy [OF sw(1)] Some]] .
    ultimately show ?thesis
      using Some sw(2) by (simp add: agrees_def Take_def Let_def bytes_at_def take_vault hand_out_heap)
  qed
qed

lemma set_agrees:
  assumes s: "tidy s"
  shows "agrees (OpSet key v ttl now later) s"
proof -
  note sw = sweep_good [OF s, of now]
  note t = spares_tidy [OF sw(1)]
  let ?t = "case lookup (os_m (sweep now s)) key of None \<Rightarrow> sweep now s | Some old \<Rightarrow> wipe (it_val old) (sweep now s)"
  have t': "spares (sweep now s) ?t \<and> (\<forall>j. j \<noteq> key \<longrightarrow> vault_of ?t j = vault_of (sweep now s) j) \<and>
      (\<forall>it. lookup (os_m ?t) key = Some it \<longrightarrow> set (os_heap ?t (it_val it)) \<subseteq> {CHR 0x00})"
  proof (cases "lookup (os_m (sweep now s)) key")
    case None then show ?thesis using spares_refl [OF t] by simp
  next
    case (Some old)
    have "set (os_heap (wipe (it_val old) (sweep now s)) (it_val old)) \<subseteq> {CHR 0x00}"
      by (auto simp: wipe_def)
    then show ?thesis
      using spares_wipe [OF t Some] wipe_vault_other [OF t Some] Some by simp
  qed
  have st: "spares ?t (store_secret key v (later + ttl) ?t)"
    by (rule spares_store [OF spares_tidy]) (use t' in blast)+
  have "vault_of (store_secret key v (later + ttl) ?t) = (live now (vault_of s))(key \<mapsto> (v, later + ttl))"
  proof
    fix j
    have "vault_of (store_secret key v (later + ttl) ?t) = (vault_of ?t)(key \<mapsto> (v, later + ttl))"
      by (rule store_vault [OF spares_tidy]) (use t' in blast)
    then show "vault_of (store_secret key v (later + ttl) ?t) j = ((live now (vault_of s))(key \<mapsto> (v, later + ttl))) j"
      using t' sw(2) by simp
  qed
  moreover have "spares s (store_secret key v (later + ttl) ?t)"
    using spares_trans [OF sw(1) spares_trans [OF conjunct1 [OF t'] st]] .
  ultimately show ?thesis by (simp add: agrees_def SetSecret_def Let_def)
qed

lemma get_agrees:
  assumes s: "tidy s"
  shows "agrees (OpGet key now) s"
proof -
  note sw = sweep_good [OF s, of now]
  note t = spares_tidy [OF sw(1)]
  show ?thesis
  proof (cases "lookup (os_m (sweep now s)) key")
    case None
    then have "live now (vault_of s) key = None" using sw(2) [symmetric] by (simp add: vault_of_def)
    then show ?thesis using None sw by (simp add: agrees_def GetSecret_def Let_def bytes_at_def)
  next
    case (Some it)
    let ?v = "os_heap (sweep now s) (it_val it)"
    have "live now (vault_of s) key = Some (?v, it_exp it)"
      using sw(2) [symmetric] Some by (simp add: vault_of_def)
    moreover have "os_heap (hand_out (os_next (sweep now s)) (copy_bytes ?v (sweep now s))) (os_next (sweep now s)) = ?v"
      by (simp add: hand_out_def copy_bytes_def)
    ultimately show ?thesis
      using Some spares_trans [OF sw(1) spares_copy_out [OF t]] copy_vault [OF t] sw(2)
      by (simp add: agrees_def GetSecret_def Let_def bytes_at_def)
  qed
qed

lemma delete_agrees:
  assumes s: "tidy s"
  shows "agrees (OpDelete key) s"
proof (cases "lookup (os_m s) key")
  case None
  then have "vault_of s key = None" by (simp add: vault_of_def)
  then show ?thesis using None spares_refl [OF s] by (simp add: agrees_def DeleteSecret_def fun_upd_idem)
next
  case (Some it)
  then have "DeleteSecret key s = forget key it s" by (simp add: DeleteSecret_def forget_def)
  then show ?thesis
    using spares_forget [OF s Some] forget_vault [OF s Some] by (simp add: agrees_def)
qed

lemma step_agrees: "tidy s \<Longrightarrow> fresh_run [q] s \<Longrightarrow> agrees q s"
  by (cases q) (simp_all add: put_agrees take_agrees set_agrees get_agrees delete_agrees)

section \<open>Runs\<close>

lemma fresh_run_Cons: "fresh_run (q # qs) s \<Longrightarrow> fresh_run [q] s \<and> fresh_run qs (snd (secret_step q s))"
  by simp

lemma run_agrees:
  "tidy s \<Longrightarrow> fresh_run qs s \<Longrightarrow>
     fst (secret_run qs s) = vault_run qs (vault_of s) \<and> spares s (snd (secret_run qs s))"
proof (induction qs arbitrary: s)
  case Nil then show ?case by (simp add: spares_refl)
next
  case (Cons q qs)
  have f: "fresh_run [q] s" "fresh_run qs (snd (secret_step q s))" using fresh_run_Cons [OF Cons.prems(2)] by blast+
  have a: "agrees q s" using Cons.prems(1) f(1) by (rule step_agrees)
  then have IH: "fst (secret_run qs (snd (secret_step q s))) = vault_run qs (snd (vault_step q (vault_of s)))"
    "spares (snd (secret_step q s)) (snd (secret_run qs (snd (secret_step q s))))"
    using Cons.IH [OF spares_tidy f(2)] by (auto simp: agrees_def)
  show ?case
    using IH a spares_trans [of s "snd (secret_step q s)"] by (simp add: agrees_def case_prod_unfold Let_def)
qed

lemma tidy_start: "tidy no_secrets" and vault_start: "vault_of no_secrets = Map.empty"
  by (simp_all add: tidy_def no_secrets_def vault_of_def)

text \<open>C33. Started empty, the store of secrets answers every run of operations as a map with deadlines does: a secret is given while its deadline has not passed, by \<open>Take\<close> once, by \<open>Get\<close> until it is deleted or replaced.\<close>

theorem store_refines_vault:
  assumes "fresh_run qs no_secrets"
  shows "fst (secret_run qs no_secrets) = vault_run qs Map.empty"
  using run_agrees [OF tidy_start assms] by (simp add: vault_start)

text \<open>C34. Whatever is done with the store, the bytes it has handed to a caller never change under the caller, and every slice it has let go of without handing it out, expired, replaced or deleted, holds zeros only.\<close>

theorem secrets_wiped_not_shared:
  assumes "fresh_run (ps @ qs) no_secrets" and "s = snd (secret_run ps no_secrets)" and "t = snd (secret_run qs s)"
  shows "(\<forall>a\<in>set (os_given s). os_heap t a = os_heap s a) \<and>
    (\<forall>a<os_next t. a \<notin> set (kept t) \<longrightarrow> a \<notin> set (os_given t) \<longrightarrow> set (os_heap t a) \<subseteq> {CHR 0x00})"
proof -
  have split: "fresh_run (ps @ qs) s0 \<longleftrightarrow> fresh_run ps s0 \<and> fresh_run qs (snd (secret_run ps s0))" for s0
    by (induction ps arbitrary: s0) (auto simp: case_prod_unfold Let_def)
  have "tidy s" using run_agrees [OF tidy_start] assms(1,2) split spares_tidy by blast
  from run_agrees [OF this, of qs] assms split have sp: "spares s t" by blast
  then have "tidy t" by (rule spares_tidy)
  then show ?thesis using sp by (auto simp: spares_def tidy_def)
qed

text \<open>Nothing is given from a key after it was taken, until something is stored under it.\<close>

lemma live_none: "V k = None \<Longrightarrow> live now V k = None"
  by (simp add: live_def)

lemma vault_stays_empty: "V k = None \<Longrightarrow> \<not> stores k q \<Longrightarrow> snd (vault_step q V) k = None"
  by (cases q) (auto simp: live_none)

lemma vault_run_append:
  "\<exists>W. vault_run (ps @ qs) V = vault_run ps V @ vault_run qs W \<and> (V k = None \<and> (\<forall>q\<in>set ps. \<not> stores k q) \<longrightarrow> W k = None)"
proof (induction ps arbitrary: V)
  case (Cons q ps)
  from Cons.IH [of "snd (vault_step q V)"] show ?case
    using vault_stays_empty [of V k q] by auto
qed auto

text \<open>A secret is taken at most once: between two calls of \<open>Take\<close> that both give a value for one token, something was stored under it.\<close>

theorem secret_taken_once:
  assumes "fresh_run (ps @ OpTake tok t1 # qs @ [OpTake tok t2]) no_secrets"
    and "\<forall>q\<in>set qs. \<not> stores tok q"
  shows "last (fst (secret_run (ps @ OpTake tok t1 # qs @ [OpTake tok t2]) no_secrets)) = None"
proof -
  have run: "fst (secret_run (ps @ OpTake tok t1 # qs @ [OpTake tok t2]) no_secrets) =
      vault_run (ps @ OpTake tok t1 # qs @ [OpTake tok t2]) Map.empty"
    using run_agrees [OF tidy_start assms(1)] by (simp add: vault_start)
  obtain V where V: "vault_run (ps @ OpTake tok t1 # qs @ [OpTake tok t2]) Map.empty =
      vault_run ps Map.empty @ vault_run (OpTake tok t1 # qs @ [OpTake tok t2]) V"
    using vault_run_append [of ps "OpTake tok t1 # qs @ [OpTake tok t2]" Map.empty] by blast
  let ?V = "snd (vault_step (OpTake tok t1) V)"
  obtain W where W: "vault_run (qs @ [OpTake tok t2]) ?V = vault_run qs ?V @ vault_run [OpTake tok t2] W" "W tok = None"
    using vault_run_append [of qs "[OpTake tok t2]" ?V tok] assms(2) by auto
  then show ?thesis
    by (simp add: run V live_none)
qed

section \<open>An example\<close>

definition ex_ops :: "secret_op list" where
  "ex_ops = [OpPut [18, 52] ''pw'' 0 0, OpSet ''ssh:7'' ''a'' hostSecretTTL 1 1, OpSet ''ssh:7'' ''b'' hostSecretTTL 2 2]"

lemma ex_fresh: "fresh_run (ex_ops @ [OpTake ''1234'' 3, OpGet ''ssh:7'' 4, OpTake ''1234'' 5]) no_secrets"
  by (simp add: ex_ops_def no_secrets_def sweep_def)

lemma store_refines_vault_witness:
  "fst (secret_run (ex_ops @ [OpTake ''1234'' 3, OpGet ''ssh:7'' 4, OpTake ''1234'' 5]) no_secrets) =
     [None, None, None, Some ''pw'', Some ''b'', None]"
  by (subst store_refines_vault [OF ex_fresh])
    (simp add: ex_ops_def live_def hex_token_def hex_digit_def char_of_def bit_Suc_0_iff oneTimeTTL_def hostSecretTTL_def)

lemma secrets_wiped_not_shared_witness:
  "let s = snd (secret_run (ex_ops @ [OpTake ''1234'' 3]) no_secrets);
       t = snd (secret_run [OpGet ''ssh:7'' 4, OpTake ''1234'' 5] s) in
   \<forall>a\<in>set (os_given s). os_heap t a = os_heap s a"
  unfolding Let_def
  by (rule conjunct1 [OF secrets_wiped_not_shared [of "ex_ops @ [OpTake ''1234'' 3]" "[OpGet ''ssh:7'' 4, OpTake ''1234'' 5]"]])
    (use ex_fresh in simp_all)

lemma secret_taken_once_witness:
  "last (fst (secret_run (ex_ops @ [OpTake ''1234'' 3, OpGet ''ssh:7'' 4, OpTake ''1234'' 5]) no_secrets)) = None"
  using secret_taken_once [of ex_ops "''1234''" 3 "[OpGet ''ssh:7'' 4]" 5] ex_fresh by simp

end
