(* ===== verification/StateDiff.thy ===== *)
theory StateDiff
  imports AnaFacts
begin

text \<open>
  What changed between two snapshots of a host (internal/statediff): the facts that are compared,
  and the sorted list of changes. The title of a finding is prose and comes in as \<open>title\<close>; the two
  loops over maps visit their entries in the orders \<open>ordn\<close> and \<open>ordw\<close>.
\<close>

record fact =
  fa_kind :: string
  fa_key :: string
  fa_value :: string

record change =
  cg_kind :: string
  cg_key :: string
  cg_action :: string
  cg_was :: string
  cg_now :: string

section \<open>The facts of a snapshot\<close>

definition add_fact :: "string \<Rightarrow> string \<Rightarrow> string \<Rightarrow> fact list" where
  "add_fact kind key val = (if key = [] then [] else [\<lparr>fa_kind = kind, fa_key = key, fa_value = val\<rparr>])"

definition firewallKey :: "firewall_rule \<Rightarrow> string" where
  "firewallKey r =
     join '' ''
       ([fr_backend r, fr_chain r] @
        (if fr_protocol r \<noteq> [] then [fr_protocol r] else []) @
        (if fr_port_spec r \<noteq> [] then [fr_port_spec r] else []) @
        (if fr_source r \<noteq> [] then [''from '' @ fr_source r] else []) @
        (if fr_destination r \<noteq> [] then [''to '' @ fr_destination r] else []) @
        (if fr_zone r \<noteq> [] then [''zone '' @ fr_zone r] else []))"

definition shortHash :: "string \<Rightarrow> string" where
  "shortHash hash = (if length hash > 12 then take 12 hash else hash)"

definition cert_key :: "certificate \<Rightarrow> string" where
  "cert_key c = (if ce_path c = [] then ce_subject c else ce_path c)"

definition Facts :: "run_env \<Rightarrow> (finding \<Rightarrow> string) \<Rightarrow> snapshot \<Rightarrow> fact list" where
  "Facts E title s =
     concat (map (\<lambda>svc. if \<not> su_installed svc then []
        else add_fact ''service'' (su_name svc) (trim_space (su_active_state svc @ ''/'' @ su_enabled svc))) (sn_services s)) @
     concat (map (\<lambda>l. add_fact ''port'' (ls_protocol l @ ''/'' @ itoa (ls_port l)) (ls_process l)) (sn_listeners s)) @
     concat (map (\<lambda>r. add_fact ''firewall'' (firewallKey r) (fr_action r)) (fs_rules (sn_firewall s))) @
     concat (map (\<lambda>c. add_fact ''container'' (ct_name c) (ct_image c @ '' '' @ ct_state c)) (sn_containers s)) @
     concat (map (\<lambda>c. add_fact ''container'' (''podman:'' @ pc_name c) (pc_image c @ '' '' @ pc_state c)) (sn_podman s)) @
     concat (map (\<lambda>i. add_fact ''container'' (''lxd:'' @ lx_name i) (lx_status i)) (sn_lxd s)) @
     concat (map (\<lambda>v. add_fact ''vm'' (vm_name v) (vm_state v)) (sn_vms s)) @
     concat (map (\<lambda>f. add_fact ''file'' (mf_path f) (shortHash (mf_sha256 f))) (sn_files s)) @
     concat (map (\<lambda>c. add_fact ''cert'' (cert_key c) (en_day E (ce_not_after c))) (sn_certs s)) @
     concat (map (\<lambda>i. add_fact ''interface'' (ni_name i) (join '' '' (ni_addresses i))) (sn_interfaces s)) @
     concat (map (\<lambda>p. add_fact ''package'' (pu_name p) (pu_new_version p)) (sn_packages s)) @
     concat (map (\<lambda>f. add_fact ''finding'' (fd_id f) (fd_severity f @ '': '' @ title f)) (sn_findings s))"

section \<open>The changes\<close>

type_synonym fact_key = "string \<times> string"
type_synonym fact_map = "(fact_key \<times> string) list"

definition index_facts :: "fact list \<Rightarrow> fact_map" where
  "index_facts fs = fold (\<lambda>f m. put (fa_kind f, fa_key f) (fa_value f) m) fs []"

definition now_changes :: "fact_map \<Rightarrow> fact_key \<times> string \<Rightarrow> change list" where
  "now_changes was e =
     (let (k, v) = e in
      case lookup was k of
        None \<Rightarrow> [\<lparr>cg_kind = fst k, cg_key = snd k, cg_action = ''appeared'', cg_was = [], cg_now = v\<rparr>]
      | Some old \<Rightarrow>
          if old \<noteq> v then [\<lparr>cg_kind = fst k, cg_key = snd k, cg_action = ''changed'', cg_was = old, cg_now = v\<rparr>] else [])"

definition gone_changes :: "fact_map \<Rightarrow> fact_key \<times> string \<Rightarrow> change list" where
  "gone_changes now e =
     (let (k, v) = e in
      if lookup now k = None
      then [\<lparr>cg_kind = fst k, cg_key = snd k, cg_action = ''disappeared'', cg_was = v, cg_now = []\<rparr>] else [])"

definition change_less :: "change \<Rightarrow> change \<Rightarrow> bool" where
  "change_less a b = (if cg_kind a \<noteq> cg_kind b then cg_kind a < cg_kind b else cg_key a < cg_key b)"

definition raw_changes :: "(fact_map \<Rightarrow> fact_map) \<Rightarrow> (fact_map \<Rightarrow> fact_map) \<Rightarrow> fact_map \<Rightarrow> fact_map \<Rightarrow> change list" where
  "raw_changes ordn ordw was now = concat (map (now_changes was) (ordn now)) @ concat (map (gone_changes now) (ordw was))"

definition Diff ::
  "(fact_map \<Rightarrow> fact_map) \<Rightarrow> (fact_map \<Rightarrow> fact_map) \<Rightarrow> run_env \<Rightarrow> (finding \<Rightarrow> string) \<Rightarrow> snapshot \<Rightarrow> snapshot \<Rightarrow> change list" where
  "Diff ordn ordw E title prev cur =
     sort_stable change_less
       (raw_changes ordn ordw (index_facts (Facts E title prev)) (index_facts (Facts E title cur)))"

section \<open>Reading a list of changes\<close>

text \<open>What the facts are after the changes, and the changes read backwards.\<close>

definition apply_change :: "change \<Rightarrow> (fact_key \<Rightarrow> string option) \<Rightarrow> fact_key \<Rightarrow> string option" where
  "apply_change c m = m((cg_kind c, cg_key c) := (if cg_action c = ''disappeared'' then None else Some (cg_now c)))"

definition undo :: "change \<Rightarrow> change" where
  "undo c = c\<lparr>cg_action := (if cg_action c = ''appeared'' then ''disappeared''
                          else if cg_action c = ''disappeared'' then ''appeared'' else cg_action c),
              cg_was := cg_now c, cg_now := cg_was c\<rparr>"

definition known_facts :: "run_env \<Rightarrow> (finding \<Rightarrow> string) \<Rightarrow> snapshot \<Rightarrow> fact_key \<Rightarrow> string option" where
  "known_facts E title s = lookup (index_facts (Facts E title s))"

section \<open>Lemmas\<close>

definition change_key :: "change \<Rightarrow> fact_key" where
  "change_key c = (cg_kind c, cg_key c)"

interpretation changes: keyed_order change_less change_key "\<lambda>_. True"
  by unfold_locales (auto simp: change_less_def change_key_def less_prod_def)

lemma wf_index_facts: "wf_map (index_facts fs)"
  by (simp add: index_facts_def strstore.ok_fold)

lemma unknown_fact: "(kind, key) \<notin> (\<lambda>f. (fa_kind f, fa_key f)) ` set fs \<Longrightarrow> lookup (index_facts fs) (kind, key) = None"
  by (simp add: index_facts_def strstore.get_fold_other)

text \<open>The change of one key, if any.\<close>

definition change_at :: "fact_map \<Rightarrow> fact_map \<Rightarrow> fact_key \<Rightarrow> change option" where
  "change_at was now k =
     (case (lookup was k, lookup now k) of
        (None, Some v) \<Rightarrow> Some \<lparr>cg_kind = fst k, cg_key = snd k, cg_action = ''appeared'', cg_was = [], cg_now = v\<rparr>
      | (Some u, Some v) \<Rightarrow>
          if u \<noteq> v then Some \<lparr>cg_kind = fst k, cg_key = snd k, cg_action = ''changed'', cg_was = u, cg_now = v\<rparr> else None
      | (Some u, None) \<Rightarrow> Some \<lparr>cg_kind = fst k, cg_key = snd k, cg_action = ''disappeared'', cg_was = u, cg_now = []\<rparr>
      | (None, None) \<Rightarrow> None)"

lemma change_at_key: "change_at was now k = Some c \<Longrightarrow> change_key c = k"
  by (auto simp: change_at_def change_key_def split: option.splits if_splits)

definition reordered :: "(fact_map \<Rightarrow> fact_map) \<Rightarrow> bool" where
  "reordered ord \<longleftrightarrow> (\<forall>m. mset (ord m) = mset m)"

lemma reordered_wf:
  assumes "reordered ord" "wf_map m"
  shows "wf_map (ord m)" "lookup (ord m) = lookup m"
proof -
  have ms: "mset (ord m) = mset m" using assms(1) by (simp add: reordered_def)
  then have "mset (map fst (ord m)) = mset (map fst m)" by simp
  then show wf: "wf_map (ord m)"
    using assms(2) mset_eq_imp_distinct_iff unfolding wf_map_def by blast
  have st: "set (ord m) = set m" using ms by (rule mset_eq_setD)
  show "lookup (ord m) = lookup m"
  proof
    fix k
    show "lookup (ord m) k = lookup m k"
      using in_set_lookup [OF wf] in_set_lookup [OF assms(2)] lookup_in_set st
      by (metis not_None_eq)
  qed
qed

text \<open>A loop that yields at most one change for the key of each entry yields distinct keys.\<close>

definition one_each :: "(fact_key \<times> string \<Rightarrow> change list) \<Rightarrow> bool" where
  "one_each f \<longleftrightarrow> (\<forall>e. f e = [] \<or> (\<exists>c. f e = [c] \<and> change_key c = fst e))"

lemma keyed_concat:
  assumes "one_each f" "distinct (map fst es)"
  shows "distinct (map change_key (concat (map f es)))"
  using assms(2)
proof (induction es)
  case (Cons e es)
  have key: "change_key c = fst x" if "c \<in> set (f x)" for c x
    using assms(1) that unfolding one_each_def by (metis empty_iff empty_set singletonD list.set(2) set_ConsD)
  have sub: "set (map change_key (concat (map f es))) \<subseteq> fst ` set es"
  proof
    fix k assume "k \<in> set (map change_key (concat (map f es)))"
    then obtain c x where "x \<in> set es" "c \<in> set (f x)" "k = change_key c"
      unfolding set_map set_concat by blast
    with key [of c x] show "k \<in> fst ` set es" by simp
  qed
  consider "f e = []" | c where "f e = [c]" "change_key c = fst e"
    using assms(1) unfolding one_each_def by blast
  then show ?case
  proof cases
    case 1 then show ?thesis using Cons by simp
  next
    case 2
    have "fst e \<notin> set (map change_key (concat (map f es)))" by (rule contra_subsetD [OF sub]) (use Cons.prems in simp)
    then show ?thesis using Cons 2 by simp
  qed
qed simp

lemma one_each_now: "one_each (now_changes was)"
  by (auto simp: one_each_def now_changes_def change_key_def split: option.splits)

lemma one_each_gone: "one_each (gone_changes now)"
  by (auto simp: one_each_def gone_changes_def change_key_def)

lemma in_raw:
  assumes "reordered ordn" "reordered ordw" "wf_map was" "wf_map now"
  shows "c \<in> set (raw_changes ordn ordw was now) \<longleftrightarrow> (\<exists>k. change_at was now k = Some c)"
proof -
  note n = reordered_wf [OF assms(1,4)] and w = reordered_wf [OF assms(2,3)]
  have entries: "(k, v) \<in> set (ordn now) \<longleftrightarrow> lookup now k = Some v" "(k, v) \<in> set (ordw was) \<longleftrightarrow> lookup was k = Some v" for k v
    using n w in_set_lookup lookup_in_set by metis+
  have "c \<in> set (raw_changes ordn ordw was now) \<longleftrightarrow>
      (\<exists>k v. lookup now k = Some v \<and> c \<in> set (now_changes was (k, v))) \<or>
      (\<exists>k v. lookup was k = Some v \<and> c \<in> set (gone_changes now (k, v)))"
    by (auto simp: raw_changes_def entries)
  also have "\<dots> \<longleftrightarrow> (\<exists>k. change_at was now k = Some c)"
  proof -
    have "(\<exists>v. lookup now k = Some v \<and> c \<in> set (now_changes was (k, v))) \<or>
        (\<exists>v. lookup was k = Some v \<and> c \<in> set (gone_changes now (k, v))) \<longleftrightarrow> change_at was now k = Some c" for k
      by (cases "lookup now k"; cases "lookup was k") (auto simp: now_changes_def gone_changes_def change_at_def)
    then show ?thesis by blast
  qed
  finally show ?thesis .
qed

lemma raw_distinct:
  assumes "reordered ordn" "reordered ordw" "wf_map was" "wf_map now"
  shows "distinct (map change_key (raw_changes ordn ordw was now))"
proof -
  note n = reordered_wf [OF assms(1,4)] and w = reordered_wf [OF assms(2,3)]
  have d: "distinct (map change_key (concat (map (now_changes was) (ordn now))))"
    "distinct (map change_key (concat (map (gone_changes now) (ordw was))))"
    using n w by (auto intro!: keyed_concat one_each_now one_each_gone simp: wf_map_def)
  have "lookup now (change_key c) \<noteq> None" if c: "c \<in> set (concat (map (now_changes was) (ordn now)))" for c
  proof -
    obtain e where "e \<in> set (ordn now)" "c \<in> set (now_changes was e)"
      using c unfolding set_map set_concat by blast
    then obtain k v where kv: "(k, v) \<in> set (ordn now)" "c \<in> set (now_changes was (k, v))"
      by (metis surj_pair)
    then have "change_key c = k" by (auto simp: now_changes_def change_key_def split: option.splits if_splits)
    then show ?thesis using in_set_lookup [OF n(1) kv(1)] n(2) by simp
  qed
  moreover have "lookup now (change_key c) = None" if "c \<in> set (concat (map (gone_changes now) (ordw was)))" for c
    using that by (auto simp: gone_changes_def change_key_def split: if_splits)
  ultimately have "set (map change_key (concat (map (now_changes was) (ordn now)))) \<inter>
      set (map change_key (concat (map (gone_changes now) (ordw was)))) = {}"
    by (auto simp del: set_concat) (metis not_None_eq)
  with d show ?thesis by (simp add: raw_changes_def)
qed

end
