(* ===== verification/StateDiffTheorems.thy ===== *)
theory StateDiffTheorems
  imports StateDiff
begin

text \<open>
  The list of changes between two snapshots: it is exact, it does not depend on the orders in
  which maps are visited nor on how a sort treats equal elements, it can be replayed and read
  backwards; and what it does not tell.
\<close>

abbreviation listed :: "run_env \<Rightarrow> (finding \<Rightarrow> string) \<Rightarrow> snapshot \<Rightarrow> fact_map" where
  "listed E title s \<equiv> index_facts (Facts E title s)"

lemma ordered_id: "reordered (\<lambda>m. m)"
  by (simp add: reordered_def)

lemma Diff_shape:
  assumes "reordered ordn" "reordered ordw"
  shows "sorted (map change_key (Diff ordn ordw E title prev cur))"
    "distinct (map change_key (Diff ordn ordw E title prev cur))"
    "c \<in> set (Diff ordn ordw E title prev cur) \<longleftrightarrow> (\<exists>k. change_at (listed E title prev) (listed E title cur) k = Some c)"
proof -
  let ?raw = "raw_changes ordn ordw (listed E title prev) (listed E title cur)"
  have ok: "list_all (\<lambda>_. True) ?raw" by (simp add: list_all_iff)
  have ms: "mset (Diff ordn ordw E title prev cur) = mset ?raw"
    unfolding Diff_def by (rule changes.sort_stable_mset [OF ok])
  show "sorted (map change_key (Diff ordn ordw E title prev cur))"
    unfolding Diff_def by (rule changes.sort_stable_sorted [OF ok])
  have "mset (map change_key (Diff ordn ordw E title prev cur)) = mset (map change_key ?raw)" using ms by simp
  then show "distinct (map change_key (Diff ordn ordw E title prev cur))"
    using raw_distinct [OF assms wf_index_facts wf_index_facts] mset_eq_imp_distinct_iff by blast
  show "c \<in> set (Diff ordn ordw E title prev cur) \<longleftrightarrow> (\<exists>k. change_at (listed E title prev) (listed E title cur) k = Some c)"
    using in_raw [OF assms wf_index_facts wf_index_facts] mset_eq_setD [OF ms] by blast
qed

text \<open>A list of changes is determined by what is in it, its order and the distinctness of its keys.\<close>

lemma changes_unique:
  assumes "sorted (map change_key xs)" "distinct (map change_key xs)" "sorted (map change_key ys)" "distinct (map change_key ys)"
    and "set xs = set ys"
  shows "xs = ys"
  using assms by (metis (no_types, lifting) map_sorted_distinct_set_unique distinct_map sup.idem)

text \<open>The changes between two snapshots are the same, in the same order, whatever order the maps are visited in and whatever a sort does with equal elements: every arrangement of them in which none comes before a smaller one is the answer.\<close>

theorem changes_canonical:
  assumes "reordered ordn" "reordered ordw" "reordered ordn'" "reordered ordw'"
    and "mset xs = mset (raw_changes ordn' ordw' (index_facts (Facts E title prev)) (index_facts (Facts E title cur)))"
    and "sorted_wrt (\<lambda>a b. \<not> change_less b a) xs"
  shows "Diff ordn ordw E title prev cur = xs"
proof (rule changes_unique)
  let ?raw = "raw_changes ordn' ordw' (listed E title prev) (listed E title cur)"
  show "sorted (map change_key (Diff ordn ordw E title prev cur))" "distinct (map change_key (Diff ordn ordw E title prev cur))"
    by (rule Diff_shape [OF assms(1,2)])+
  have "mset (map change_key xs) = mset (map change_key ?raw)" using assms(5) by simp
  then show "distinct (map change_key xs)"
    using raw_distinct [OF assms(3,4) wf_index_facts wf_index_facts] mset_eq_imp_distinct_iff by blast
  have "sorted_wrt (\<lambda>a b. change_key a \<le> change_key b) xs"
    using assms(6) by (rule sorted_wrt_mono_rel [rotated]) (use changes.lt_key in force)
  then show "sorted (map change_key xs)" by (simp add: sorted_map)
  have "set xs = set ?raw" using assms(5) by (rule mset_eq_setD)
  then show "set (Diff ordn ordw E title prev cur) = set xs"
    using in_raw [OF assms(3,4) wf_index_facts wf_index_facts] Diff_shape(3) [OF assms(1,2)] by blast
qed

section \<open>Replaying the changes\<close>

lemma apply_changes:
  assumes "distinct (map change_key cs)"
  shows "fold apply_change cs m k =
    (case find (\<lambda>c. change_key c = k) cs of None \<Rightarrow> m k
     | Some c \<Rightarrow> if cg_action c = ''disappeared'' then None else Some (cg_now c))"
  using assms
proof (induction cs arbitrary: m)
  case (Cons c cs)
  have absent: "find (\<lambda>d. change_key d = change_key c) cs = None"
    using Cons.prems by (force simp: find_None_iff image_iff)
  show ?case
    using Cons absent by (auto simp: apply_change_def change_key_def [symmetric])
qed simp

lemma find_key:
  assumes "distinct (map change_key cs)" "c \<in> set cs"
  shows "find (\<lambda>d. change_key d = change_key c) cs = Some c"
  using assms by (induction cs) (auto simp: image_iff)

text \<open>C35. Replaying the changes on the facts of the earlier snapshot gives the facts of the later one.\<close>

theorem changes_replay:
  assumes "reordered ordn" "reordered ordw"
  shows "fold apply_change (Diff ordn ordw E title prev cur) (known_facts E title prev) = known_facts E title cur"
proof
  fix k
  let ?d = "Diff ordn ordw E title prev cur" and ?at = "change_at (listed E title prev) (listed E title cur)"
  note shape = Diff_shape [OF assms, where E = E and title = title and prev = prev and cur = cur]
  show "fold apply_change ?d (known_facts E title prev) k = known_facts E title cur k"
  proof (cases "?at k")
    case None
    have "find (\<lambda>c. change_key c = k) ?d = None"
      using None change_at_key shape(3) by (metis (mono_tags, lifting) find_None_iff option.distinct(1))
    then show ?thesis
      using None unfolding apply_changes [OF shape(2)]
      by (auto simp: change_at_def known_facts_def split: option.splits if_splits)
  next
    case (Some c)
    then have "find (\<lambda>d. change_key d = k) ?d = Some c"
      using find_key [OF shape(2)] change_at_key shape(3) by metis
    then show ?thesis
      using Some unfolding apply_changes [OF shape(2)]
      by (auto simp: change_at_def known_facts_def split: option.splits if_splits)
  qed
qed

section \<open>Reading the changes backwards\<close>

lemma change_at_undo: "change_at was now k = map_option undo (change_at now was k)"
  by (auto simp: change_at_def undo_def split: option.splits)

text \<open>The changes from the later snapshot back to the earlier one are the same list with every change read backwards.\<close>

theorem changes_reversed:
  assumes "reordered ordn" "reordered ordw"
  shows "Diff ordn ordw E title cur prev = map undo (Diff ordn ordw E title prev cur)"
proof (rule changes_unique)
  have keys: "map change_key (map undo cs) = map change_key cs" for cs
    by (induction cs) (auto simp: undo_def change_key_def)
  show "sorted (map change_key (Diff ordn ordw E title cur prev))" "distinct (map change_key (Diff ordn ordw E title cur prev))"
    "sorted (map change_key (map undo (Diff ordn ordw E title prev cur)))"
    "distinct (map change_key (map undo (Diff ordn ordw E title prev cur)))"
    unfolding keys by (rule Diff_shape [OF assms])+
  show "set (Diff ordn ordw E title cur prev) = set (map undo (Diff ordn ordw E title prev cur))"
  proof (rule set_eqI)
    fix c
    have "c \<in> set (Diff ordn ordw E title cur prev) \<longleftrightarrow>
        (\<exists>k. map_option undo (change_at (listed E title prev) (listed E title cur) k) = Some c)"
      unfolding Diff_shape(3) [OF assms] change_at_undo [of "listed E title cur"] ..
    also have "\<dots> \<longleftrightarrow> (\<exists>d. d \<in> set (Diff ordn ordw E title prev cur) \<and> c = undo d)"
      unfolding Diff_shape(3) [OF assms] by auto
    finally show "c \<in> set (Diff ordn ordw E title cur prev) \<longleftrightarrow> c \<in> set (map undo (Diff ordn ordw E title prev cur))"
      by auto
  qed
qed

section \<open>Examples, and what the list does not tell\<close>

definition sd_env :: run_env where
  "sd_env = \<lparr>en_now = 0, en_day = (\<lambda>_. []), en_day_time = (\<lambda>_. []), en_rfc3339 = (\<lambda>_. None),
     en_lower = (\<lambda>s. s), en_upper = (\<lambda>s. s), en_ports = rev, en_no_limits = rev, en_latest = rev\<rparr>"

definition sd_listener :: "string \<Rightarrow> int \<Rightarrow> string \<Rightarrow> listener" where
  "sd_listener addr port proc = \<lparr>ls_protocol = ''tcp'', ls_address = addr, ls_port = port, ls_process = proc,
     ls_command = [], ls_user = [], ls_uptime = 0, ls_unit = [], ls_container_id = [], ls_origin = []\<rparr>"

definition sd_host :: "listener list \<Rightarrow> snapshot" where
  "sd_host ls = empty_snapshot\<lparr>sn_listeners := ls\<rparr>"

definition sd_rules :: "(string \<times> string) list \<Rightarrow> snapshot" where
  "sd_rules rs = empty_snapshot\<lparr>sn_firewall := \<lparr>fs_managers = [], fs_policies = [],
     fs_rules = map (\<lambda>(port, action). \<lparr>fr_backend = ''ufw'', fr_chain = ''in'', fr_action = action, fr_protocol = ''tcp'',
       fr_port_spec = port, fr_ports = [], fr_source = [], fr_destination = [], fr_zone = [], fr_dnat_to = [],
       fr_packets = 0, fr_raw = []\<rparr>) rs\<rparr>\<rparr>"

lemmas sd_eval = sd_host_def sd_rules_def sd_listener_def empty_snapshot_def Facts_def add_fact_def firewallKey_def join_def
  index_facts_def raw_changes_def now_changes_def gone_changes_def put_def lookup_def Diff_def sort_stable_def change_less_def Let_def

lemma ordered_rev: "reordered rev"
  by (simp add: reordered_def)

definition sd_old :: snapshot where "sd_old = sd_host [sd_listener ''0.0.0.0'' 80 ''nginx'', sd_listener ''0.0.0.0'' 22 ''sshd'']"
definition sd_new :: snapshot where "sd_new = sd_host [sd_listener ''0.0.0.0'' 80 ''caddy'', sd_listener ''0.0.0.0'' 443 ''caddy'']"

lemma changes_canonical_witness:
  "Diff rev rev sd_env (\<lambda>_. []) sd_old sd_new = Diff (\<lambda>m. m) (\<lambda>m. m) sd_env (\<lambda>_. []) sd_old sd_new"
proof (rule changes_canonical [OF ordered_rev ordered_rev ordered_id ordered_id])
  let ?raw = "raw_changes (\<lambda>m. m) (\<lambda>m. m) (listed sd_env (\<lambda>_. []) sd_old) (listed sd_env (\<lambda>_. []) sd_new)"
  have ok: "list_all (\<lambda>_. True) ?raw" by (simp add: list_all_iff)
  show "mset (Diff (\<lambda>m. m) (\<lambda>m. m) sd_env (\<lambda>_. []) sd_old sd_new) = mset ?raw"
    unfolding Diff_def by (rule changes.sort_stable_mset [OF ok])
  have "sorted_wrt (\<lambda>a b. change_key a \<le> change_key b) (Diff (\<lambda>m. m) (\<lambda>m. m) sd_env (\<lambda>_. []) sd_old sd_new)"
    using Diff_shape(1) [OF ordered_id ordered_id] by (simp add: sorted_map)
  then show "sorted_wrt (\<lambda>a b. \<not> change_less b a) (Diff (\<lambda>m. m) (\<lambda>m. m) sd_env (\<lambda>_. []) sd_old sd_new)"
    by (rule sorted_wrt_mono_rel [rotated]) (simp add: changes.lt_key)
qed

lemma changes_replay_witness:
  "fold apply_change (Diff rev (\<lambda>m. m) sd_env (\<lambda>_. []) sd_old sd_new) (known_facts sd_env (\<lambda>_. []) sd_old) (''port'', ''tcp/80'') = Some ''caddy''"
proof -
  have "known_facts sd_env (\<lambda>_. []) sd_new (''port'', ''tcp/80'') = Some ''caddy''"
    by (simp add: known_facts_def sd_new_def sd_eval itoa_def nat_str.simps digit_char_def char_of_def bit_Suc_0_iff)
  then show ?thesis
    unfolding changes_replay [OF ordered_rev ordered_id] .
qed

lemma changes_reversed_witness:
  "Diff rev rev sd_env (\<lambda>_. []) sd_new sd_old = map undo (Diff rev rev sd_env (\<lambda>_. []) sd_old sd_new)"
  by (rule changes_reversed [OF ordered_rev ordered_rev])

text \<open>
  A port is known by its protocol and number, so of two sockets on one port the last one listed
  stands for both: closing the public one is not a change.
\<close>

lemma closed_socket_unseen:
  "Diff (\<lambda>m. m) (\<lambda>m. m) E title
     (sd_host [sd_listener ''0.0.0.0'' 80 ''nginx'', sd_listener ''127.0.0.1'' 80 ''nginx''])
     (sd_host [sd_listener ''127.0.0.1'' 80 ''nginx'']) = []"
  by (simp add: sd_eval)

text \<open>
  A rule of the firewall is known by everything but its action, so of two rules on one port the
  last one stands for both: reordering them is reported as a change, and adding the first is not.
\<close>

lemma reordered_rules_reported:
  "map cg_action (Diff (\<lambda>m. m) (\<lambda>m. m) E title (sd_rules [(''22'', ''ALLOW''), (''22'', ''DENY'')]) (sd_rules [(''22'', ''DENY''), (''22'', ''ALLOW'')]))
     = [''changed'']"
  "Diff (\<lambda>m. m) (\<lambda>m. m) E title (sd_rules [(''22'', ''DENY'')]) (sd_rules [(''22'', ''ALLOW''), (''22'', ''DENY'')]) = []"
  by (simp_all add: sd_eval)

end
