(* ===== verification/TokenModel.thy ===== *)
theory TokenModel
  imports AnaK8s AuthLimit Complex_Main
begin

text \<open>
  API tokens of the hub: the token and its rights (internal/store/apitokens.go), the tables of
  what a token may call (internal/hub/apitokens.go), and the rows that account for what a token
  has created (internal/store/tokenusage.go).
\<close>

section \<open>Actions and rights\<close>

abbreviation TokenActPipelineDeploy :: string where "TokenActPipelineDeploy \<equiv> ''pipeline.deploy''"
abbreviation TokenActPipelinePower :: string where "TokenActPipelinePower \<equiv> ''pipeline.power''"
abbreviation TokenActPipelineCreate :: string where "TokenActPipelineCreate \<equiv> ''pipeline.create''"
abbreviation TokenActScriptRun :: string where "TokenActScriptRun \<equiv> ''script.run''"
abbreviation TokenActK8sApply :: string where "TokenActK8sApply \<equiv> ''k8s.apply''"
abbreviation TokenActVMManage :: string where "TokenActVMManage \<equiv> ''vm.manage''"
abbreviation TokenActContainer :: string where "TokenActContainer \<equiv> ''container.action''"
abbreviation TokenActService :: string where "TokenActService \<equiv> ''service.action''"
abbreviation TokenActFly :: string where "TokenActFly \<equiv> ''fly.manage''"
abbreviation TokenActMigrate :: string where "TokenActMigrate \<equiv> ''migrate''"
abbreviation TokenActFail2ban :: string where "TokenActFail2ban \<equiv> ''fail2ban.manage''"
abbreviation TokenActVulnScan :: string where "TokenActVulnScan \<equiv> ''vuln.scan''"
abbreviation TokenActK8sCluster :: string where "TokenActK8sCluster \<equiv> ''k8s.cluster''"
abbreviation TokenActVMPorts :: string where "TokenActVMPorts \<equiv> ''vm.ports''"
abbreviation TokenActFlyOwn :: string where "TokenActFlyOwn \<equiv> ''fly.own''"
abbreviation TokenActK8sNamespace :: string where "TokenActK8sNamespace \<equiv> ''k8s.namespace''"

definition TokenActions :: "string list" where
  "TokenActions =
    [TokenActPipelineDeploy, TokenActPipelinePower, TokenActPipelineCreate, TokenActScriptRun, TokenActK8sApply,
     TokenActVMManage, TokenActContainer, TokenActService, TokenActFly, TokenActMigrate, TokenActFail2ban,
     TokenActVulnScan, TokenActK8sCluster, TokenActVMPorts, TokenActFlyOwn, TokenActK8sNamespace]"

text \<open>Ceilings that the model reads; zero is no ceiling. CPU is counted in exact fractions.\<close>

record token_limits =
  tl_cpu :: rat
  tl_mem :: int
  tl_disk :: int
  tl_host_cpu :: rat
  tl_host_mem :: int
  tl_vms :: int
  tl_vm_cpu :: int
  tl_vm_mem :: int
  tl_vm_disk :: int
  tl_per_hour :: int
  tl_ports :: int

record token_perms =
  tp_actions :: "string list"
  tp_pipelines :: "string list"
  tp_scripts :: "string list"
  tp_limits :: token_limits

record api_token =
  tk_id :: int
  tk_name :: string
  tk_key :: string
  tk_role :: string
  tk_hosts :: "int list"
  tk_groups :: "string list"
  tk_ips :: "string list"
  tk_expires :: string
  tk_edge :: bool
  tk_perms :: token_perms

definition Can :: "api_token \<Rightarrow> string \<Rightarrow> bool" where
  "Can t action =
     (if tk_role t = ''admin'' then True
      else if tk_role t = ''custom'' then action \<in> set (tp_actions (tk_perms t))
      else False)"

definition Owns :: "api_token \<Rightarrow> string \<Rightarrow> bool" where
  "Owns t author = (author = ''token:'' @ tk_name t)"

definition Limited :: "api_token \<Rightarrow> bool" where
  "Limited t = (tk_role t = ''custom'')"

definition Scoped :: "api_token \<Rightarrow> bool" where
  "Scoped t = (length (tk_hosts t) > 0 \<or> length (tk_groups t) > 0)"

text \<open>\<open>parse\<close> is the parser of RFC 3339 times.\<close>

definition token_expired :: "(string \<Rightarrow> instant option) \<Rightarrow> api_token \<Rightarrow> instant \<Rightarrow> bool" where
  "token_expired parse t now =
     (if tk_expires t = [] then False
      else (case parse (tk_expires t) of None \<Rightarrow> True | Some e \<Rightarrow> \<not> now < e))"

definition AllowsHost :: "api_token \<Rightarrow> int \<Rightarrow> string \<Rightarrow> bool" where
  "AllowsHost t h grp =
     (if \<not> Scoped t then True else h \<in> set (tk_hosts t) \<or> (grp \<noteq> [] \<and> grp \<in> set (tk_groups t)))"

section \<open>What a token may call\<close>

definition tokenHostRead :: "string list" where
  "tokenHostRead =
    [''overview'', ''inventory'', ''findings'', ''topology'', ''health'', ''services'', ''containers'', ''podman'',
     ''lxd'', ''vms'', ''guests'', ''compose'', ''images'', ''vulnerabilities'', ''certificates'', ''monitor'',
     ''jobs'', ''fail2ban'', ''firewall'', ''updates'', ''interfaces'', ''network'', ''net'', ''disks'',
     ''hardware'', ''sites'', ''changes'', ''malware'', ''clamav'']"

definition tokenHostDeny :: "string list" where
  "tokenHostDeny =
    [''terminal'', ''console'', ''files'', ''backups'', ''auth'', ''users'', ''os-users'', ''ui'', ''k8s'',
     ''configs'', ''svcdesc'']"

definition tokenHubRoutes :: "(string \<times> string) list" where
  "tokenHubRoutes =
    [(''GET /auth/me'', []), (''GET /hub/version'', []), (''GET /hub/hosts'', []), (''GET /hub/events'', []),
     (''GET /hub/fail2ban/banned'', []), (''GET /hub/sites'', []), (''GET /hub/pipelines'', []),
     (''GET /hub/pipelines/{id}'', []), (''GET /hub/pipelines/{id}/deployments'', []),
     (''GET /hub/pipelines/examples'', []), (''POST /hub/pipelines'', TokenActPipelineCreate),
     (''PUT /hub/pipelines/{id}'', TokenActPipelineCreate),
     (''POST /hub/pipelines/{id}/remove'', TokenActPipelineCreate), (''GET /hub/jobs/{id}'', []),
     (''GET /hub/jobs/{id}/log'', []), (''POST /hub/pipelines/{id}/deploy'', TokenActPipelineDeploy),
     (''POST /hub/pipelines/{id}/rollback'', TokenActPipelineDeploy), (''GET /hub/pipelines/{id}/power'', []),
     (''POST /hub/pipelines/{id}/start'', TokenActPipelinePower),
     (''POST /hub/pipelines/{id}/stop'', TokenActPipelinePower),
     (''POST /hub/pipelines/dryrun'', TokenActPipelineDeploy), (''POST /hub/fail2ban/fleet'', TokenActFail2ban),
     (''GET /hosts/{id}/vulnerabilities'', []), (''POST /hosts/{id}/vulnerabilities/scan'', TokenActVulnScan),
     (''GET /hub/scripts'', []), (''GET /hub/scripts/{id}'', []), (''POST /hub/scripts/check'', TokenActScriptRun),
     (''POST /hub/scripts/{id}/run'', TokenActScriptRun), (''GET /hub/migrations'', []),
     (''GET /hub/migrate/live'', []), (''POST /hub/migrate/preview'', TokenActMigrate),
     (''POST /hub/migrate'', TokenActMigrate), (''POST /hub/migrations/{id}/{action}'', TokenActMigrate),
     (''GET /hub/tokens/self/usage'', []), (''GET /hub/fly'', []), (''GET /hub/fly/status'', []),
     (''GET /hub/fly/versions'', []), (''PUT /hub/fly'', TokenActFly), (''POST /hub/fly/ops'', TokenActFly),
     (''POST /hub/fly/routes/{id}/switch'', TokenActFly), (''POST /hub/fly/apply'', TokenActFly),
     (''POST /mcp'', []), (''GET /hub/plugins'', []), (''GET /hub/plugins/{name}/agents'', []),
     (''GET /hub/plugin-hosts/types'', []), (''GET /hub/plugin-hosts/{id}'', []),
     (''GET /hub/plugin-hosts/{id}/snapshot'', []), (''GET /hub/plugin-hosts/{id}/findings'', []),
     (''GET /hub/plugin-hosts/{id}/metrics'', []), (''GET /hub/plugin-hosts/{id}/config'', []),
     (''POST /hub/plugin-hosts/{id}/action'', []), (''POST /hub/plugin-hosts/{id}/exec'', []),
     (''POST /hub/plugins/{name}/call'', []), (''GET /hub/clusters'', []), (''GET /hub/clusters/{id}/nodes'', []),
     (''GET /hub/k8s/manifests'', TokenActK8sApply), (''GET /hub/k8s/manifests/{id}'', TokenActK8sApply),
     (''POST /hub/k8s/manifests/diff'', TokenActK8sApply), (''POST /hub/k8s/manifests/apply'', TokenActK8sApply),
     (''POST /hub/vm/provision'', TokenActVMManage), (''POST /hub/hosts/{id}/vm/{action}'', TokenActVMManage),
     (''GET /hub/hosts/{id}/vm/snapshots'', TokenActVMManage),
     (''POST /hub/hosts/{id}/vm/snapshots'', TokenActVMManage),
     (''POST /hub/hosts/{id}/vm/snapshots/{snap}/revert'', TokenActVMManage),
     (''DELETE /hub/hosts/{id}/vm/snapshots/{snap}'', TokenActVMManage),
     (''POST /hub/hosts/{id}/vm/resize'', TokenActVMManage),
     (''POST /hub/hosts/{id}/vm/reinstall'', TokenActVMManage), (''DELETE /hub/hosts/{id}/vm'', TokenActVMManage),
     (''GET /hub/hosts/{id}/lxd'', TokenActVMManage), (''POST /hub/hosts/{id}/lxd'', TokenActVMManage),
     (''POST /hub/hosts/{id}/lxd/{name}/{action}'', TokenActVMManage),
     (''GET /hub/hosts/{id}/lxd/{name}/snapshots'', TokenActVMManage),
     (''POST /hub/hosts/{id}/lxd/{name}/snapshots'', TokenActVMManage),
     (''POST /hub/hosts/{id}/lxd/{name}/snapshots/{snap}/restore'', TokenActVMManage),
     (''DELETE /hub/hosts/{id}/lxd/{name}/snapshots/{snap}'', TokenActVMManage),
     (''POST /hub/hosts/{id}/lxd/{name}/resize'', TokenActVMManage),
     (''DELETE /hub/hosts/{id}/lxd/{name}'', TokenActVMManage), (''GET /hub/k8s/clusters/own'', TokenActK8sCluster),
     (''POST /hub/k8s/clusters/own'', TokenActK8sCluster),
     (''POST /hub/k8s/clusters/own/{id}/kubeconfig'', TokenActK8sCluster),
     (''DELETE /hub/k8s/clusters/own/{id}'', TokenActK8sCluster), (''GET /hub/k8s/own'', TokenActK8sNamespace),
     (''POST /hub/k8s/own'', TokenActK8sNamespace),
     (''POST /hub/k8s/own/{cluster}/{ns}/kubeconfig'', TokenActK8sNamespace),
     (''DELETE /hub/k8s/own/{cluster}/{ns}'', TokenActK8sNamespace),
     (''GET /hub/k8s/own/{cluster}/{ns}/logs'', TokenActK8sNamespace),
     (''POST /hub/k8s/own/{cluster}/{ns}/helm'', TokenActK8sNamespace),
     (''GET /hub/hosts/{id}/vm/ports'', TokenActVMPorts), (''POST /hub/hosts/{id}/vm/ports'', TokenActVMPorts),
     (''DELETE /hub/hosts/{id}/vm/ports/{port}'', TokenActVMPorts), (''GET /hub/own/fly'', TokenActFlyOwn),
     (''POST /hub/own/fly'', TokenActFlyOwn), (''DELETE /hub/own/fly/{route}'', TokenActFlyOwn)]"

section \<open>Accounting\<close>

record token_usage =
  tu_token :: int
  tu_kind :: string
  tu_host :: int
  tu_ref :: string
  tu_label :: string
  tu_cpu :: rat
  tu_mem :: int
  tu_disk :: int

definition same_row :: "token_usage \<Rightarrow> token_usage \<Rightarrow> bool" where
  "same_row a b = (tu_kind a = tu_kind b \<and> tu_host a = tu_host b \<and> tu_ref a = tu_ref b)"

text \<open>Insert or replace: the row is identified by token, kind, host and reference.\<close>

definition SetTokenUsage :: "token_usage \<Rightarrow> token_usage list \<Rightarrow> token_usage list" where
  "SetTokenUsage u rows = filter (\<lambda>r. \<not> (tu_token r = tu_token u \<and> same_row r u)) rows @ [u]"

definition DeleteTokenUsage :: "int \<Rightarrow> string \<Rightarrow> int \<Rightarrow> string \<Rightarrow> token_usage list \<Rightarrow> token_usage list" where
  "DeleteTokenUsage token kind h ref rows =
     filter (\<lambda>r. \<not> ((token = 0 \<or> tu_token r = token) \<and> tu_kind r = kind \<and> tu_host r = h \<and> tu_ref r = ref)) rows"

definition DeleteTokenUsagePrefix :: "string \<Rightarrow> int \<Rightarrow> string \<Rightarrow> token_usage list \<Rightarrow> token_usage list" where
  "DeleteTokenUsagePrefix kind h pre rows =
     filter (\<lambda>r. \<not> (tu_kind r = kind \<and> tu_host r = h \<and> has_prefix (tu_ref r) pre)) rows"

text \<open>The rows are answered in the order of their keys; no caller depends on the order.\<close>

definition ListTokenUsage :: "int \<Rightarrow> token_usage list \<Rightarrow> token_usage list" where
  "ListTokenUsage token rows = filter (\<lambda>r. token = 0 \<or> tu_token r = token) rows"

end
