(* ===== verification/TokenPolicy.thy ===== *)
theory TokenPolicy
  imports TokenModel
begin

text \<open>
  What a token may do with a request (internal/hub/apitokens.go: \<open>tokenPolicy\<close> and what it calls;
  internal/hub/tokenlimits.go: objects, own machines, actions per hour). The router of the hub is
  not modelled: a request comes with the pattern it matched and the parameters of its path. The
  database is a record of what it answers; \<open>None\<close> is an error.
\<close>

section \<open>Requests, refusals and the database\<close>

datatype token_deny = Deny int text_ref

record route_request =
  rr_method :: string
  rr_path :: string
  rr_upgrade :: string
  rr_pattern :: "string option"
  rr_id :: string
  rr_rest :: string

record hub_host =
  hh_id :: int
  hh_name :: string
  hh_parent :: int
  hh_group :: string

record hub_pipeline =
  hp_name :: string
  hp_author :: string

record hub_db =
  hd_hosts :: "hub_host list option"
  hd_local_group :: string
  hd_usage :: "token_usage list"
  hd_host :: "int \<Rightarrow> hub_host option"
  hd_pipeline :: "int \<Rightarrow> hub_pipeline option"
  hd_script :: "int \<Rightarrow> string option"

definition localHostID :: int where "localHostID = -1"

abbreviation refuse :: "int \<Rightarrow> string \<Rightarrow> arg list \<Rightarrow> token_deny" where
  "refuse code key args \<equiv> Deny code (tx key args)"

section \<open>Hosts of a token\<close>

definition hostGroups :: "hub_db \<Rightarrow> int \<Rightarrow> string option" where
  "hostGroups D =
     (case hd_hosts D of
        None \<Rightarrow> Map.empty
      | Some hosts \<Rightarrow>
          (let own = fold (\<lambda>h m. m(hh_id h \<mapsto> hh_group h)) hosts Map.empty;
               out = fold (\<lambda>h m. if hh_parent h \<noteq> 0
                                 then (case m (hh_parent h) of None \<Rightarrow> m | Some g \<Rightarrow> m(hh_id h \<mapsto> g)) else m) hosts own in
           out(localHostID \<mapsto> hd_local_group D)))"

definition machine_key :: "int \<Rightarrow> string \<Rightarrow> string" where
  "machine_key h ref = itoa h @ ''/'' @ ref"

text \<open>The machines of the hub and those of them that the token owns.\<close>

definition tokenVMHosts :: "hub_db \<Rightarrow> api_token \<Rightarrow> int set \<times> int set" where
  "tokenVMHosts D t =
     (case hd_hosts D of
        None \<Rightarrow> ({}, {})
      | Some hosts \<Rightarrow>
          (let mine = map (\<lambda>u. machine_key (tu_host u) (tu_ref u))
                        (filter (\<lambda>u. tu_kind u = ''vm'') (ListTokenUsage (tk_id t) (hd_usage D)));
               vms = filter (\<lambda>h. hh_parent h \<noteq> 0) hosts in
           (set (map hh_id vms), set (map hh_id (filter (\<lambda>h. machine_key (hh_parent h) (hh_name h) \<in> set mine) vms)))))"

text \<open>The filter of hosts; \<open>None\<close> is no filter.\<close>

definition scopeFilter :: "hub_db \<Rightarrow> api_token \<Rightarrow> (int \<Rightarrow> bool) option" where
  "scopeFilter D t =
     (if \<not> Scoped t \<and> \<not> Limited t then None
      else Some (\<lambda>h.
        (let (vms, owned) = tokenVMHosts D t in
         if h \<in> owned then True
         else if Limited t \<and> h \<in> vms then False
         else \<not> Scoped t \<or> AllowsHost t h (case hostGroups D h of None \<Rightarrow> [] | Some g \<Rightarrow> g))))"

definition tokenHostAllowed :: "hub_db \<Rightarrow> api_token \<Rightarrow> string \<Rightarrow> bool" where
  "tokenHostAllowed D t ref =
     (case scopeFilter D t of
        None \<Rightarrow> True
      | Some allow \<Rightarrow>
          if ref = ''local'' then allow localHostID
          else (let (h, good) = atoi ref in good \<and> allow h))"

section \<open>Objects of a token\<close>

definition tokenOwnsVM :: "hub_db \<Rightarrow> api_token \<Rightarrow> string \<Rightarrow> string \<Rightarrow> token_deny option" where
  "tokenOwnsVM D t host_ref name =
     (let (h, good) = (if host_ref = ''local'' then (localHostID, True) else atoi host_ref) in
      if \<not> good then Some (refuse 403 ''auth.tokenHostDenied'' [])
      else if list_ex (\<lambda>u. tu_kind u = ''vm'' \<and> tu_host u = h \<and> tu_ref u = name) (ListTokenUsage (tk_id t) (hd_usage D)) then None
      else Some (refuse 403 ''auth.tokenNotOwnVM'' [AStr name]))"

definition tokenPipelineAllowed :: "api_token \<Rightarrow> hub_pipeline \<Rightarrow> token_deny option" where
  "tokenPipelineAllowed t p =
     (if Limited t \<and> length (tp_pipelines (tk_perms t)) > 0 \<and> hp_name p \<notin> set (tp_pipelines (tk_perms t)) \<and> \<not> Owns t (hp_author p)
      then Some (refuse 403 ''auth.tokenObjectDenied'' [AStr (hp_name p)]) else None)"

definition tokenObjectAllowed :: "hub_db \<Rightarrow> route_request \<Rightarrow> api_token \<Rightarrow> string \<Rightarrow> token_deny option" where
  "tokenObjectAllowed D r t pattern =
     (let n = fst (atoi (rr_id r)); missing = Some (refuse 404 ''err.notFound'' []) in
      if has_prefix pattern ''/hub/hosts/{id}/vm'' then
        (case hd_host D n of
           None \<Rightarrow> missing
         | Some h \<Rightarrow> if hh_parent h = 0 then missing else tokenOwnsVM D t (itoa (hh_parent h)) (hh_name h))
      else if pattern \<in> {''/hub/pipelines/{id}/deploy'', ''/hub/pipelines/{id}/rollback'', ''/hub/pipelines/{id}/start'', ''/hub/pipelines/{id}/stop''} then
        (case hd_pipeline D n of None \<Rightarrow> missing | Some p \<Rightarrow> tokenPipelineAllowed t p)
      else if pattern \<in> {''/hub/pipelines/{id}'', ''/hub/pipelines/{id}/remove''} then
        (case hd_pipeline D n of
           None \<Rightarrow> missing
         | Some p \<Rightarrow> if \<not> Owns t (hp_author p) then Some (refuse 403 ''auth.tokenNotOwnPipeline'' [AStr (hp_name p)]) else None)
      else if pattern = ''/hub/scripts/{id}/run'' then
        (case hd_script D n of
           None \<Rightarrow> missing
         | Some sc \<Rightarrow>
             if length (tp_scripts (tk_perms t)) > 0 \<and> sc \<notin> set (tp_scripts (tk_perms t))
             then Some (refuse 403 ''auth.tokenObjectDenied'' [AStr sc]) else None)
      else None)"

section \<open>Actions per hour\<close>

type_synonym rater = "int \<Rightarrow> int list"

definition one_hour :: int where "one_hour = 60 * nano_minute"

definition rated_actions :: "string list" where
  "rated_actions = [TokenActPipelineDeploy, TokenActPipelinePower, TokenActK8sApply, TokenActScriptRun, TokenActVMManage]"

definition tokenRate :: "rater \<Rightarrow> api_token \<Rightarrow> string \<Rightarrow> int \<Rightarrow> token_deny option \<times> rater" where
  "tokenRate seen t action now =
     (let n = tl_per_hour (tp_limits (tk_perms t)) in
      if n \<le> 0 then (None, seen)
      else if action \<notin> set rated_actions then (None, seen)
      else
        (let recent = filter (\<lambda>ts. \<not> time_sub now ts > one_hour) (seen (tk_id t)) in
         if int (length recent) \<ge> n
         then (Some (refuse 429 ''auth.tokenRateLimited'' [AInt n]), seen(tk_id t := recent))
         else (None, seen(tk_id t := recent @ [now]))))"

section \<open>The policy\<close>

definition tokenHostAction :: "string \<Rightarrow> string \<Rightarrow> string" where
  "tokenHostAction method rest =
     (let (part, tail, _) = cut rest ''/''; n = length (split_char CHR ''/'' tail) in
      if (part = ''containers'' \<or> part = ''podman'') \<and> method = ''POST'' \<and> n = 2 then TokenActContainer
      else if part = ''services'' \<and> method = ''POST'' \<and> n = 2 then TokenActService
      else if part = ''vms'' \<and> (method = ''POST'' \<and> n = 2 \<or> method = ''DELETE'' \<and> n = 1) then TokenActVMManage
      else ''-'')"

definition host_rest :: "string \<Rightarrow> string option" where
  "host_rest pattern =
     (if has_prefix pattern ''/hosts/{id}/'' then Some (trim_prefix pattern ''/hosts/{id}/'')
      else if has_prefix pattern ''/hosts/local/'' then Some (trim_prefix pattern ''/hosts/local/'')
      else None)"

definition tokenRouteAction :: "string \<Rightarrow> string \<Rightarrow> string \<times> bool" where
  "tokenRouteAction method pattern =
     (case lookup tokenHubRoutes (method @ '' '' @ pattern) of
        Some act \<Rightarrow> (act, True)
      | None \<Rightarrow>
          (case host_rest pattern of
             None \<Rightarrow> ([], False)
           | Some rest \<Rightarrow>
               if method = ''GET'' then ([], fst (cut rest ''/'') \<in> set tokenHostRead)
               else (let act = tokenHostAction method rest in (act, act \<noteq> ''-''))))"

definition needs :: "api_token \<Rightarrow> string \<Rightarrow> token_deny option" where
  "needs t action =
     (if action = [] \<or> Can t action then None
      else if tk_role t = ''custom'' then Some (refuse 403 ''auth.tokenActionDenied'' [AStr action])
      else Some (refuse 403 ''auth.tokenReadOnly'' []))"

text \<open>The routes of the hub itself: right, scope, object, rate.\<close>

definition hub_policy ::
  "hub_db \<Rightarrow> rater \<Rightarrow> route_request \<Rightarrow> api_token \<Rightarrow> string \<Rightarrow> string \<Rightarrow> bool \<Rightarrow> int \<Rightarrow> (token_deny + (bool \<times> bool)) \<times> rater" where
  "hub_policy D seen r t pattern action read now =
     (case needs t action of
        Some e \<Rightarrow> (Inl e, seen)
      | None \<Rightarrow>
          if has_prefix pattern ''/hub/fly'' \<and> Scoped t then (Inl (refuse 403 ''auth.tokenFlyScoped'' []), seen)
          else if (has_prefix pattern ''/hosts/{id}/'' \<or> has_prefix pattern ''/hub/hosts/{id}/'') \<and> \<not> tokenHostAllowed D t (rr_id r)
            then (Inl (refuse 403 ''auth.tokenHostDenied'' []), seen)
          else if Limited t \<and> action \<noteq> [] then
            (case tokenObjectAllowed D r t pattern of
               Some e \<Rightarrow> (Inl e, seen)
             | None \<Rightarrow>
                 if read then (Inr (read, True), seen)
                 else (case tokenRate seen t action now of
                         (Some e, seen') \<Rightarrow> (Inl e, seen')
                       | (None, seen') \<Rightarrow> (Inr (read, True), seen')))
          else (Inr (read, False), seen))"

text \<open>
  The routes that lead to a host. \<open>None\<close> is the panic of \<open>strings.Split(rest, "/")[1]\<close> on a path
  without a slash.
\<close>

definition host_policy ::
  "hub_db \<Rightarrow> route_request \<Rightarrow> api_token \<Rightarrow> string \<Rightarrow> string \<Rightarrow> bool \<Rightarrow> token_deny \<Rightarrow> (token_deny + (bool \<times> bool)) option" where
  "host_policy D r t host_ref method read denied =
     (let rest = rr_rest r; part = fst (cut rest ''/''); admin = (tk_role t = ''admin'') in
      if part \<in> set tokenHostDeny then Some (Inl denied)
      else if read \<and> \<not> admin \<and> part \<notin> set tokenHostRead then Some (Inl denied)
      else if \<not> tokenHostAllowed D t host_ref then Some (Inl (refuse 403 ''auth.tokenHostDenied'' []))
      else if read \<or> admin then Some (Inr (read, False))
      else
        (let action = tokenHostAction method rest in
         if action = ''-'' then Some (Inl (refuse 403 ''auth.tokenReadOnly'' []))
         else
           (case needs t action of
              Some e \<Rightarrow> Some (Inl e)
            | None \<Rightarrow>
                if action = TokenActVMManage then
                  (if length (split_char CHR ''/'' rest) < 2 then None
                   else (case tokenOwnsVM D t host_ref (split_char CHR ''/'' rest ! 1) of
                           Some e \<Rightarrow> Some (Inl e)
                         | None \<Rightarrow> Some (Inr (False, True))))
                else Some (Inr (False, True)))))"

definition tokenPolicy ::
  "hub_db \<Rightarrow> rater \<Rightarrow> route_request \<Rightarrow> api_token \<Rightarrow> int \<Rightarrow> (token_deny + (bool \<times> bool)) option \<times> rater" where
  "tokenPolicy D seen r t now =
     (let denied = refuse 403 ''auth.tokenRouteDenied'' [AStr (rr_method r), AStr (rr_path r)] in
      if rr_upgrade r \<noteq> [] then (Some (Inl denied), seen)
      else
        (case rr_pattern r of
           None \<Rightarrow> (Some (Inl denied), seen)
         | Some full \<Rightarrow>
             (let pattern = trim_prefix full ''/api'';
                  read = (rr_method r = ''GET'' \<or> rr_method r = ''HEAD'');
                  method = (if rr_method r = ''HEAD'' then ''GET'' else rr_method r) in
              case lookup tokenHubRoutes (method @ '' '' @ pattern) of
                Some action \<Rightarrow> apfst Some (hub_policy D seen r t pattern action read now)
              | None \<Rightarrow>
                  if pattern = ''/hosts/{id}/*'' then (host_policy D r t (rr_id r) method read denied, seen)
                  else if pattern = ''/hosts/local/*'' then (host_policy D r t ''local'' method read denied, seen)
                  else (Some (Inl denied), seen))))"

end
