(* ===== verification/TokenQuota.thy ===== *)
theory TokenQuota
  imports TokenPolicy GoFloat
begin

text \<open>
  The accounting of what tokens occupy (internal/hub/tokenlimits.go, vmlxd.go, vmlifecycle.go,
  handlers_profilegroup.go, vmprovision.go, tokenusage.go): the ceilings that new rows must fit, the
  rows that creating, resizing and deleting write, and the comparison with what the hosts report.
  CPU is counted in exact fractions (Go: float64 with a margin of 1e-9); sizes are 64-bit integers.
\<close>

section \<open>Ceilings\<close>

datatype quota_error =
    OverCPU string rat rat rat
  | OverMem string int int int
  | OverDisk string int int int
  | OverVMs int
  | OverHostCPU string rat rat rat
  | OverHostMem string int int int
  | OverSpec string string int int
  | HostImage
  | ForeignNetwork
  | HostDenied
  | NoUsage

record counted =
  qs_cpu :: rat
  qs_mem :: int
  qs_disk :: int
  qs_vms :: int
  qs_host_cpu :: "int \<Rightarrow> rat"
  qs_host_mem :: "int \<Rightarrow> int"

definition nothing_counted :: counted where
  "nothing_counted = \<lparr>qs_cpu = 0, qs_mem = 0, qs_disk = 0, qs_vms = 0, qs_host_cpu = (\<lambda>_. 0), qs_host_mem = (\<lambda>_. 0)\<rparr>"

definition count_row :: "token_usage \<Rightarrow> counted \<Rightarrow> counted" where
  "count_row u s =
     (let s1 = s\<lparr>qs_cpu := qs_cpu s + tu_cpu u, qs_mem := wrap64 (qs_mem s + tu_mem u),
                 qs_disk := wrap64 (qs_disk s + tu_disk u), qs_vms := qs_vms s + (if tu_kind u = ''vm'' then 1 else 0)\<rparr> in
      if tu_kind u \<noteq> ''k8s''
      then s1\<lparr>qs_host_cpu := (qs_host_cpu s)(tu_host u := qs_host_cpu s (tu_host u) + tu_cpu u),
              qs_host_mem := (qs_host_mem s)(tu_host u := wrap64 (qs_host_mem s (tu_host u) + tu_mem u))\<rparr>
      else s1)"

definition count_rows :: "token_usage list \<Rightarrow> counted \<Rightarrow> counted" where
  "count_rows us s = fold count_row us s"

definition cpu_margin :: rat where "cpu_margin = 1 / 1000000000"

definition first_label :: "token_usage list \<Rightarrow> string" where
  "first_label adds = (case find (\<lambda>a. tu_label a \<noteq> []) adds of None \<Rightarrow> [] | Some a \<Rightarrow> tu_label a)"

definition host_fits :: "token_limits \<Rightarrow> counted \<Rightarrow> counted \<Rightarrow> token_usage \<Rightarrow> quota_error option" where
  "host_fits l before after a =
     (if tu_kind a = ''k8s'' then None
      else if tl_host_cpu l > 0 \<and> qs_host_cpu after (tu_host a) > tl_host_cpu l + cpu_margin
        then Some (OverHostCPU (tu_label a) (tu_cpu a) (tl_host_cpu l - qs_host_cpu before (tu_host a)) (tl_host_cpu l))
      else if tl_host_mem l > 0 \<and> qs_host_mem after (tu_host a) > tl_host_mem l
        then Some (OverHostMem (tu_label a) (tu_mem a) (wrap64 (tl_host_mem l - qs_host_mem before (tu_host a))) (tl_host_mem l))
      else None)"

fun first_refusal :: "('a \<Rightarrow> 'e option) \<Rightarrow> 'a list \<Rightarrow> 'e option" where
  "first_refusal f [] = None"
| "first_refusal f (x # xs) = (case f x of Some e \<Rightarrow> Some e | None \<Rightarrow> first_refusal f xs)"

text \<open>\<open>usage\<close> are the rows the database answers for the token; \<open>None\<close> is an error.\<close>

definition tokenFits :: "token_limits \<Rightarrow> token_usage list option \<Rightarrow> token_usage list \<Rightarrow> quota_error option" where
  "tokenFits l usage adds =
     (case usage of
        None \<Rightarrow> Some NoUsage
      | Some rows \<Rightarrow>
          (let before = count_rows (filter (\<lambda>u. \<not> list_ex (\<lambda>a. same_row a u) adds) rows) nothing_counted;
               after = count_rows adds before;
               label = first_label adds;
               need = count_rows adds nothing_counted in
           if tl_cpu l > 0 \<and> qs_cpu after > tl_cpu l + cpu_margin
             then Some (OverCPU label (qs_cpu need) (tl_cpu l - qs_cpu before) (tl_cpu l))
           else if tl_mem l > 0 \<and> qs_mem after > tl_mem l
             then Some (OverMem label (qs_mem need) (wrap64 (tl_mem l - qs_mem before)) (tl_mem l))
           else if tl_disk l > 0 \<and> qs_disk after > tl_disk l
             then Some (OverDisk label (qs_disk need) (wrap64 (tl_disk l - qs_disk before)) (tl_disk l))
           else if tl_vms l > 0 \<and> qs_vms after > tl_vms l then Some (OverVMs (tl_vms l))
           else first_refusal (host_fits l before after) adds))"

section \<open>Machines\<close>

record vm_spec =
  sp_name :: string
  sp_image :: string
  sp_disk :: int
  sp_memory :: int
  sp_vcpus :: int
  sp_network :: string
  sp_bridge :: string
  sp_isolated :: bool

definition IsolatedPrefix :: string where "IsolatedPrefix = ''nkt-t''"

definition IsolatedName :: "int \<Rightarrow> string" where
  "IsolatedName token = IsolatedPrefix @ itoa token"

definition IsIsolated :: "string \<Rightarrow> bool" where
  "IsIsolated name = (has_prefix name IsolatedPrefix \<and> trim_prefix name IsolatedPrefix \<noteq> [] \<and> snd (atoi (trim_prefix name IsolatedPrefix)))"

definition tokenVMImage :: "vm_spec \<Rightarrow> quota_error option" where
  "tokenVMImage sp = (if has_prefix (sp_image sp) ''host:'' then Some HostImage else None)"

definition tokenVMIsolate :: "api_token \<Rightarrow> vm_spec \<Rightarrow> quota_error + vm_spec" where
  "tokenVMIsolate t sp =
     (case tokenVMImage sp of
        Some e \<Rightarrow> Inl e
      | None \<Rightarrow>
          (let own = IsolatedName (tk_id t) in
           if sp_bridge sp \<noteq> [] \<or> (sp_network sp \<noteq> [] \<and> sp_network sp \<noteq> own) then Inl ForeignNetwork
           else Inr (sp\<lparr>sp_network := own, sp_isolated := True\<rparr>)))"

definition spec_fits :: "string \<Rightarrow> (string \<times> int \<times> int) list \<Rightarrow> quota_error option" where
  "spec_fits name = first_refusal (\<lambda>(what, got, limit). if limit > 0 \<and> got > limit then Some (OverSpec name what got limit) else None)"

definition vm_row :: "api_token \<Rightarrow> int \<Rightarrow> string \<Rightarrow> vm_spec \<Rightarrow> token_usage" where
  "vm_row t h host_name sp =
     \<lparr>tu_token = tk_id t, tu_kind = ''vm'', tu_host = h, tu_ref = sp_name sp, tu_label = sp_name sp @ ''@'' @ host_name,
      tu_cpu = of_int (sp_vcpus sp), tu_mem = sp_memory sp, tu_disk = sp_disk sp\<rparr>"

text \<open>Rows that fit are stored, one after another.\<close>

definition fit_and_store :: "api_token \<Rightarrow> token_usage list \<Rightarrow> token_usage list \<Rightarrow> quota_error option \<times> token_usage list" where
  "fit_and_store t adds rows =
     (case tokenFits (tp_limits (tk_perms t)) (Some (ListTokenUsage (tk_id t) rows)) adds of
        Some e \<Rightarrow> (Some e, rows)
      | None \<Rightarrow> (None, fold SetTokenUsage adds rows))"

definition tokenVMCheck :: "api_token \<Rightarrow> int \<Rightarrow> string \<Rightarrow> vm_spec \<Rightarrow> token_usage list \<Rightarrow> quota_error option \<times> token_usage list" where
  "tokenVMCheck t h host_name sp rows =
     (let l = tp_limits (tk_perms t) in
      case spec_fits (sp_name sp) [(''vcpus'', sp_vcpus sp, tl_vm_cpu l), (''memory_mb'', sp_memory sp, tl_vm_mem l), (''disk_gb'', sp_disk sp, tl_vm_disk l)] of
        Some e \<Rightarrow> (Some e, rows)
      | None \<Rightarrow> fit_and_store t [vm_row t h host_name sp] rows)"

definition lxdRef :: "string \<Rightarrow> string" where "lxdRef name = ''lxd/'' @ name"

definition lxd_fits :: "string \<Rightarrow> (string \<times> int \<times> int) list \<Rightarrow> quota_error option" where
  "lxd_fits name = first_refusal (\<lambda>(what, got, limit). if limit > 0 \<and> (got = 0 \<or> got > limit) then Some (OverSpec name what got limit) else None)"

definition lxd_row :: "api_token \<Rightarrow> int \<Rightarrow> string \<Rightarrow> string \<Rightarrow> int \<Rightarrow> int \<Rightarrow> int \<Rightarrow> token_usage" where
  "lxd_row t h host_name name cpu mem disk =
     \<lparr>tu_token = tk_id t, tu_kind = ''vm'', tu_host = h, tu_ref = lxdRef name, tu_label = name @ ''@'' @ host_name @ '' (LXD)'',
      tu_cpu = of_int cpu, tu_mem = mem, tu_disk = disk\<rparr>"

definition tokenLXDCheck ::
  "api_token \<Rightarrow> int \<Rightarrow> string \<Rightarrow> string \<Rightarrow> int \<Rightarrow> int \<Rightarrow> int \<Rightarrow> token_usage list \<Rightarrow> quota_error option \<times> token_usage list" where
  "tokenLXDCheck t h host_name name cpu mem disk rows =
     (let l = tp_limits (tk_perms t) in
      case lxd_fits name [(''vcpus'', cpu, tl_vm_cpu l), (''memory_mb'', mem, tl_vm_mem l), (''disk_gb'', disk, tl_vm_disk l)] of
        Some e \<Rightarrow> (Some e, rows)
      | None \<Rightarrow> fit_and_store t [lxd_row t h host_name name cpu mem disk] rows)"

definition lxdOwned :: "api_token option \<Rightarrow> int \<Rightarrow> string \<Rightarrow> token_usage list \<Rightarrow> token_deny option" where
  "lxdOwned by_token h name rows =
     (case by_token of
        None \<Rightarrow> None
      | Some t \<Rightarrow>
          if \<not> Limited t then None
          else if list_ex (\<lambda>u. tu_kind u = ''vm'' \<and> tu_host u = h \<and> tu_ref u = lxdRef name) (ListTokenUsage (tk_id t) rows) then None
          else Some (refuse 403 ''auth.tokenNotOwnVM'' [AStr name]))"

text \<open>A snapshot takes the disk of its machine; the last matching row names it.\<close>

definition snapshot_row :: "api_token \<Rightarrow> int \<Rightarrow> string \<Rightarrow> string \<Rightarrow> token_usage list \<Rightarrow> token_usage" where
  "snapshot_row t h machine snap rows =
     \<lparr>tu_token = tk_id t, tu_kind = ''snapshot'', tu_host = h, tu_ref = machine @ ''/'' @ snap, tu_label = machine @ ''@'' @ snap,
      tu_cpu = 0, tu_mem = 0,
      tu_disk = fold (\<lambda>u d. if tu_kind u = ''vm'' \<and> tu_host u = h \<and> tu_ref u = machine then tu_disk u else d) (ListTokenUsage (tk_id t) rows) 0\<rparr>"

definition snapshotReserve ::
  "api_token option \<Rightarrow> int \<Rightarrow> string \<Rightarrow> string \<Rightarrow> token_usage list \<Rightarrow> quota_error + (token_usage list \<Rightarrow> token_usage list)" where
  "snapshotReserve by_token h machine snap rows =
     (case by_token of
        None \<Rightarrow> Inr (\<lambda>x. x)
      | Some t \<Rightarrow>
          if \<not> Limited t then Inr (\<lambda>x. x)
          else
            (let row = snapshot_row t h machine snap rows in
             case tokenFits (tp_limits (tk_perms t)) (Some (ListTokenUsage (tk_id t) rows)) [row] of
               Some e \<Rightarrow> Inl e
             | None \<Rightarrow> Inr (SetTokenUsage row)))"

section \<open>Provisioning and its failure\<close>

text \<open>
  What \<open>handleVMProvision\<close> does for a token before it starts the job, and what the job does when it
  fails: it takes back the row of the machine, whoever holds it.
\<close>

definition provision :: "hub_db \<Rightarrow> api_token \<Rightarrow> int \<Rightarrow> string \<Rightarrow> vm_spec \<Rightarrow> token_usage list \<Rightarrow> (quota_error + vm_spec) \<times> token_usage list" where
  "provision D t h host_name sp rows =
     (if \<not> tokenHostAllowed (D\<lparr>hd_usage := rows\<rparr>) t (itoa h) then (Inl HostDenied, rows)
      else if Limited t then
        (case tokenVMIsolate t sp of
           Inl e \<Rightarrow> (Inl e, rows)
         | Inr sp' \<Rightarrow>
             (case tokenVMCheck t h host_name sp' rows of
                (Some e, rows') \<Rightarrow> (Inl e, rows')
              | (None, rows') \<Rightarrow> (Inr sp', rows')))
      else (Inr sp, rows))"

definition cutTokenAuthor :: "string \<Rightarrow> string option" where
  "cutTokenAuthor author = (if length author > 6 \<and> take 6 author = ''token:'' then Some (drop 6 author) else None)"

definition provision_failed :: "string \<Rightarrow> int \<Rightarrow> string \<Rightarrow> token_usage list \<Rightarrow> token_usage list" where
  "provision_failed author h ref rows = (if cutTokenAuthor author = None then rows else DeleteTokenUsage 0 ''vm'' h ref rows)"

text \<open>The token of a job, by the name of its author.\<close>

definition tokenByAuthor :: "api_token list option \<Rightarrow> string \<Rightarrow> (api_token \<times> bool) option" where
  "tokenByAuthor tokens author =
     (case (cutTokenAuthor author, tokens) of
        (Some name, Some ts) \<Rightarrow> map_option (\<lambda>t. (t, Limited t)) (find (\<lambda>t. tk_name t = name) ts)
      | _ \<Rightarrow> None)"

datatype author_token = ByUser | ByToken api_token | ListError | TokenGone string

definition tokenAuthorContext :: "(string \<Rightarrow> instant option) \<Rightarrow> api_token list option \<Rightarrow> string \<Rightarrow> instant \<Rightarrow> author_token" where
  "tokenAuthorContext parse tokens author now =
     (case cutTokenAuthor author of
        None \<Rightarrow> ByUser
      | Some name \<Rightarrow>
          (case tokens of
             None \<Rightarrow> ListError
           | Some ts \<Rightarrow>
               (case find (\<lambda>t. tk_name t = name) ts of
                  None \<Rightarrow> TokenGone name
                | Some t \<Rightarrow> if token_expired parse t now then TokenGone name else ByToken t)))"

section \<open>Comparison with the hosts\<close>

text \<open>
  What a host answers: the projects of its containers (\<open>None\<close>: unreachable), its machines and its
  instances of LXD (\<open>None\<close>: that list is not to be had).
\<close>

record host_report =
  hr_projects :: "string list option"
  hr_machines :: "string list option"
  hr_instances :: "string list option"

definition known_machines :: "host_report \<Rightarrow> string list" where
  "known_machines H = (case hr_machines H of None \<Rightarrow> [] | Some ms \<Rightarrow> ms @ (case hr_instances H of None \<Rightarrow> [] | Some ls \<Rightarrow> map lxdRef ls))"

definition machine_of_row :: "token_usage \<Rightarrow> string" where
  "machine_of_row u =
     (if tu_kind u = ''snapshot'' then (case last_index CHR ''/'' (tu_ref u) of None \<Rightarrow> [] | Some i \<Rightarrow> take i (tu_ref u)) else tu_ref u)"

definition row_gone :: "(int \<Rightarrow> host_report) \<Rightarrow> token_usage \<Rightarrow> bool" where
  "row_gone reports u =
     (let H = reports (tu_host u); machine = machine_of_row u;
          known = (hr_machines H \<noteq> None \<and> (\<not> has_prefix machine ''lxd/'' \<or> hr_instances H \<noteq> None)) in
      tu_kind u \<noteq> ''k8s'' \<and>
      (case hr_projects H of
         None \<Rightarrow> False
       | Some ps \<Rightarrow>
           (tu_kind u = ''compose'' \<and> tu_ref u \<notin> set ps) \<or>
           ((tu_kind u = ''vm'' \<or> tu_kind u = ''snapshot'') \<and> known \<and> machine \<notin> set (known_machines H))))"

definition reconcileTokenUsage :: "(int \<Rightarrow> host_report) \<Rightarrow> token_usage list \<Rightarrow> token_usage list" where
  "reconcileTokenUsage reports rows =
     fold (\<lambda>u rs. if row_gone reports u then DeleteTokenUsage (tu_token u) (tu_kind u) (tu_host u) (tu_ref u) rs else rs)
       (ListTokenUsage 0 rows) rows"

definition handleTokenUsageRelease :: "int \<Rightarrow> string \<Rightarrow> int \<Rightarrow> string \<Rightarrow> token_usage list \<Rightarrow> token_usage list option" where
  "handleTokenUsageRelease token kind h ref rows =
     (if kind \<notin> {''compose'', ''vm'', ''k8s''} \<or> trim_space ref = [] then None
      else Some (DeleteTokenUsage token kind h ref rows))"

text \<open>The removal of an instance or machine takes its row and those of its snapshots.\<close>

definition machine_removed :: "int \<Rightarrow> string \<Rightarrow> token_usage list \<Rightarrow> token_usage list" where
  "machine_removed h ref rows = DeleteTokenUsagePrefix ''snapshot'' h (ref @ ''/'') (DeleteTokenUsage 0 ''vm'' h ref rows)"

end
