(* ===== verification/QuotaTheorems.thy ===== *)
theory QuotaTheorems
  imports TokenQuota
begin

text \<open>
  The accounting keeps the ceilings: while operations come one after another, whatever is created,
  removed, released or compared with the hosts, the rows of a token never exceed its limits. The
  findings at the end show what happens when they do not come one after another, and how a row can
  be lost or gained behind the back of its token.
\<close>

section \<open>Sums of rows\<close>

abbreviation rows_of :: "int \<Rightarrow> token_usage list \<Rightarrow> token_usage list" where
  "rows_of i rows \<equiv> filter (\<lambda>r. tu_token r = i) rows"

definition on_machine_host :: "int \<Rightarrow> token_usage \<Rightarrow> bool" where
  "on_machine_host h r \<longleftrightarrow> tu_kind r \<noteq> ''k8s'' \<and> tu_host r = h"

definition sum_by :: "(token_usage \<Rightarrow> 'a::comm_monoid_add) \<Rightarrow> token_usage list \<Rightarrow> 'a" where
  "sum_by f rs = sum_list (map f rs)"

text \<open>Sizes that no sum of a million rows takes out of 64 bits.\<close>

definition sane_row :: "token_usage \<Rightarrow> bool" where
  "sane_row r \<longleftrightarrow> 0 \<le> tu_cpu r \<and> 0 \<le> tu_mem r \<and> tu_mem r \<le> 2 ^ 40 \<and> 0 \<le> tu_disk r \<and> tu_disk r \<le> 2 ^ 40"

definition within_limits :: "token_limits \<Rightarrow> token_usage list \<Rightarrow> bool" where
  "within_limits l rs \<longleftrightarrow>
     (tl_cpu l > 0 \<longrightarrow> sum_by tu_cpu rs \<le> tl_cpu l + cpu_margin) \<and>
     (tl_mem l > 0 \<longrightarrow> sum_by tu_mem rs \<le> tl_mem l) \<and>
     (tl_disk l > 0 \<longrightarrow> sum_by tu_disk rs \<le> tl_disk l) \<and>
     (tl_vms l > 0 \<longrightarrow> int (length (filter (\<lambda>r. tu_kind r = ''vm'') rs)) \<le> tl_vms l) \<and>
     (\<forall>h. (tl_host_cpu l > 0 \<longrightarrow> sum_by tu_cpu (filter (on_machine_host h) rs) \<le> tl_host_cpu l + cpu_margin) \<and>
          (tl_host_mem l > 0 \<longrightarrow> sum_by tu_mem (filter (on_machine_host h) rs) \<le> tl_host_mem l))"

lemma sum_by_simps [simp]: "sum_by f [] = 0" "sum_by f (r # rs) = f r + sum_by f rs" "sum_by f (rs @ qs) = sum_by f rs + sum_by f qs"
  by (simp_all add: sum_by_def)

lemma sum_by_nonneg:
  fixes f :: "token_usage \<Rightarrow> 'a::ordered_comm_monoid_add"
  shows "\<forall>r\<in>set rs. 0 \<le> f r \<Longrightarrow> 0 \<le> sum_by f rs"
  by (induction rs) auto

lemma sum_by_filter:
  fixes f :: "token_usage \<Rightarrow> 'a::ordered_comm_monoid_add"
  shows "\<forall>r\<in>set rs. 0 \<le> f r \<Longrightarrow> sum_by f (filter P rs) \<le> sum_by f rs"
  by (induction rs) (auto intro: add_mono add_increasing)

lemma sum_by_bound: "\<forall>r\<in>set rs. f r \<le> (b::int) \<Longrightarrow> sum_by f rs \<le> int (length rs) * b"
  by (induction rs) (auto simp: algebra_simps)

lemma sane_sums:
  assumes "\<forall>r\<in>set rs. sane_row r" "length rs \<le> 2 ^ 20"
  shows "0 \<le> sum_by tu_mem (filter P rs)" "sum_by tu_mem (filter P rs) \<le> 2 ^ 60"
    "0 \<le> sum_by tu_disk (filter P rs)" "sum_by tu_disk (filter P rs) \<le> 2 ^ 60"
proof -
  have len: "int (length (filter P rs)) * 2 ^ 40 \<le> 2 ^ 60"
    using le_trans [OF length_filter_le assms(2), of P] by simp
  show "0 \<le> sum_by tu_mem (filter P rs)" "0 \<le> sum_by tu_disk (filter P rs)"
    using assms(1) by (auto intro!: sum_by_nonneg simp: sane_row_def)
  show "sum_by tu_mem (filter P rs) \<le> 2 ^ 60" "sum_by tu_disk (filter P rs) \<le> 2 ^ 60"
    using sum_by_bound [of "filter P rs" tu_mem "2 ^ 40"] sum_by_bound [of "filter P rs" tu_disk "2 ^ 40"] assms(1) len
    by (auto simp: sane_row_def)
qed

text \<open>Counting is summing while the sums stay small.\<close>

definition small_sums :: "token_usage list \<Rightarrow> bool" where
  "small_sums rs \<longleftrightarrow> (\<forall>r\<in>set rs. sane_row r) \<and> length rs \<le> 2 ^ 20"

lemma small_snoc: "small_sums (rs @ [r]) \<Longrightarrow> small_sums rs \<and> sane_row r"
  by (simp add: small_sums_def)

lemma count_rows_sums:
  assumes "small_sums rs"
  shows "count_rows rs nothing_counted =
    \<lparr>qs_cpu = sum_by tu_cpu rs, qs_mem = sum_by tu_mem rs, qs_disk = sum_by tu_disk rs,
     qs_vms = int (length (filter (\<lambda>r. tu_kind r = ''vm'') rs)),
     qs_host_cpu = (\<lambda>h. sum_by tu_cpu (filter (on_machine_host h) rs)),
     qs_host_mem = (\<lambda>h. sum_by tu_mem (filter (on_machine_host h) rs))\<rparr>"
  using assms
proof (induction rs rule: rev_induct)
  case Nil
  show ?case by (simp add: count_rows_def nothing_counted_def)
next
  case (snoc r rs)
  note IH = snoc.IH [OF conjunct1 [OF small_snoc [OF snoc.prems]]]
  have all: "wrap64 (sum_by tu_mem (filter P (rs @ [r]))) = sum_by tu_mem (filter P (rs @ [r]))"
    "wrap64 (sum_by tu_disk (filter P (rs @ [r]))) = sum_by tu_disk (filter P (rs @ [r]))" for P
    using sane_sums [of "rs @ [r]" P] snoc.prems unfolding small_sums_def by (intro wrap64_id; simp)+
  have m: "wrap64 (sum_by tu_mem rs + tu_mem r) = sum_by tu_mem rs + tu_mem r"
    "wrap64 (sum_by tu_disk rs + tu_disk r) = sum_by tu_disk rs + tu_disk r"
    using all [of "\<lambda>_. True"] by simp_all
  have h: "wrap64 (sum_by tu_mem (filter (on_machine_host (tu_host r)) rs) + tu_mem r) =
      sum_by tu_mem (filter (on_machine_host (tu_host r)) rs) + tu_mem r" if "tu_kind r \<noteq> ''k8s''"
    using all(1) [of "on_machine_host (tu_host r)"] that by (simp add: on_machine_host_def)
  have o: "on_machine_host x r \<longleftrightarrow> tu_kind r \<noteq> ''k8s'' \<and> x = tu_host r" for x
    by (auto simp: on_machine_host_def)
  have "count_rows (rs @ [r]) nothing_counted = count_row r (count_rows rs nothing_counted)"
    by (simp add: count_rows_def)
  then show ?case
    unfolding IH using m h o by (auto simp: count_row_def Let_def fun_eq_iff)
qed

lemma count_rows_append: "count_rows qs (count_rows rs s) = count_rows (rs @ qs) s"
  by (simp add: count_rows_def)

lemma first_refusal_None: "first_refusal f xs = None \<longleftrightarrow> (\<forall>x\<in>set xs. f x = None)"
  by (induction xs) (auto split: option.splits)

section \<open>Fewer rows stay within the limits\<close>

lemma within_filter:
  assumes "within_limits l rs" "\<forall>r\<in>set rs. sane_row r"
  shows "within_limits l (filter P rs)"
proof -
  have le: "sum_by tu_cpu (filter P qs) \<le> sum_by tu_cpu qs" "sum_by tu_mem (filter P qs) \<le> sum_by tu_mem qs"
    "sum_by tu_disk (filter P qs) \<le> sum_by tu_disk qs" if "set qs \<subseteq> set rs" for qs
    using assms(2) that by (auto intro!: sum_by_filter simp: sane_row_def)
  have swap: "filter Q (filter P rs) = filter P (filter Q rs)" for Q by (simp add: conj_commute)
  have vms: "length (filter (\<lambda>r. tu_kind r = ''vm'') (filter P rs)) \<le> length (filter (\<lambda>r. tu_kind r = ''vm'') rs)"
    unfolding swap by (rule length_filter_le)
  show ?thesis
    using assms(1) le [of rs] vms le(1,2) [of "filter (on_machine_host h) rs" for h] unfolding within_limits_def swap
    by (meson dual_order.trans of_nat_le_iff order_refl filter_is_subset)
qed

text \<open>New rows that pass the check keep the limits.\<close>

lemma fits_within:
  assumes rs: "within_limits l rs" "small_sums (rs @ adds)" and fits: "tokenFits l (Some rs) adds = None"
  shows "within_limits l (filter (\<lambda>u. \<not> list_ex (\<lambda>a. same_row a u) adds) rs @ adds)"
proof -
  let ?old = "filter (\<lambda>u. \<not> list_ex (\<lambda>a. same_row a u) adds) rs"
  have small: "small_sums (?old @ adds)" "small_sums ?old"
    using rs(2) add_le_mono1 [OF length_filter_le, of "\<lambda>u. \<not> list_ex (\<lambda>a. same_row a u) adds" rs "length adds", THEN le_trans]
      le_trans [OF length_filter_le, of rs "2 ^ 20"] by (auto simp: small_sums_def)
  note after = count_rows_sums [OF small(1)] and before = count_rows_sums [OF small(2)]
  have old: "within_limits l ?old" using rs by (intro within_filter) (auto simp: small_sums_def)
  have app: "count_rows adds (count_rows ?old nothing_counted) = count_rows (?old @ adds) nothing_counted"
    by (rule count_rows_append)
  from fits have
    total: "tl_cpu l > 0 \<longrightarrow> \<not> sum_by tu_cpu (?old @ adds) > tl_cpu l + cpu_margin"
      "tl_mem l > 0 \<longrightarrow> \<not> sum_by tu_mem (?old @ adds) > tl_mem l"
      "tl_disk l > 0 \<longrightarrow> \<not> sum_by tu_disk (?old @ adds) > tl_disk l"
      "tl_vms l > 0 \<longrightarrow> \<not> int (length (filter (\<lambda>r. tu_kind r = ''vm'') (?old @ adds))) > tl_vms l"
    and each: "\<forall>a\<in>set adds. host_fits l (count_rows ?old nothing_counted) (count_rows (?old @ adds) nothing_counted) a = None"
    unfolding tokenFits_def option.case Let_def app after by (simp_all add: first_refusal_None after del: sum_by_simps filter_append split: if_splits)
  have host: "(tl_host_cpu l > 0 \<longrightarrow> sum_by tu_cpu (filter (on_machine_host h) (?old @ adds)) \<le> tl_host_cpu l + cpu_margin) \<and>
      (tl_host_mem l > 0 \<longrightarrow> sum_by tu_mem (filter (on_machine_host h) (?old @ adds)) \<le> tl_host_mem l)" for h
  proof (cases "\<exists>a\<in>set adds. on_machine_host h a")
    case True
    then obtain a where "a \<in> set adds" "tu_kind a \<noteq> ''k8s''" "tu_host a = h" by (auto simp: on_machine_host_def)
    with each show ?thesis
      unfolding after by (auto simp: host_fits_def simp del: sum_by_simps filter_append split: if_splits)
  next
    case False
    then have "filter (on_machine_host h) adds = []" by (simp add: filter_empty_conv)
    with old show ?thesis by (simp add: within_limits_def)
  qed
  show ?thesis
    unfolding within_limits_def using total host by (auto simp: not_less simp del: sum_by_simps filter_append)
qed

section \<open>Storing rows\<close>

definition distinct_rows :: "token_usage list \<Rightarrow> bool" where
  "distinct_rows adds \<longleftrightarrow> distinct (map (\<lambda>a. (tu_kind a, tu_host a, tu_ref a)) adds)"

lemma store_all:
  assumes "\<forall>a\<in>set adds. tu_token a = i" "distinct_rows adds"
  shows "fold SetTokenUsage adds rows = filter (\<lambda>r. \<not> (tu_token r = i \<and> list_ex (\<lambda>a. same_row a r) adds)) rows @ adds"
  using assms
proof (induction adds rule: rev_induct)
  case (snoc a adds)
  have IH: "fold SetTokenUsage adds rows = filter (\<lambda>r. \<not> (tu_token r = i \<and> list_ex (\<lambda>a. same_row a r) adds)) rows @ adds"
    using snoc by (simp add: distinct_rows_def)
  have "(tu_kind a, tu_host a, tu_ref a) \<notin> (\<lambda>a. (tu_kind a, tu_host a, tu_ref a)) ` set adds"
    using snoc.prems(2) by (simp add: distinct_rows_def)
  then have "filter (\<lambda>r. \<not> (tu_token r = tu_token a \<and> same_row r a)) adds = adds"
    by (intro filter_True) (auto simp: same_row_def image_iff)
  moreover have "same_row r a \<longleftrightarrow> same_row a r" for r by (auto simp: same_row_def)
  moreover have "fold SetTokenUsage (adds @ [a]) rows =
      filter (\<lambda>r. \<not> (tu_token r = tu_token a \<and> same_row r a)) (fold SetTokenUsage adds rows) @ [a]"
    by (simp add: SetTokenUsage_def [of a])
  ultimately show ?case
    using snoc.prems(1) unfolding IH by (auto intro!: filter_cong)
qed simp

lemma store_own:
  assumes "\<forall>a\<in>set adds. tu_token a = i" "distinct_rows adds"
  shows "rows_of i (fold SetTokenUsage adds rows) = filter (\<lambda>u. \<not> list_ex (\<lambda>a. same_row a u) adds) (rows_of i rows) @ adds"
    "j \<noteq> i \<Longrightarrow> rows_of j (fold SetTokenUsage adds rows) = rows_of j rows"
  unfolding store_all [OF assms] using assms(1) by (auto intro!: filter_cong)

section \<open>Operations\<close>

datatype account_op =
    OpProvision hub_db api_token int string vm_spec
  | OpLXD api_token int string string int int int
  | OpStore api_token "token_usage list"
  | OpSnapshot api_token int string string
  | OpFailed string int string
  | OpRemoved int string
  | OpReconcile "int \<Rightarrow> host_report"
  | OpRelease int string int string

fun account_step :: "account_op \<Rightarrow> token_usage list \<Rightarrow> token_usage list" where
  "account_step (OpProvision D t h host_name sp) rows = snd (provision D t h host_name sp rows)"
| "account_step (OpLXD t h host_name name cpu mem disk) rows = snd (tokenLXDCheck t h host_name name cpu mem disk rows)"
| "account_step (OpStore t adds) rows = snd (fit_and_store t adds rows)"
| "account_step (OpSnapshot t h machine snap) rows =
     (case snapshotReserve (Some t) h machine snap rows of Inl _ \<Rightarrow> rows | Inr commit \<Rightarrow> commit rows)"
| "account_step (OpFailed author h ref) rows = provision_failed author h ref rows"
| "account_step (OpRemoved h ref) rows = machine_removed h ref rows"
| "account_step (OpReconcile reports) rows = reconcileTokenUsage reports rows"
| "account_step (OpRelease i kind h ref) rows = (case handleTokenUsageRelease i kind h ref rows of None \<Rightarrow> rows | Some rs \<Rightarrow> rs)"

text \<open>What the operations bring in: sizes that validation bounds, rows of their own token.\<close>

fun sane_op :: "account_op \<Rightarrow> bool" where
  "sane_op (OpProvision D t h host_name sp) \<longleftrightarrow> tk_id t \<noteq> 0 \<and> sane_row (vm_row t h host_name sp)"
| "sane_op (OpLXD t h host_name name cpu mem disk) \<longleftrightarrow> tk_id t \<noteq> 0 \<and> sane_row (lxd_row t h host_name name cpu mem disk)"
| "sane_op (OpStore t adds) \<longleftrightarrow> tk_id t \<noteq> 0 \<and> distinct_rows adds \<and> (\<forall>a\<in>set adds. sane_row a \<and> tu_token a = tk_id t)"
| "sane_op (OpSnapshot t h machine snap) \<longleftrightarrow> tk_id t \<noteq> 0"
| "sane_op _ \<longleftrightarrow> True"

fun op_token :: "account_op \<Rightarrow> api_token option" where
  "op_token (OpProvision D t h host_name sp) = Some t"
| "op_token (OpLXD t h host_name name cpu mem disk) = Some t"
| "op_token (OpStore t adds) = Some t"
| "op_token (OpSnapshot t h machine snap) = Some t"
| "op_token _ = None"

fun op_rows :: "account_op \<Rightarrow> nat" where
  "op_rows (OpStore t adds) = length adds"
| "op_rows _ = 1"

text \<open>A step either drops rows or stores rows of its token that fit.\<close>

definition drops :: "token_usage list \<Rightarrow> token_usage list \<Rightarrow> bool" where
  "drops rows rows' \<longleftrightarrow> (\<exists>P. rows' = filter P rows)"

lemma drops_refl: "drops rows rows"
  unfolding drops_def by (rule exI [of _ "\<lambda>_. True"]) simp

lemma drops_filter: "drops rows (filter P rows)"
  unfolding drops_def by blast

lemma drops_trans: "drops a b \<Longrightarrow> drops b c \<Longrightarrow> drops a c"
  unfolding drops_def by (metis filter_filter)

lemma drops_delete: "drops rows (DeleteTokenUsage i kind h ref rows)" "drops rows (DeleteTokenUsagePrefix kind h pre rows)"
  unfolding DeleteTokenUsage_def DeleteTokenUsagePrefix_def by (rule drops_filter)+

lemma drops_fold: "(\<And>u rs. drops rs (f u rs)) \<Longrightarrow> drops rows (fold f us rows)"
  by (induction us arbitrary: rows) (auto intro: drops_refl drops_trans)

lemma drops_reconcile: "drops rows (reconcileTokenUsage reports rows)"
  unfolding reconcileTokenUsage_def by (rule drops_fold) (simp add: drops_refl drops_delete)

inductive stores :: "account_op \<Rightarrow> token_usage list \<Rightarrow> token_usage list \<Rightarrow> bool" for q where
  fitting: "op_token q = Some t \<Longrightarrow> \<forall>a\<in>set adds. sane_row a \<and> tu_token a = tk_id t \<Longrightarrow> distinct_rows adds \<Longrightarrow> length adds \<le> op_rows q \<Longrightarrow>
     tokenFits (tp_limits (tk_perms t)) (Some (rows_of (tk_id t) rows)) adds = None \<Longrightarrow> stores q rows (fold SetTokenUsage adds rows)"
| dropping: "drops rows rows' \<Longrightarrow> stores q rows rows'"

lemma own_rows: "i \<noteq> 0 \<Longrightarrow> ListTokenUsage i rows = rows_of i rows"
  by (simp add: ListTokenUsage_def)

lemma fit_and_store_stores:
  assumes "op_token q = Some t" "tk_id t \<noteq> 0" "\<forall>a\<in>set adds. sane_row a \<and> tu_token a = tk_id t" "distinct_rows adds" "length adds \<le> op_rows q"
  shows "stores q rows (snd (fit_and_store t adds rows))"
  using fitting [OF assms(1,3,4,5)] dropping [OF drops_refl]
  by (auto simp: fit_and_store_def own_rows [OF assms(2)] split: option.split)

lemma one_row: "distinct_rows [a]"
  by (simp add: distinct_rows_def)

lemma snapshot_disk:
  assumes "\<forall>r\<in>set rows. sane_row r"
  shows "sane_row (snapshot_row t h machine snap rows)"
proof -
  have "0 \<le> fold (\<lambda>u d. if P u then tu_disk u else d) us d \<and> fold (\<lambda>u d. if P u then tu_disk u else d) us d \<le> 2 ^ 40"
    if "\<forall>u\<in>set us. sane_row u" "0 \<le> d" "d \<le> 2 ^ 40" for P us d
    using that by (induction us arbitrary: d) (auto simp: sane_row_def)
  from this [of "ListTokenUsage (tk_id t) rows" 0] assms show ?thesis
    by (auto simp: sane_row_def snapshot_row_def ListTokenUsage_def)
qed

lemma vm_check_rows:
  "snd (tokenVMCheck t h host_name sp rows) \<in> {rows, snd (fit_and_store t [vm_row t h host_name sp] rows)}"
  by (simp add: tokenVMCheck_def Let_def split: option.split)

lemma isolated_row: "tokenVMIsolate t sp = Inr sp' \<Longrightarrow> vm_row t h host_name sp' = vm_row t h host_name sp"
  by (auto simp: tokenVMIsolate_def vm_row_def Let_def split: option.splits if_splits)

lemma provision_rows:
  "snd (provision D t h host_name sp rows) \<in> {rows, snd (fit_and_store t [vm_row t h host_name sp] rows)}"
proof (cases "tokenVMIsolate t sp")
  case (Inr sp')
  obtain e rows' where c: "tokenVMCheck t h host_name sp' rows = (e, rows')" by (cases "tokenVMCheck t h host_name sp' rows")
  then have "rows' \<in> {rows, snd (fit_and_store t [vm_row t h host_name sp] rows)}"
    using vm_check_rows [of t h host_name sp' rows] isolated_row [OF Inr] by simp
  then show ?thesis by (cases e) (auto simp: provision_def Inr c)
qed (simp add: provision_def)

lemma step_stores:
  assumes "sane_op q" "\<forall>r\<in>set rows. sane_row r"
  shows "stores q rows (account_step q rows)"
proof (cases q)
  case (OpProvision D t h host_name sp)
  have "stores q rows (snd (fit_and_store t [vm_row t h host_name sp] rows))"
    using assms by (intro fit_and_store_stores) (auto simp: OpProvision one_row vm_row_def)
  then show ?thesis
    using provision_rows [of D t h host_name sp rows] dropping [OF drops_refl, of q rows] by (auto simp: OpProvision)
next
  case (OpLXD t h host_name name cpu mem disk)
  then show ?thesis
    using assms fit_and_store_stores [where q = q and t = t and adds = "[lxd_row t h host_name name cpu mem disk]" and rows = rows]
      dropping [OF drops_refl]
    by (auto simp: tokenLXDCheck_def Let_def one_row lxd_row_def split: option.splits)
next
  case (OpStore t adds)
  with assms show ?thesis by (auto intro!: fit_and_store_stores)
next
  case (OpSnapshot t h machine snap)
  have "tu_token (snapshot_row t h machine snap rows) = tk_id t" by (simp add: snapshot_row_def)
  then have "stores q rows (SetTokenUsage (snapshot_row t h machine snap rows) rows)"
    if "tokenFits (tp_limits (tk_perms t)) (Some (rows_of (tk_id t) rows)) [snapshot_row t h machine snap rows] = None"
    using fitting [where q = q and t = t and adds = "[snapshot_row t h machine snap rows]" and rows = rows] that
      snapshot_disk [OF assms(2)] by (simp add: OpSnapshot one_row)
  with assms(1) show ?thesis
    using dropping [OF drops_refl, of q rows]
    by (auto simp: OpSnapshot snapshotReserve_def Let_def own_rows split: option.split)
qed (auto intro!: dropping drops_refl drops_delete drops_reconcile intro: drops_trans
  simp: provision_failed_def machine_removed_def handleTokenUsageRelease_def split: option.splits)

section \<open>The limits hold\<close>

definition accounted :: "api_token \<Rightarrow> nat \<Rightarrow> token_usage list \<Rightarrow> bool" where
  "accounted t n rows \<longleftrightarrow> (\<forall>r\<in>set rows. sane_row r) \<and> length rows \<le> n \<and>
     within_limits (tp_limits (tk_perms t)) (rows_of (tk_id t) rows)"

lemma accounted_step:
  assumes "accounted t n rows" "stores q rows rows'" "n + op_rows q \<le> 2 ^ 20" "\<And>u. op_token q = Some u \<Longrightarrow> tk_id u = tk_id t \<Longrightarrow> u = t"
  shows "accounted t (n + op_rows q) rows'"
  using assms(2)
proof cases
  case (fitting u adds)
  have own: "\<forall>a\<in>set adds. tu_token a = tk_id u" using fitting(3) by blast
  have len: "length rows' \<le> n + op_rows q" "\<forall>r\<in>set rows'. sane_row r"
    unfolding fitting(1) store_all [OF own fitting(4)]
    using assms(1) fitting(3,5) add_le_mono [OF le_trans [OF length_filter_le] fitting(5)] by (auto simp: accounted_def)
  show ?thesis
  proof (cases "tk_id u = tk_id t")
    case True
    then have u: "u = t" using assms(4) fitting(2) by blast
    have "length rows \<le> n" using assms(1) by (simp add: accounted_def)
    then have "length (rows_of (tk_id t) rows) + length adds \<le> 2 ^ 20"
      using assms(3) fitting(5) length_filter_le [of "\<lambda>r. tu_token r = tk_id t" rows] by linarith
    then have "small_sums (rows_of (tk_id t) rows @ adds)"
      using assms(1) fitting(3) by (auto simp: accounted_def small_sums_def)
    with fits_within [OF _ this] fitting(6) assms(1) len show ?thesis
      using fitting(3,4) unfolding u fitting(1) by (simp add: accounted_def store_own)
  next
    case False
    then have "rows_of (tk_id t) rows' = rows_of (tk_id t) rows"
      unfolding fitting(1) using store_own(2) [OF own fitting(4), of "tk_id t"] by simp
    with assms(1) len show ?thesis by (simp add: accounted_def)
  qed
next
  case dropping
  then obtain P where P: "rows' = filter P rows" by (auto simp: drops_def)
  have "rows_of (tk_id t) rows' = filter P (rows_of (tk_id t) rows)" by (simp add: P conj_commute)
  then show ?thesis
    using assms(1) within_filter [of "tp_limits (tk_perms t)" "rows_of (tk_id t) rows" P] le_trans [OF length_filter_le, of rows n P]
    by (auto simp: accounted_def P)
qed

lemma within_nothing: "0 \<le> tl_cpu l \<Longrightarrow> within_limits l []"
  by (simp add: within_limits_def cpu_margin_def)

lemma run_accounted:
  assumes "accounted t n rows" "n + sum_list (map op_rows ops) \<le> 2 ^ 20" "\<forall>q\<in>set ops. sane_op q"
    and "\<forall>q\<in>set ops. \<forall>u. op_token q = Some u \<longrightarrow> tk_id u = tk_id t \<longrightarrow> u = t"
  shows "accounted t (n + sum_list (map op_rows ops)) (fold account_step ops rows)"
  using assms
proof (induction ops arbitrary: n rows)
  case (Cons q ops)
  have "stores q rows (account_step q rows)"
    using Cons.prems(1,3) by (intro step_stores) (auto simp: accounted_def)
  then have "accounted t (n + op_rows q) (account_step q rows)"
    using Cons.prems by (intro accounted_step [OF Cons.prems(1)]) auto
  from Cons.IH [OF this] Cons.prems show ?case by (simp add: add.assoc)
qed simp


section \<open>A run\<close>

definition small_limits :: token_limits where
  "small_limits = \<lparr>tl_cpu = 4, tl_mem = 4096, tl_disk = 50, tl_host_cpu = 4, tl_host_mem = 4096, tl_vms = 2, tl_vm_cpu = 2,
     tl_vm_mem = 2048, tl_vm_disk = 20, tl_per_hour = 0, tl_ports = 0\<rparr>"

definition quota_token :: "int \<Rightarrow> string \<Rightarrow> token_limits \<Rightarrow> api_token" where
  "quota_token i name l = \<lparr>tk_id = i, tk_name = name, tk_key = [], tk_role = ''custom'', tk_hosts = [], tk_groups = [], tk_ips = [],
     tk_expires = [], tk_edge = False, tk_perms = \<lparr>tp_actions = [TokenActVMManage], tp_pipelines = [], tp_scripts = [], tp_limits = l\<rparr>\<rparr>"

definition stack_row :: "int \<Rightarrow> string \<Rightarrow> token_usage" where
  "stack_row i ref = \<lparr>tu_token = i, tu_kind = ''compose'', tu_host = 1, tu_ref = ref, tu_label = ref, tu_cpu = 3, tu_mem = 2048, tu_disk = 0\<rparr>"

definition quota_ops :: "account_op list" where
  "quota_ops = [OpStore (quota_token 7 ''ci'' small_limits) [stack_row 7 ''shop''], OpStore (quota_token 7 ''ci'' small_limits) [stack_row 7 ''blog'']]"

lemma fits_alone: "tokenFits small_limits (Some []) [stack_row 7 ref] = None"
  by (simp add: tokenFits_def count_rows_def count_row_def nothing_counted_def stack_row_def small_limits_def host_fits_def wrap64_def
      cpu_margin_def Let_def)


section \<open>Where the accounting fails\<close>

text \<open>
  A stack is checked when its deployment starts and entered when it ends. Two deployments of one
  token that overlap are both checked against the same rows and both entered.
\<close>

lemma overlapping_stacks_exceed:
  "tokenFits small_limits (Some (ListTokenUsage 7 [])) [stack_row 7 ''shop''] = None \<and>
   tokenFits small_limits (Some (ListTokenUsage 7 [])) [stack_row 7 ''blog''] = None \<and>
   \<not> within_limits small_limits (rows_of 7 (SetTokenUsage (stack_row 7 ''blog'') (SetTokenUsage (stack_row 7 ''shop'') [])))"
  using fits_alone
  by (simp add: ListTokenUsage_def SetTokenUsage_def same_row_def within_limits_def sum_by_def)
    (simp add: stack_row_def small_limits_def cpu_margin_def)

text \<open>
  Asking for a machine under the name of one that another token holds on the same host enters it for
  the asking token as well, which from then on owns it; and when the job fails because the machine
  exists, the rows of both are taken back.
\<close>

definition foreign_row :: token_usage where
  "foreign_row = \<lparr>tu_token = 8, tu_kind = ''vm'', tu_host = 1, tu_ref = ''db'', tu_label = ''db'', tu_cpu = 1, tu_mem = 512, tu_disk = 10\<rparr>"

definition claimed_spec :: vm_spec where
  "claimed_spec = \<lparr>sp_name = ''db'', sp_image = ''debian'', sp_disk = 10, sp_memory = 512, sp_vcpus = 1, sp_network = [], sp_bridge = [], sp_isolated = False\<rparr>"

lemma foreign_machine_claimed:
  assumes D: "tokenHostAllowed (D\<lparr>hd_usage := [foreign_row]\<rparr>) t ''1''" and t: "t = quota_token 7 ''ci'' small_limits"
  shows "let rows = snd (provision D t 1 ''kvm'' claimed_spec [foreign_row]) in
    tokenOwnsVM (D\<lparr>hd_usage := rows\<rparr>) t ''1'' ''db'' = None \<and> provision_failed ''token:ci'' 1 ''db'' rows = []"
proof -
  have one: "itoa 1 = ''1''" "atoi ''1'' = (1, True)" by code_simp+
  have iso: "tokenVMIsolate t claimed_spec = Inr (claimed_spec\<lparr>sp_network := IsolatedName 7, sp_isolated := True\<rparr>)"
    by (simp add: t quota_token_def tokenVMIsolate_def tokenVMImage_def claimed_spec_def has_prefix_def)
  let ?row = "vm_row t 1 ''kvm'' claimed_spec"
  have "tokenVMCheck t 1 ''kvm'' (claimed_spec\<lparr>sp_network := IsolatedName 7, sp_isolated := True\<rparr>) [foreign_row] = (None, [foreign_row, ?row])"
    by (simp add: tokenVMCheck_def fit_and_store_def spec_fits_def tokenFits_def ListTokenUsage_def vm_row_def claimed_spec_def
        count_rows_def count_row_def nothing_counted_def host_fits_def wrap64_def cpu_margin_def small_limits_def t quota_token_def
        SetTokenUsage_def foreign_row_def Let_def)
  then have rows: "snd (provision D t 1 ''kvm'' claimed_spec [foreign_row]) = [foreign_row, ?row]"
    using D by (simp add: provision_def one iso Limited_def) (simp add: t quota_token_def)
  have "tokenOwnsVM (D\<lparr>hd_usage := [foreign_row, ?row]\<rparr>) t ''1'' ''db'' = None"
    by (simp add: tokenOwnsVM_def one ListTokenUsage_def vm_row_def claimed_spec_def)
  moreover have "provision_failed ''token:ci'' 1 ''db'' [foreign_row, ?row] = []"
    by (simp add: provision_failed_def cutTokenAuthor_def DeleteTokenUsage_def vm_row_def claimed_spec_def foreign_row_def)
  ultimately show ?thesis by (simp add: rows)
qed

text \<open>
  A machine is entered when it is asked for and made later. The comparison with the hosts, which a
  token can start itself by asking what it occupies, takes back the row of a machine still waiting in
  the queue; it is made all the same, counted no more.
\<close>

lemma waiting_machine_freed:
  "reconcileTokenUsage (\<lambda>_. \<lparr>hr_projects = Some [], hr_machines = Some [], hr_instances = None\<rparr>) [foreign_row] = []"
  by (simp add: reconcileTokenUsage_def ListTokenUsage_def row_gone_def machine_of_row_def known_machines_def foreign_row_def
      has_prefix_def DeleteTokenUsage_def)

end
