(* ===== verification/PortPool.thy ===== *)
theory PortPool
  imports TokenModel FlyRender
begin

text \<open>
  Ports of a host for its machines: the pool an administrator gives a host and the ports handed out
  from it (internal/hub/vmports.go, and the ports that clusters of tokens reserve, vmcluster.go), and
  the forwarding on the host itself (internal/control/portforward.go). The mutex of the pool makes
  every handler one step. Values are stored as JSON under a key; the model stores the values. Each
  call that can fail answers by a parameter.
\<close>

section \<open>Forwarding on a host\<close>

record port_rule =
  pr_host_port :: int
  pr_vm_port :: int
  pr_proto :: string

record port_forward =
  pf_name :: string
  pf_ip :: string
  pf_ports :: "int list"
  pf_rules :: "port_rule list"

definition rule_proto :: "port_rule \<Rightarrow> string" where
  "rule_proto r = (if pr_proto r = ''udp'' then ''udp'' else ''tcp'')"

definition all_port_rules :: "port_forward \<Rightarrow> port_rule list" where
  "all_port_rules pf = pf_rules pf @ map (\<lambda>p. \<lparr>pr_host_port = p, pr_vm_port = p, pr_proto = []\<rparr>) (pf_ports pf)"

definition pf_name_ok :: "string \<Rightarrow> bool" where
  "pf_name_ok s =
     (s \<noteq> [] \<and> is_alnum (hd s) \<and> length s \<le> 64 \<and>
      list_all (\<lambda>c. is_alnum c \<or> c = CHR ''.'' \<or> c = CHR ''_'' \<or> c = CHR ''-'') (tl s))"

text \<open>\<open>net.ParseIP(s).To4() != nil\<close>\<close>

fun has_to4 :: "ip \<Rightarrow> bool" where
  "has_to4 (V4 w) = True"
| "has_to4 (V6 w z) = (z = [] \<and> is4 (unmap (V6 w z)))"
| "has_to4 NoIP = False"

definition ipv4_text :: "string \<Rightarrow> bool" where
  "ipv4_text s = (case parse_addr s of None \<Rightarrow> False | Some a \<Rightarrow> has_to4 a)"

definition bad_port_rule :: "port_rule \<Rightarrow> bool" where
  "bad_port_rule r =
     (pr_host_port r < 1 \<or> pr_host_port r > 65535 \<or> pr_vm_port r < 1 \<or> pr_vm_port r > 65535 \<or>
      (pr_proto r \<noteq> [] \<and> pr_proto r \<noteq> ''tcp'' \<and> pr_proto r \<noteq> ''udp''))"

text \<open>What a host keeps: a file for every forward, the script, and the script that was run last.\<close>

record forward_host =
  fh_files :: "(string \<times> port_forward) list"
  fh_script :: string
  fh_ran :: string

text \<open>Which of the commands succeed: whether commands may be run at all, removing or writing the file of the
  forward, listing, writing the script and the unit, running the script.\<close>

record forward_run =
  rn_local :: bool
  rn_rm :: bool
  rn_file :: bool
  rn_list :: bool
  rn_script :: bool
  rn_unit :: bool
  rn_exec :: bool

definition forward_list :: "forward_host \<Rightarrow> port_forward list" where
  "forward_list h = sort_key pf_name (map snd (fh_files h))"

definition rule_lines :: "port_forward \<Rightarrow> port_rule \<Rightarrow> string" where
  "rule_lines pf r =
     ''# '' @ pf_name pf @ nl @ ''iptables -t nat -A NKT-PF -p '' @ rule_proto r @ '' --dport '' @ itoa (pr_host_port r) @
       '' -j DNAT --to-destination '' @ pf_ip pf @ '':'' @ itoa (pr_vm_port r) @ nl @
     ''iptables -A NKT-PF -p '' @ rule_proto r @ '' -d '' @ pf_ip pf @ '' --dport '' @ itoa (pr_vm_port r) @ '' -j ACCEPT'' @ nl"

definition script_head :: string where
  "script_head =
     ''#!/bin/sh'' @ nl @ ''# nkt: '' @ utf8 [0xD0, 0xBF, 0xD1, 0x80, 0xD0, 0xBE, 0xD0, 0xB1, 0xD1, 0x80, 0xD0, 0xBE, 0xD1, 0x81, 0xD1, 0x8B, 0x20, 0xD0, 0xBF, 0xD0, 0xBE, 0xD1, 0x80, 0xD1, 0x82, 0xD0, 0xBE, 0xD0, 0xB2, 0x20, 0xD0, 0xB2, 0x20, 0xD0, 0xB2, 0xD0, 0xB8, 0xD1, 0x80, 0xD1, 0x82, 0xD1, 0x83, 0xD0, 0xB0, 0xD0, 0xBB, 0xD1, 0x8C, 0xD0, 0xBD, 0xD1, 0x8B, 0xD0, 0xB5, 0x20, 0xD0, 0xBC, 0xD0, 0xB0, 0xD1, 0x88, 0xD0, 0xB8, 0xD0, 0xBD, 0xD1, 0x8B] @ ''; '' @ utf8 [0xD0, 0xB3, 0xD0, 0xB5, 0xD0, 0xBD, 0xD0, 0xB5, 0xD1, 0x80, 0xD0, 0xB8, 0xD1, 0x80, 0xD1, 0x83, 0xD0, 0xB5, 0xD1, 0x82, 0xD1, 0x81, 0xD1, 0x8F, 0x20, 0xD0, 0xB0, 0xD0, 0xB2, 0xD1, 0x82, 0xD0, 0xBE, 0xD0, 0xBC, 0xD0, 0xB0, 0xD1, 0x82, 0xD0, 0xB8, 0xD1, 0x87, 0xD0, 0xB5, 0xD1, 0x81, 0xD0, 0xBA, 0xD0, 0xB8] @ ''.'' @ nl @
     ''iptables -t nat -N NKT-PF 2>/dev/null || iptables -t nat -F NKT-PF'' @ nl @
     ''iptables -t nat -C PREROUTING -j NKT-PF 2>/dev/null || iptables -t nat -I PREROUTING 1 -j NKT-PF'' @ nl @
     ''iptables -N NKT-PF 2>/dev/null || iptables -F NKT-PF'' @ nl @
     ''iptables -C FORWARD -j NKT-PF 2>/dev/null || iptables -I FORWARD 1 -j NKT-PF'' @ nl @
     ''sysctl -qw net.ipv4.ip_forward=1'' @ nl"

definition forward_script :: "port_forward list \<Rightarrow> string" where
  "forward_script fs = script_head @ concat (map (\<lambda>pf. concat (map (rule_lines pf) (all_port_rules pf))) fs)"

datatype forward_error = NoInstall | BadForwardName | BadForwardIP | NoPorts | BadPort int | ApplyFailed string

definition apply_forwards :: "forward_run \<Rightarrow> forward_host \<Rightarrow> forward_error option \<times> forward_host" where
  "apply_forwards R h =
     (if \<not> rn_list R then (Some (ApplyFailed ''list''), h)
      else if \<not> rn_script R then (Some (ApplyFailed ''script''), h)
      else
        (let h1 = h\<lparr>fh_script := forward_script (forward_list h)\<rparr> in
         if \<not> rn_unit R then (Some (ApplyFailed ''unit''), h1)
         else
           (let h2 = h1\<lparr>fh_ran := fh_script h1\<rparr> in
            if \<not> rn_exec R then (Some (ApplyFailed ''iptables''), h2) else (None, h2))))"

definition forward_set :: "forward_run \<Rightarrow> port_forward \<Rightarrow> forward_host \<Rightarrow> forward_error option \<times> forward_host" where
  "forward_set R pf h =
     (if \<not> rn_local R then (Some NoInstall, h)
      else if \<not> pf_name_ok (pf_name pf) then (Some BadForwardName, h)
      else if \<not> ipv4_text (pf_ip pf) then (Some BadForwardIP, h)
      else if all_port_rules pf = [] then (Some NoPorts, h)
      else
        (case find bad_port_rule (all_port_rules pf) of
           Some r \<Rightarrow> (Some (BadPort (pr_host_port r)), h)
         | None \<Rightarrow>
             if \<not> rn_file R then (Some (ApplyFailed ''file''), h)
             else apply_forwards R (h\<lparr>fh_files := put (pf_name pf) pf (fh_files h)\<rparr>)))"

definition forward_remove :: "forward_run \<Rightarrow> string \<Rightarrow> forward_host \<Rightarrow> forward_error option \<times> forward_host" where
  "forward_remove R name h =
     (if \<not> rn_local R then (Some NoInstall, h)
      else if \<not> pf_name_ok name then (Some BadForwardName, h)
      else if \<not> rn_rm R then (Some (ApplyFailed ''rm''), h)
      else apply_forwards R (h\<lparr>fh_files := del name (fh_files h)\<rparr>))"

section \<open>Pools and ports handed out\<close>

record port_pool =
  pp_from :: int
  pp_to :: int

record port_alloc =
  pa_host :: string
  pa_port :: int
  pa_proto :: string
  pa_vm :: string
  pa_vm_port :: int
  pa_token :: string

record ports_state =
  ps_pools :: "(string \<times> port_pool) list"
  ps_allocs :: "port_alloc list"
  ps_hosts :: "string \<Rightarrow> forward_host"

text \<open>
  What the calls of a handler answer: each list is read (a failed read is taken for an empty list),
  the fixed address the host gives the machine, whether the host is reached, its commands, whether
  the list is written.
\<close>

record ports_env =
  pe_allocs :: bool
  pe_pools :: bool
  pe_fixed :: "string option"
  pe_reach :: bool
  pe_run :: forward_run
  pe_write :: bool

definition portPoolFlyFrom :: int where "portPoolFlyFrom = 40000"
definition portPoolFlyTo :: int where "portPoolFlyTo = 41999"
definition portPoolMaxSize :: int where "portPoolMaxSize = 10000"

definition portPools :: "ports_env \<Rightarrow> ports_state \<Rightarrow> (string \<times> port_pool) list" where
  "portPools E S = (if pe_pools E then ps_pools S else [])"

definition portAllocs :: "ports_env \<Rightarrow> ports_state \<Rightarrow> port_alloc list" where
  "portAllocs E S = (if pe_allocs E then ps_allocs S else [])"

definition bad_pool :: "port_pool \<Rightarrow> bool" where
  "bad_pool p =
     (pp_from p \<noteq> 0 \<and>
      (pp_from p < 1024 \<or> pp_to p < pp_from p \<or> pp_to p > 65535 \<or> pp_to p - pp_from p \<ge> portPoolMaxSize \<or>
       pp_from p \<le> portPoolFlyTo \<and> pp_to p \<ge> portPoolFlyFrom))"

datatype port_answer =
    PoolBad | PoolSet | BadRequest int | TokenPorts int | PoolOff | PoolFull | HostFailed | WriteFailed | NotOpen int
  | ClusterBad | Opened port_alloc | Closed

definition handlePortPool :: "ports_env \<Rightarrow> string \<Rightarrow> port_pool \<Rightarrow> ports_state \<Rightarrow> port_answer \<times> ports_state" where
  "handlePortPool E name p S =
     (if bad_pool p then (PoolBad, S)
      else
        (let pools = (if pp_from p = 0 then del name (portPools E S) else put name p (portPools E S)) in
         if \<not> pe_write E then (WriteFailed, S) else (PoolSet, S\<lparr>ps_pools := pools\<rparr>)))"

definition forward_name :: "string \<Rightarrow> string" where "forward_name vm = ''vm-'' @ vm"

definition machine_rules :: "string \<Rightarrow> string \<Rightarrow> port_alloc list \<Rightarrow> port_rule list" where
  "machine_rules host vm allocs =
     map (\<lambda>a. \<lparr>pr_host_port = pa_port a, pr_vm_port = pa_vm_port a, pr_proto = pa_proto a\<rparr>)
       (filter (\<lambda>a. pa_host a = host \<and> pa_vm a = vm) allocs)"

definition applyVMPorts :: "ports_env \<Rightarrow> string \<Rightarrow> string \<Rightarrow> port_alloc list \<Rightarrow> ports_state \<Rightarrow> bool \<times> ports_state" where
  "applyVMPorts E vm host allocs S =
     (let rules = machine_rules host vm allocs; h = ps_hosts S host in
      if rules = [] then
        (if \<not> pe_reach E then (False, S)
         else (let (e, h') = forward_remove (pe_run E) (forward_name vm) h in (e = None, S\<lparr>ps_hosts := (ps_hosts S)(host := h')\<rparr>)))
      else
        (case pe_fixed E of
           None \<Rightarrow> (False, S)
         | Some ip \<Rightarrow>
             if \<not> pe_reach E then (False, S)
             else
               (let (e, h') = forward_set (pe_run E) \<lparr>pf_name = forward_name vm, pf_ip = ip, pf_ports = [], pf_rules = rules\<rparr> h in
                (e = None, S\<lparr>ps_hosts := (ps_hosts S)(host := h')\<rparr>))))"

text \<open>The first free port of the pool; zero is none (a pool starts at 1024 or later).\<close>

definition free_port :: "port_pool \<Rightarrow> string \<Rightarrow> port_alloc list \<Rightarrow> int" where
  "free_port pool host allocs =
     (case find (\<lambda>p. p \<notin> pa_port ` set (filter (\<lambda>a. pa_host a = host) allocs)) [pp_from pool..pp_to pool] of
        None \<Rightarrow> 0 | Some p \<Rightarrow> p)"

definition port_holder :: "api_token option \<Rightarrow> string" where
  "port_holder by_token = (case by_token of None \<Rightarrow> [] | Some t \<Rightarrow> if Limited t then tk_name t else [])"

text \<open>The limit that refuses one more port to a token.\<close>

definition ports_used_up :: "api_token option \<Rightarrow> port_alloc list \<Rightarrow> int option" where
  "ports_used_up by_token allocs =
     (case by_token of
        None \<Rightarrow> None
      | Some t \<Rightarrow>
          if Limited t \<and> int (length (filter (\<lambda>a. pa_token a = tk_name t) allocs)) \<ge> tl_ports (tp_limits (tk_perms t))
          then Some (tl_ports (tp_limits (tk_perms t))) else None)"

definition give_port :: "ports_env \<Rightarrow> port_alloc list \<Rightarrow> port_alloc \<Rightarrow> ports_state \<Rightarrow> port_answer \<times> ports_state" where
  "give_port E allocs a S =
     (let (good, S1) = applyVMPorts E (pa_vm a) (pa_host a) (allocs @ [a]) S in
      if \<not> good then (HostFailed, S1)
      else if \<not> pe_write E then (WriteFailed, S1)
      else (Opened a, S1\<lparr>ps_allocs := allocs @ [a]\<rparr>))"

definition handleVMPortOpen ::
  "ports_env \<Rightarrow> api_token option \<Rightarrow> string \<Rightarrow> string \<Rightarrow> int \<Rightarrow> string \<Rightarrow> ports_state \<Rightarrow> port_answer \<times> ports_state" where
  "handleVMPortOpen E by_token vm host vm_port proto_asked S =
     (let proto = (if proto_asked = [] then ''tcp'' else proto_asked) in
      if vm_port < 1 \<or> vm_port > 65535 \<or> (proto \<noteq> ''tcp'' \<and> proto \<noteq> ''udp'') then (BadRequest vm_port, S)
      else
        (let allocs = portAllocs E S in
         case ports_used_up by_token allocs of
           Some n \<Rightarrow> (TokenPorts n, S)
         | None \<Rightarrow>
             (case lookup (portPools E S) host of
                None \<Rightarrow> (PoolOff, S)
              | Some pool \<Rightarrow>
                  if pp_from pool = 0 then (PoolOff, S)
                  else
                    (let port = free_port pool host allocs in
                     if port = 0 then (PoolFull, S)
                     else
                       give_port E allocs
                         \<lparr>pa_host = host, pa_port = port, pa_proto = proto, pa_vm = vm, pa_vm_port = vm_port,
                          pa_token = port_holder by_token\<rparr> S))))"

definition handleVMPortClose :: "ports_env \<Rightarrow> string \<Rightarrow> string \<Rightarrow> int \<Rightarrow> ports_state \<Rightarrow> port_answer \<times> ports_state" where
  "handleVMPortClose E vm host port S =
     (let allocs = portAllocs E S;
          kept = filter (\<lambda>a. \<not> (pa_host a = host \<and> pa_vm a = vm \<and> pa_port a = port)) allocs in
      if length kept = length allocs then (NotOpen port, S)
      else
        (let (good, S1) = applyVMPorts E vm host kept S in
         if \<not> good then (HostFailed, S1)
         else if \<not> pe_write E then (WriteFailed, S1)
         else (Closed, S1\<lparr>ps_allocs := kept\<rparr>)))"

text \<open>Errors of the host and of the write are ignored here.\<close>

definition releaseVMPorts :: "ports_env \<Rightarrow> string \<Rightarrow> string \<Rightarrow> ports_state \<Rightarrow> ports_state" where
  "releaseVMPorts E vm host S =
     (let allocs = portAllocs E S;
          kept = filter (\<lambda>a. \<not> (pa_host a = host \<and> pa_vm a = vm)) allocs in
      if length kept = length allocs then S
      else
        (let (good, S1) = applyVMPorts E vm host kept S in
         if pe_write E then S1\<lparr>ps_allocs := kept\<rparr> else S1))"

text \<open>
  The port of the API of a cluster made by a token, and the ports of its nodes taken back. Between the
  choice of the port and its entry in the list the description is validated and the rows of the nodes
  are entered; \<open>entered\<close> says whether both succeed.
\<close>

definition reserve_cluster_port :: "ports_env \<Rightarrow> bool \<Rightarrow> api_token \<Rightarrow> string \<Rightarrow> string \<Rightarrow> ports_state \<Rightarrow> port_answer \<times> ports_state" where
  "reserve_cluster_port E entered t host first_node S =
     (case lookup (portPools E S) host of
        None \<Rightarrow> (PoolOff, S)
      | Some pool \<Rightarrow>
          if pp_from pool = 0 then (PoolOff, S)
          else
            (let port = free_port pool host (portAllocs E S);
                 a = \<lparr>pa_host = host, pa_port = port, pa_proto = ''tcp'', pa_vm = first_node, pa_vm_port = 6443, pa_token = tk_name t\<rparr> in
             if port = 0 then (PoolFull, S)
             else if \<not> entered then (ClusterBad, S)
             else if \<not> pe_write E then (WriteFailed, S)
             else (Opened a, S\<lparr>ps_allocs := portAllocs E S @ [a]\<rparr>)))"

definition release_cluster_ports :: "ports_env \<Rightarrow> string \<Rightarrow> string list \<Rightarrow> ports_state \<Rightarrow> ports_state" where
  "release_cluster_ports E host nodes S =
     (if pe_write E then S\<lparr>ps_allocs := filter (\<lambda>a. \<not> (pa_host a = host \<and> pa_vm a \<in> set nodes)) (portAllocs E S)\<rparr> else S)"

text \<open>
  The forward of the API of such a cluster on the host (cluster.go): it is set when the cluster is made
  and taken away with it, under the name of the node itself.
\<close>

record exposed =
  ex_api :: int
  ex_http :: int
  ex_https :: int

definition exposeRules :: "exposed \<Rightarrow> port_rule list" where
  "exposeRules s =
     map (\<lambda>(h, v). \<lparr>pr_host_port = h, pr_vm_port = v, pr_proto = []\<rparr>)
       (filter (\<lambda>(h, v). h > 0) [(ex_api s, 6443), (ex_http s, 80), (ex_https s, 443)])"

definition expose_cluster :: "ports_env \<Rightarrow> string \<Rightarrow> string \<Rightarrow> string \<Rightarrow> exposed \<Rightarrow> ports_state \<Rightarrow> bool \<times> ports_state" where
  "expose_cluster E host node addr s S =
     (if \<not> pe_reach E then (False, S)
      else
        (let (e, h') = forward_set (pe_run E) \<lparr>pf_name = node, pf_ip = addr, pf_ports = [], pf_rules = exposeRules s\<rparr> (ps_hosts S host) in
         (e = None, S\<lparr>ps_hosts := (ps_hosts S)(host := h')\<rparr>)))"

definition unexpose_node :: "ports_env \<Rightarrow> string \<Rightarrow> string \<Rightarrow> ports_state \<Rightarrow> ports_state" where
  "unexpose_node E host node S =
     (if pe_reach E then S\<lparr>ps_hosts := (ps_hosts S)(host := snd (forward_remove (pe_run E) node (ps_hosts S host)))\<rparr> else S)"

end
