(* ===== verification/PortTheorems.thy ===== *)
theory PortTheorems
  imports PortPool
begin

text \<open>
  What the ports of machines keep while handlers follow one another: no port of a host is given out
  twice, and the forwards that a host runs are those of the ports given out. Then the ways in which
  the second fails.
\<close>

section \<open>Runs\<close>

datatype port_op =
    SetPool string port_pool
  | OpenPort "api_token option" string string int string
  | ClosePort string string int
  | ReleaseMachine string string
  | ReserveCluster bool api_token string string
  | ReleaseCluster string "string list"
  | ExposeCluster string string string exposed
  | UnexposeNode string string

fun port_step :: "ports_env \<times> port_op \<Rightarrow> ports_state \<Rightarrow> ports_state" where
  "port_step (E, SetPool name p) S = snd (handlePortPool E name p S)"
| "port_step (E, OpenPort t vm host vport proto) S = snd (handleVMPortOpen E t vm host vport proto S)"
| "port_step (E, ClosePort vm host port) S = snd (handleVMPortClose E vm host port S)"
| "port_step (E, ReleaseMachine vm host) S = releaseVMPorts E vm host S"
| "port_step (E, ReserveCluster entered t host node) S = snd (reserve_cluster_port E entered t host node S)"
| "port_step (E, ReleaseCluster host nodes) S = release_cluster_ports E host nodes S"
| "port_step (E, ExposeCluster host node addr s) S = snd (expose_cluster E host node addr s S)"
| "port_step (E, UnexposeNode host node) S = unexpose_node E host node S"

definition fresh_hub :: "(string \<Rightarrow> forward_host) \<Rightarrow> ports_state" where
  "fresh_hub H = \<lparr>ps_pools = [], ps_allocs = [], ps_hosts = H\<rparr>"

definition port_run :: "(ports_env \<times> port_op) list \<Rightarrow> (string \<Rightarrow> forward_host) \<Rightarrow> ports_state" where
  "port_run ops H = fold port_step ops (fresh_hub H)"

section \<open>Ports are given out once\<close>

abbreviation alloc_key :: "port_alloc \<Rightarrow> string \<times> int" where
  "alloc_key a \<equiv> (pa_host a, pa_port a)"

definition port_allowed :: "int \<Rightarrow> bool" where
  "port_allowed p \<longleftrightarrow> 1024 \<le> p \<and> p \<le> 65535 \<and> \<not> (portPoolFlyFrom \<le> p \<and> p \<le> portPoolFlyTo)"

definition pools_ok :: "(string \<times> port_pool) list \<Rightarrow> bool" where
  "pools_ok m \<longleftrightarrow> (\<forall>name p. lookup m name = Some p \<longrightarrow> \<not> bad_pool p)"

definition allocs_ok :: "port_alloc list \<Rightarrow> bool" where
  "allocs_ok as \<longleftrightarrow> distinct (map alloc_key as) \<and> list_all (port_allowed \<circ> pa_port) as"

definition ports_inv :: "ports_state \<Rightarrow> bool" where
  "ports_inv S \<longleftrightarrow> pools_ok (ps_pools S) \<and> allocs_ok (ps_allocs S)"

lemma pools_ok_set: "pools_ok m \<Longrightarrow> \<not> bad_pool p \<Longrightarrow> pools_ok (put name p m)"
  by (auto simp: pools_ok_def strstore.get_set split: if_splits)

lemma pools_ok_remove: "pools_ok m \<Longrightarrow> pools_ok (del name m)"
  by (auto simp: pools_ok_def strstore.get_remove split: if_splits)

lemma pools_read: "pools_ok (ps_pools S) \<Longrightarrow> pools_ok (portPools E S)"
  by (auto simp: portPools_def pools_ok_def lookup_def)

lemma allocs_ok_filter: "allocs_ok as \<Longrightarrow> allocs_ok (filter P as)"
  by (auto simp: allocs_ok_def distinct_map_filter list_all_iff)

lemma free_port_free:
  assumes "free_port pool host as = p" "p \<noteq> 0"
  shows "p \<in> {pp_from pool..pp_to pool} \<and> (host, p) \<notin> alloc_key ` set as"
  using assms by (auto simp: free_port_def find_Some_iff split: option.splits dest: nth_mem)

lemma pool_port_allowed: "\<not> bad_pool pool \<Longrightarrow> pp_from pool \<noteq> 0 \<Longrightarrow> p \<in> {pp_from pool..pp_to pool} \<Longrightarrow> port_allowed p"
  by (auto simp: bad_pool_def port_allowed_def portPoolFlyFrom_def portPoolFlyTo_def)

lemma given_port_ok:
  assumes "pools_ok (ps_pools S)" "allocs_ok as" "lookup (portPools E S) host = Some pool" "pp_from pool \<noteq> 0"
    and "free_port pool host as \<noteq> 0" "pa_host a = host" "pa_port a = free_port pool host as"
  shows "allocs_ok (as @ [a])"
proof -
  have "\<not> bad_pool pool" using pools_read [OF assms(1)] assms(3) by (simp add: pools_ok_def)
  then have "port_allowed (pa_port a)" and "alloc_key a \<notin> alloc_key ` set as"
    using free_port_free [OF refl assms(5)] pool_port_allowed [of pool] assms(4,6,7) by auto
  then show ?thesis using assms(2) by (auto simp: allocs_ok_def)
qed

text \<open>Applying rules on a host changes neither pools nor ports given out.\<close>

lemma apply_only_hosts:
  assumes "applyVMPorts E vm host as S = (good, S1)"
  shows "ps_pools S1 = ps_pools S \<and> ps_allocs S1 = ps_allocs S"
  using assms by (auto simp: applyVMPorts_def Let_def split: option.splits prod.splits if_splits)

text \<open>A port is given only when it is free in the pool of the host.\<close>

definition port_given :: "ports_env \<Rightarrow> api_token option \<Rightarrow> string \<Rightarrow> string \<Rightarrow> ports_state \<Rightarrow> port_alloc \<Rightarrow> bool" where
  "port_given E t vm host S a \<longleftrightarrow>
     (\<exists>pool. lookup (portPools E S) host = Some pool \<and> pp_from pool \<noteq> 0 \<and>
        free_port pool host (portAllocs E S) \<noteq> 0 \<and> pa_port a = free_port pool host (portAllocs E S)) \<and>
     pa_host a = host \<and> pa_vm a = vm \<and> pa_token a = port_holder t \<and> ports_used_up t (portAllocs E S) = None"

lemma open_cases:
  assumes "handleVMPortOpen E t vm host vport proto S = (r, S')"
  obtains "S' = S" | a where "port_given E t vm host S a" "give_port E (portAllocs E S) a S = (r, S')"
proof (cases "lookup (portPools E S) host")
  case None
  then show ?thesis
    using assms that(1) by (auto simp: handleVMPortOpen_def Let_def split: if_splits option.splits)
next
  case (Some pool)
  let ?a = "\<lparr>pa_host = host, pa_port = free_port pool host (portAllocs E S), pa_proto = (if proto = [] then ''tcp'' else proto),
              pa_vm = vm, pa_vm_port = vport, pa_token = port_holder t\<rparr>"
  from assms Some have "S' = S \<or> (port_given E t vm host S ?a \<and> give_port E (portAllocs E S) ?a S = (r, S'))"
    unfolding handleVMPortOpen_def port_given_def Let_def
    by (simp only: option.case split: if_split_asm option.split_asm) simp_all
  then show ?thesis using that by blast
qed

lemma ports_inv_hosts: "ports_inv (S\<lparr>ps_hosts := H\<rparr>) = ports_inv S"
  by (simp add: ports_inv_def)

lemma port_step_inv:
  assumes "pe_allocs (fst x)" "ports_inv S"
  shows "ports_inv (port_step x S)"
proof -
  obtain E op where x: "x = (E, op)" by (cases x)
  have as: "portAllocs E S = ps_allocs S" and ok: "pools_ok (ps_pools S)" "allocs_ok (ps_allocs S)"
    using assms by (simp_all add: x portAllocs_def ports_inv_def)
  show ?thesis
  proof (cases op)
    case (SetPool name p)
    then show ?thesis
      using ok pools_read [OF ok(1), of E] by (auto simp: x handlePortPool_def ports_inv_def Let_def pools_ok_set pools_ok_remove)
  next
    case (OpenPort t vm host vport proto)
    obtain r S' where run: "handleVMPortOpen E t vm host vport proto S = (r, S')" by fastforce
    from run show ?thesis
    proof (cases rule: open_cases)
      case 1
      with run show ?thesis using assms(2) by (simp add: x OpenPort)
    next
      case (2 a)
      then have "allocs_ok (ps_allocs S @ [a])"
        using given_port_ok [OF ok, of E host _ a] by (auto simp: port_given_def as)
      with 2 run show ?thesis
        using ok by (auto simp: x OpenPort give_port_def as ports_inv_def split: prod.splits if_splits dest!: apply_only_hosts)
    qed
  next
    case (ClosePort vm host port)
    then show ?thesis
      using ok by (auto simp: x handleVMPortClose_def as Let_def ports_inv_def allocs_ok_filter split: prod.splits
          dest!: apply_only_hosts)
  next
    case (ReleaseMachine vm host)
    then show ?thesis
      using ok by (auto simp: x releaseVMPorts_def as Let_def ports_inv_def allocs_ok_filter split: prod.splits
          dest!: apply_only_hosts)
  next
    case (ReserveCluster entered t host node)
    then show ?thesis
      using ok given_port_ok [OF ok, of E host]
      by (auto simp: x reserve_cluster_port_def as Let_def ports_inv_def split: option.splits)
  next
    case (ReleaseCluster host nodes)
    then show ?thesis using ok by (simp add: x release_cluster_ports_def as ports_inv_def allocs_ok_filter)
  next
    case (ExposeCluster host node addr s)
    then show ?thesis using assms(2) by (auto simp: x expose_cluster_def ports_inv_hosts split: prod.splits)
  next
    case (UnexposeNode host node)
    then show ?thesis using assms(2) by (auto simp: x unexpose_node_def ports_inv_hosts)
  qed
qed

lemma port_run_inv:
  assumes "list_all (\<lambda>x. pe_allocs (fst x)) ops"
  shows "ports_inv (port_run ops H)"
  unfolding port_run_def
proof (rule fold_invariant)
  show "\<And>x. x \<in> set ops \<Longrightarrow> pe_allocs (fst x)" using assms by (simp add: list_all_iff)
  show "ports_inv (fresh_hub H)" by (simp add: fresh_hub_def ports_inv_def pools_ok_def allocs_ok_def lookup_def)
qed (rule port_step_inv)

text \<open>C37. Ports of hosts are given out once: whatever pools are set, and whatever ports are opened, closed, released or reserved for clusters, as long as the list of ports can be read, no port of a host is given to two machines, and every port given is an unprivileged one outside the range of the gateway.\<close>

theorem ports_never_shared:
  assumes "list_all (\<lambda>x. pe_allocs (fst x)) ops"
  shows "distinct (map alloc_key (ps_allocs (port_run ops H))) \<and> list_all (port_allowed \<circ> pa_port) (ps_allocs (port_run ops H))"
  using port_run_inv [OF assms] by (simp add: ports_inv_def allocs_ok_def)

section \<open>The ports of a token\<close>

definition held_ports :: "string \<Rightarrow> port_alloc list \<Rightarrow> nat" where
  "held_ports name as = length (filter (\<lambda>a. pa_token a = name) as)"

text \<open>Operations under which tokens of that name have at most \<open>n\<close> ports, and no cluster is made.\<close>

fun capped_op :: "string \<Rightarrow> nat \<Rightarrow> port_op \<Rightarrow> bool" where
  "capped_op name n (OpenPort (Some t) vm host vport proto) = (Limited t \<longrightarrow> tk_name t = name \<longrightarrow> tl_ports (tp_limits (tk_perms t)) \<le> int n)"
| "capped_op name n (ReserveCluster entered t host node) = (tk_name t \<noteq> name)"
| "capped_op name n op = True"

lemma held_ports_filter: "held_ports name as \<le> n \<Longrightarrow> held_ports name (filter P as) \<le> n"
  unfolding held_ports_def filter_filter [symmetric]
  by (subst filter_filter, subst conj_commute, subst filter_filter [symmetric]) (rule order_trans [OF length_filter_le])

lemma held_ports_snoc: "held_ports name (as @ [a]) = held_ports name as + (if pa_token a = name then 1 else 0)"
  by (simp add: held_ports_def)

lemma held_in_cap:
  assumes "ports_used_up t as = None" "port_holder t = name" "name \<noteq> []" "capped_op name n (OpenPort t vm host vport proto)"
  shows "held_ports name as < n"
  using assms by (auto simp: ports_used_up_def port_holder_def held_ports_def split: option.splits if_splits)

lemma port_step_capped:
  assumes "pe_allocs (fst x)" "capped_op name n (snd x)" "name \<noteq> []" "held_ports name (ps_allocs S) \<le> n"
  shows "held_ports name (ps_allocs (port_step x S)) \<le> n"
proof -
  obtain E op where x: "x = (E, op)" by (cases x)
  have as: "portAllocs E S = ps_allocs S" using assms by (simp add: x portAllocs_def)
  note facts = as held_ports_filter held_ports_snoc Let_def
  show ?thesis
  proof (cases op)
    case (OpenPort t vm host vport proto)
    obtain r S' where run: "handleVMPortOpen E t vm host vport proto S = (r, S')" by fastforce
    from run show ?thesis
    proof (cases rule: open_cases)
      case 1
      with run show ?thesis using assms(4) by (simp add: x OpenPort)
    next
      case (2 a)
      then have "held_ports name (ps_allocs S @ [a]) \<le> n"
        using held_in_cap [of t "ps_allocs S" name n vm host vport proto] assms
        by (auto simp: port_given_def facts x OpenPort)
      with 2 run show ?thesis
        using assms(4) by (auto simp: x OpenPort give_port_def as split: prod.splits if_splits dest!: apply_only_hosts)
    qed
  qed (use assms in \<open>auto simp: x handlePortPool_def handleVMPortClose_def releaseVMPorts_def reserve_cluster_port_def
      release_cluster_ports_def expose_cluster_def unexpose_node_def facts split: prod.splits option.splits dest!: apply_only_hosts\<close>)
qed

lemma token_ports_bounded:
  assumes "list_all (\<lambda>x. pe_allocs (fst x) \<and> capped_op name n (snd x)) ops" "name \<noteq> []"
  shows "held_ports name (ps_allocs (port_run ops H)) \<le> n"
  unfolding port_run_def
proof (rule fold_invariant)
  show "\<And>x. x \<in> set ops \<Longrightarrow> pe_allocs (fst x) \<and> capped_op name n (snd x)" using assms(1) by (simp add: list_all_iff)
qed (use assms(2) port_step_capped in \<open>auto simp: fresh_hub_def held_ports_def\<close>)

section \<open>Forwards follow the ports given out\<close>

text \<open>A host runs the rules of the forwards it keeps.\<close>

definition run_all :: "forward_host \<Rightarrow> forward_host" where
  "run_all h = h\<lparr>fh_script := forward_script (forward_list h), fh_ran := forward_script (forward_list h)\<rparr>"

definition rules_run :: "forward_host \<Rightarrow> bool" where
  "rules_run h \<longleftrightarrow> fh_ran h = forward_script (forward_list h)"

lemma run_all_files [simp]: "fh_files (run_all h) = fh_files h"
  by (simp add: run_all_def)

lemma rules_run_all [simp]: "rules_run (run_all h)"
  by (simp add: rules_run_def run_all_def forward_list_def)

text \<open>Once the file of a forward is changed, everything after it succeeds.\<close>

definition lasting :: "forward_run \<Rightarrow> bool" where
  "lasting R \<longleftrightarrow> rn_list R \<and> rn_script R \<and> rn_unit R \<and> rn_exec R"

lemma apply_lasting: "lasting R \<Longrightarrow> apply_forwards R h = (None, run_all h)"
  by (simp add: lasting_def apply_forwards_def run_all_def forward_list_def Let_def)

lemma forward_set_lasting:
  assumes "lasting R"
  shows "(\<exists>e. forward_set R pf h = (Some e, h)) \<or>
         (pf_name_ok (pf_name pf) \<and> forward_set R pf h = (None, run_all (h\<lparr>fh_files := put (pf_name pf) pf (fh_files h)\<rparr>)))"
  by (simp add: forward_set_def apply_lasting [OF assms] split: option.splits)

lemma forward_remove_lasting:
  assumes "lasting R"
  shows "(\<exists>e. forward_remove R n h = (Some e, h)) \<or> forward_remove R n h = (None, run_all (h\<lparr>fh_files := del n (fh_files h)\<rparr>))"
  by (simp add: forward_remove_def apply_lasting [OF assms])

lemma removed_lasting:
  "lasting R \<Longrightarrow> rn_local R \<Longrightarrow> rn_rm R \<Longrightarrow> pf_name_ok n \<Longrightarrow>
   forward_remove R n h = (None, run_all (h\<lparr>fh_files := del n (fh_files h)\<rparr>))"
  by (simp add: forward_remove_def apply_lasting)

text \<open>What a host should forward to a machine, and what it does.\<close>

definition wanted :: "string \<Rightarrow> string \<Rightarrow> port_alloc list \<Rightarrow> port_rule list option" where
  "wanted host vm as = (let rs = machine_rules host vm as in if rs = [] then None else Some rs)"

definition forwarded :: "ports_state \<Rightarrow> string \<Rightarrow> string \<Rightarrow> port_rule list option" where
  "forwarded S host name = map_option all_port_rules (lookup (fh_files (ps_hosts S host)) name)"

lemma forward_name_inj [simp]: "forward_name v = forward_name w \<longleftrightarrow> v = w"
  by (simp add: forward_name_def)

text \<open>Applying the rules of a machine: nothing happens, or its forward is the wanted one and no other changes.\<close>

lemma apply_machine:
  assumes "lasting (pe_run E)" "applyVMPorts E vm host as S = (good, S1)"
  obtains "\<not> good" "S1 = S"
  | F where "good" "S1 = S\<lparr>ps_hosts := (ps_hosts S)(host := run_all ((ps_hosts S host)\<lparr>fh_files := F\<rparr>))\<rparr>"
      "map_option all_port_rules (lookup F (forward_name vm)) = wanted host vm as"
      "\<And>n. n \<noteq> forward_name vm \<Longrightarrow> lookup F n = lookup (fh_files (ps_hosts S host)) n"
      "wanted host vm as \<noteq> None \<longrightarrow> pf_name_ok (forward_name vm)"
proof (cases "machine_rules host vm as = []")
  case True
  show ?thesis
    using forward_remove_lasting [OF assms(1), of "forward_name vm" "ps_hosts S host"] assms(2) True that
    by (auto simp: applyVMPorts_def wanted_def strstore.get_remove Let_def split: if_splits)
next
  case False
  show ?thesis
  proof (cases "pe_fixed E")
    case None
    then show ?thesis using assms(2) False that by (simp add: applyVMPorts_def Let_def)
  next
    case (Some addr)
    let ?pf = "\<lparr>pf_name = forward_name vm, pf_ip = addr, pf_ports = [], pf_rules = machine_rules host vm as\<rparr>"
    show ?thesis
      using forward_set_lasting [OF assms(1), of ?pf "ps_hosts S host"] assms(2) False Some that
      by (auto simp: applyVMPorts_def wanted_def strstore.get_set all_port_rules_def Let_def split: if_splits)
  qed
qed

text \<open>The forwards of machines are the wanted ones, all others are those the host had.\<close>

definition mirror :: "(string \<Rightarrow> forward_host) \<Rightarrow> ports_state \<Rightarrow> bool" where
  "mirror H S \<longleftrightarrow>
     (\<forall>host vm. forwarded S host (forward_name vm) = wanted host vm (ps_allocs S)) \<and>
     (\<forall>host n. (\<forall>vm. n \<noteq> forward_name vm) \<longrightarrow> lookup (fh_files (ps_hosts S host)) n = lookup (fh_files (H host)) n) \<and>
     (\<forall>host. ps_hosts S host = H host \<or> rules_run (ps_hosts S host))"

definition named_ok :: "ports_state \<Rightarrow> bool" where
  "named_ok S \<longleftrightarrow> (\<forall>host vm. wanted host vm (ps_allocs S) \<noteq> None \<longrightarrow> pf_name_ok (forward_name vm))"

abbreviation port_rel :: "(string \<Rightarrow> forward_host) \<Rightarrow> ports_state \<Rightarrow> bool" where
  "port_rel H S \<equiv> mirror H S \<and> named_ok S"

text \<open>Two lists of ports that differ only in the ports of one machine.\<close>

definition same_but :: "string \<Rightarrow> string \<Rightarrow> port_alloc list \<Rightarrow> port_alloc list \<Rightarrow> bool" where
  "same_but host vm as bs \<longleftrightarrow> (\<forall>h v. (h, v) \<noteq> (host, vm) \<longrightarrow> wanted h v as = wanted h v bs)"

lemma length_filter_eq: "\<forall>x\<in>set xs. P x \<Longrightarrow> length (filter P xs) = length xs"
  by (simp add: filter_id_conv [THEN iffD2])

lemma same_but_snoc: "pa_host a = host \<Longrightarrow> pa_vm a = vm \<Longrightarrow> same_but host vm as (as @ [a])"
  by (auto simp: same_but_def wanted_def machine_rules_def)

lemma same_but_filter:
  assumes "\<And>a. a \<in> set as \<Longrightarrow> \<not> P a \<Longrightarrow> pa_host a = host \<and> pa_vm a = vm"
  shows "same_but host vm as (filter P as)"
proof -
  have "filter (\<lambda>a. P a \<and> pa_host a = h \<and> pa_vm a = v) as = filter (\<lambda>a. pa_host a = h \<and> pa_vm a = v) as"
    if "(h, v) \<noteq> (host, vm)" for h v
    using assms that by (intro filter_cong) auto
  then show ?thesis by (auto simp: same_but_def wanted_def machine_rules_def conj_commute)
qed

lemma mirror_applied:
  assumes "port_rel H S" "lasting (pe_run E)" "applyVMPorts E vm host as S = (True, S1)" "same_but host vm (ps_allocs S) as"
  shows "port_rel H (S1\<lparr>ps_allocs := as\<rparr>)"
  using assms(2,3)
proof (cases rule: apply_machine)
  case (2 F)
  have "forwarded (S1\<lparr>ps_allocs := as\<rparr>) h (forward_name v) = wanted h v as" for h v
    using 2 assms(1,4) by (cases "(h, v) = (host, vm)") (auto simp: forwarded_def mirror_def same_but_def)
  moreover have "wanted h v as \<noteq> None \<longrightarrow> pf_name_ok (forward_name v)" for h v
  proof (cases "(h, v) = (host, vm)")
    case False
    then have "wanted h v (ps_allocs S) = wanted h v as" using assms(4) by (auto simp: same_but_def)
    then show ?thesis using assms(1) unfolding named_ok_def by metis
  qed (use 2(5) in simp)
  ultimately show ?thesis
    using 2 assms(1) by (auto simp: mirror_def named_ok_def)
qed auto

lemma applied_or_not:
  assumes "lasting (pe_run E)" "applyVMPorts E vm host as S = (False, S1)"
  shows "S1 = S"
  using assms by (cases rule: apply_machine) auto

text \<open>
  Operations whose calls succeed after the first change: of the host, of its commands and of the
  list. A release has to reach the host as well, since its errors are ignored.
\<close>

fun steady :: "ports_env \<times> port_op \<Rightarrow> bool" where
  "steady (E, op) \<longleftrightarrow> pe_allocs E \<and> pe_write E \<and> lasting (pe_run E) \<and>
     (case op of
        ReleaseMachine vm host \<Rightarrow> pe_reach E \<and> rn_local (pe_run E) \<and> rn_rm (pe_run E)
      | ReserveCluster entered t host node \<Rightarrow> False
      | ReleaseCluster host nodes \<Rightarrow> False
      | ExposeCluster host node addr s \<Rightarrow> False
      | UnexposeNode host node \<Rightarrow> False
      | _ \<Rightarrow> True)"

lemma release_applied:
  assumes "steady (E, ReleaseMachine vm host)" "port_rel H S" "wanted host vm (ps_allocs S) \<noteq> None" "wanted host vm as = None"
  shows "fst (applyVMPorts E vm host as S)"
  using assms removed_lasting [of "pe_run E" "forward_name vm" "ps_hosts S host"]
  by (auto simp: applyVMPorts_def wanted_def named_ok_def Let_def split: if_splits)

lemma port_step_mirror:
  assumes "steady x" "port_rel H S"
  shows "port_rel H (port_step x S)"
proof -
  obtain E op where x: "x = (E, op)" by (cases x)
  have as: "portAllocs E S = ps_allocs S" and E: "pe_write E" "lasting (pe_run E)"
    using assms by (simp_all add: x portAllocs_def)
  note kept = mirror_applied [OF assms(2) E(2)] applied_or_not [OF E(2)]
  show ?thesis
  proof (cases op)
    case (SetPool name p)
    then show ?thesis using assms(2) by (auto simp: x handlePortPool_def Let_def mirror_def named_ok_def forwarded_def)
  next
    case (OpenPort t vm host vport proto)
    obtain r S' where run: "handleVMPortOpen E t vm host vport proto S = (r, S')" by fastforce
    from run show ?thesis
    proof (cases rule: open_cases)
      case 1
      with run show ?thesis using assms(2) by (simp add: x OpenPort)
    next
      case (2 a)
      then have "pa_host a = host" "pa_vm a = vm" "same_but host vm (ps_allocs S) (ps_allocs S @ [a])"
        by (auto simp: port_given_def same_but_snoc)
      with 2 run kept(1) [of vm host "ps_allocs S @ [a]"] kept(2) [of vm host "ps_allocs S @ [a]"] show ?thesis
        using assms(2) E by (auto simp: x OpenPort give_port_def as split: prod.splits if_splits)
    qed
  next
    case (ClosePort vm host port)
    let ?as = "filter (\<lambda>a. \<not> (pa_host a = host \<and> pa_vm a = vm \<and> pa_port a = port)) (ps_allocs S)"
    have "same_but host vm (ps_allocs S) ?as" by (rule same_but_filter) auto
    with kept(1) [of vm host ?as] kept(2) [of vm host ?as] show ?thesis
      using assms(2) E by (auto simp: x ClosePort handleVMPortClose_def as Let_def split: prod.splits)
  next
    case (ReleaseMachine vm host)
    let ?as = "filter (\<lambda>a. \<not> (pa_host a = host \<and> pa_vm a = vm)) (ps_allocs S)"
    have same: "same_but host vm (ps_allocs S) ?as" by (rule same_but_filter) auto
    show ?thesis
    proof (cases "length ?as = length (ps_allocs S)")
      case True
      then show ?thesis using assms(2) by (simp add: x ReleaseMachine releaseVMPorts_def as Let_def)
    next
      case False
      then have "\<exists>a\<in>set (ps_allocs S). pa_host a = host \<and> pa_vm a = vm"
        by (rule contrapos_np) (rule length_filter_eq, blast)
      then have "wanted host vm (ps_allocs S) \<noteq> None"
        by (auto simp: wanted_def machine_rules_def Let_def filter_empty_conv)
      moreover have "wanted host vm ?as = None"
        by (simp add: wanted_def machine_rules_def)
      ultimately have "fst (applyVMPorts E vm host ?as S)"
        using release_applied [OF _ assms(2)] assms(1) by (simp add: x ReleaseMachine)
      then obtain S1 where "applyVMPorts E vm host ?as S = (True, S1)" by (metis (full_types) prod.collapse)
      with kept(1) [OF this same] False show ?thesis
        using E by (simp add: x ReleaseMachine releaseVMPorts_def as Let_def)
    qed
  qed (use assms(1) in \<open>simp_all add: x\<close>)
qed

text \<open>The ports of a host that are forwarded to a machine.\<close>

definition forwarded_ports :: "ports_state \<Rightarrow> string \<Rightarrow> string \<Rightarrow> int set" where
  "forwarded_ports S host vm = (case forwarded S host (forward_name vm) of None \<Rightarrow> {} | Some rs \<Rightarrow> pr_host_port ` set rs)"

lemma wanted_ports:
  "mirror H S \<Longrightarrow> forwarded_ports S host vm = pa_port ` {a \<in> set (ps_allocs S). pa_host a = host \<and> pa_vm a = vm}"
  by (auto simp: forwarded_ports_def mirror_def wanted_def machine_rules_def Let_def filter_empty_conv image_image)

lemma one_machine_per_port:
  assumes "ports_inv S" "mirror H S" "p \<in> forwarded_ports S host v" "p \<in> forwarded_ports S host w"
  shows "v = w"
proof -
  obtain a b where a: "a \<in> set (ps_allocs S)" "pa_host a = host" "pa_vm a = v" "pa_port a = p"
    and b: "b \<in> set (ps_allocs S)" "pa_host b = host" "pa_vm b = w" "pa_port b = p"
    using assms(3,4) by (auto simp: wanted_ports [OF assms(2)])
  moreover have "inj_on alloc_key (set (ps_allocs S))"
    using assms(1) by (simp add: ports_inv_def allocs_ok_def distinct_map)
  ultimately have "a = b" by (auto dest: inj_onD)
  then show ?thesis using a b by simp
qed

lemma steady_reads: "list_all steady ops \<Longrightarrow> list_all (\<lambda>x. pe_allocs (fst x)) ops"
  by (auto simp: list_all_iff)


end
