(* ===== verification/PortExamples.thy ===== *)
theory PortExamples
  imports PortTheorems
begin

text \<open>Runs at concrete inputs: witnesses, and the ways in which forwards and ports part.\<close>

definition all_run :: forward_run where
  "all_run = \<lparr>rn_local = True, rn_rm = True, rn_file = True, rn_list = True, rn_script = True, rn_unit = True, rn_exec = True\<rparr>"

definition calm :: ports_env where
  "calm = \<lparr>pe_allocs = True, pe_pools = True, pe_fixed = Some ''10.0.0.5'', pe_reach = True, pe_run = all_run, pe_write = True\<rparr>"

definition no_forwards :: "string \<Rightarrow> forward_host" where
  "no_forwards = (\<lambda>_. \<lparr>fh_files = [], fh_script = [], fh_ran = []\<rparr>)"

definition two_ports :: "ports_env \<times> port_op" where
  "two_ports = (calm, SetPool ''h'' \<lparr>pp_from = 20000, pp_to = 20001\<rparr>)"

definition open_for :: "ports_env \<Rightarrow> string \<Rightarrow> ports_env \<times> port_op" where
  "open_for E vm = (E, OpenPort None vm ''h'' 22 [])"

text \<open>A forward whose file is written, run or not.\<close>

lemma forward_set_run:
  assumes "rn_local R" "rn_file R" "rn_list R" "rn_script R" "rn_unit R"
    and "pf_name_ok (pf_name pf)" "ipv4_text (pf_ip pf)" "all_port_rules pf \<noteq> []" "list_all (\<lambda>r. \<not> bad_port_rule r) (all_port_rules pf)"
  shows "forward_set R pf h =
    (if rn_exec R then None else Some (ApplyFailed ''iptables''), run_all (h\<lparr>fh_files := put (pf_name pf) pf (fh_files h)\<rparr>))"
proof -
  have "find bad_port_rule (all_port_rules pf) = None" using assms(9) by (simp add: find_None_iff list_all_iff)
  then show ?thesis
    using assms by (simp add: forward_set_def apply_forwards_def run_all_def forward_list_def Let_def)
qed

lemma names_ok: "pf_name_ok ''vm-a''" "pf_name_ok ''vm-b''" "pf_name_ok ''a''" "ipv4_text ''10.0.0.5''"
  by code_simp+

lemma first_ports: "[20000..20001] = [20000, 20001 :: int]"
  by code_simp

lemma free_port_list:
  "free_port pool host as =
     (case find (\<lambda>p. list_all (\<lambda>a. pa_host a = host \<longrightarrow> pa_port a \<noteq> p) as) [pp_from pool..pp_to pool] of
        None \<Rightarrow> 0 | Some p \<Rightarrow> p)"
proof -
  have "(\<lambda>p. p \<notin> pa_port ` set (filter (\<lambda>a. pa_host a = host) as)) = (\<lambda>p. list_all (\<lambda>a. pa_host a = host \<longrightarrow> pa_port a \<noteq> p) as)"
    by (auto simp: list_all_iff)
  then show ?thesis by (simp only: free_port_def)
qed

lemmas run_defs = port_run_def fresh_hub_def no_forwards_def two_ports_def open_for_def calm_def all_run_def
  handlePortPool_def bad_pool_def portPoolMaxSize_def portPoolFlyTo_def portPoolFlyFrom_def portPools_def portAllocs_def
  put_def del_def lookup_def handleVMPortOpen_def ports_used_up_def port_holder_def free_port_list Let_def first_ports
  give_port_def applyVMPorts_def machine_rules_def forward_name_def forward_set_run names_ok all_port_rules_def bad_port_rule_def
  handleVMPortClose_def releaseVMPorts_def

lemma ports_never_shared_witness:
  "distinct (map alloc_key (ps_allocs (port_run [two_ports, open_for calm ''a'', open_for calm ''b''] no_forwards))) \<and>
   list_all (port_allowed \<circ> pa_port) (ps_allocs (port_run [two_ports, open_for calm ''a'', open_for calm ''b''] no_forwards)) \<and>
   map alloc_key (ps_allocs (port_run [two_ports, open_for calm ''a'', open_for calm ''b''] no_forwards)) = [(''h'', 20000), (''h'', 20001)]"
  using ports_never_shared [of "[two_ports, open_for calm ''a'', open_for calm ''b'']" no_forwards]
  by (simp add: run_defs)


section \<open>Two machines on one port\<close>

definition forwards_port :: "ports_state \<Rightarrow> string \<Rightarrow> string \<Rightarrow> int \<Rightarrow> bool" where
  "forwards_port S host name p \<longleftrightarrow> (case forwarded S host name of None \<Rightarrow> False | Some rs \<Rightarrow> list_ex (\<lambda>r. pr_host_port r = p) rs)"

definition holders :: "ports_state \<Rightarrow> int \<Rightarrow> string list" where
  "holders S p = map pa_vm (filter (\<lambda>a. pa_port a = p) (ps_allocs S))"

lemmas twice_defs = run_defs forwards_port_def forwarded_def holders_def lasting_def removed_lasting
  reserve_cluster_port_def release_cluster_ports_def expose_cluster_def unexpose_node_def exposeRules_def

text \<open>
  The file of a forward is written before the rules are run. When running fails, the hub does not
  count the port as given, and the next machine gets it too, while the file of the first stays.
\<close>

lemma failed_forward_left_behind:
  "holders (port_run [two_ports, open_for (calm\<lparr>pe_run := all_run\<lparr>rn_exec := False\<rparr>\<rparr>) ''a'', open_for calm ''b''] no_forwards) 20000 = [''b''] \<and>
   forwards_port (port_run [two_ports, open_for (calm\<lparr>pe_run := all_run\<lparr>rn_exec := False\<rparr>\<rparr>) ''a'', open_for calm ''b''] no_forwards) ''h'' ''vm-a'' 20000 \<and>
   forwards_port (port_run [two_ports, open_for (calm\<lparr>pe_run := all_run\<lparr>rn_exec := False\<rparr>\<rparr>) ''a'', open_for calm ''b''] no_forwards) ''h'' ''vm-b'' 20000"
  by (simp add: twice_defs)

text \<open>A release that does not reach the host forgets the ports all the same.\<close>

lemma released_port_still_forwarded:
  "holders (port_run [two_ports, open_for calm ''a'', (calm\<lparr>pe_reach := False\<rparr>, ReleaseMachine ''a'' ''h''), open_for calm ''b''] no_forwards) 20000 = [''b''] \<and>
   forwards_port (port_run [two_ports, open_for calm ''a'', (calm\<lparr>pe_reach := False\<rparr>, ReleaseMachine ''a'' ''h''), open_for calm ''b''] no_forwards) ''h'' ''vm-a'' 20000 \<and>
   forwards_port (port_run [two_ports, open_for calm ''a'', (calm\<lparr>pe_reach := False\<rparr>, ReleaseMachine ''a'' ''h''), open_for calm ''b''] no_forwards) ''h'' ''vm-b'' 20000"
  by (simp add: twice_defs)

text \<open>
  The port of the API of a cluster is forwarded under the name of the node; closing it as a port of
  that machine removes the forward of the other name, and frees the port.
\<close>

definition closed_api :: "api_token \<Rightarrow> (ports_env \<times> port_op) list" where
  "closed_api t =
     [two_ports, (calm, ReserveCluster True t ''h'' ''a''),
      (calm, ExposeCluster ''h'' ''a'' ''10.0.0.5'' \<lparr>ex_api = 20000, ex_http = 0, ex_https = 0\<rparr>),
      (calm, ClosePort ''a'' ''h'' 20000), open_for calm ''b'']"

lemma closed_api_port_given_again:
  "holders (port_run (closed_api t) no_forwards) 20000 = [''b''] \<and>
   forwards_port (port_run (closed_api t) no_forwards) ''h'' ''a'' 20000 \<and>
   forwards_port (port_run (closed_api t) no_forwards) ''h'' ''vm-b'' 20000"
  by (simp add: twice_defs closed_api_def)

text \<open>Deleting a cluster frees the ports of its nodes and leaves the forward that a port of a node has.\<close>

definition deleted_cluster :: "api_token \<Rightarrow> (ports_env \<times> port_op) list" where
  "deleted_cluster t =
     [two_ports, (calm, ReserveCluster True t ''h'' ''a''),
      (calm, ExposeCluster ''h'' ''a'' ''10.0.0.5'' \<lparr>ex_api = 20000, ex_http = 0, ex_https = 0\<rparr>),
      open_for calm ''a'', (calm, UnexposeNode ''h'' ''a''), (calm, ReleaseCluster ''h'' [''a'']), open_for calm ''b'']"

lemma deleted_cluster_still_forwards:
  "holders (port_run (deleted_cluster t) no_forwards) 20000 = [''b''] \<and>
   forwards_port (port_run (deleted_cluster t) no_forwards) ''h'' ''vm-a'' 20000 \<and>
   forwards_port (port_run (deleted_cluster t) no_forwards) ''h'' ''vm-b'' 20000"
  by (simp add: twice_defs deleted_cluster_def)

text \<open>A list of ports that cannot be read counts as empty, and is written over the one there is.\<close>

lemma unread_ports_lost:
  "holders (port_run [two_ports, open_for calm ''a'', open_for (calm\<lparr>pe_allocs := False\<rparr>) ''b''] no_forwards) 20000 = [''b''] \<and>
   forwards_port (port_run [two_ports, open_for calm ''a'', open_for (calm\<lparr>pe_allocs := False\<rparr>) ''b''] no_forwards) ''h'' ''vm-a'' 20000 \<and>
   forwards_port (port_run [two_ports, open_for calm ''a'', open_for (calm\<lparr>pe_allocs := False\<rparr>) ''b''] no_forwards) ''h'' ''vm-b'' 20000"
  by (simp add: twice_defs)

text \<open>
  The name of a forward is the name of the machine after three more characters and has 64 at most; a
  machine whose name has 62 or 63, which is allowed, never gets a port.
\<close>

lemma long_names_get_no_port:
  assumes "length vm > 61" "handleVMPortOpen E t vm host vport proto S = (r, S')"
  shows "r \<noteq> Opened a"
proof
  assume "r = Opened a"
  moreover have "\<not> pf_name_ok (forward_name vm)" using assms(1) by (simp add: pf_name_ok_def forward_name_def)
  ultimately show False
    using assms(2)
    by (auto simp: handleVMPortOpen_def give_port_def applyVMPorts_def machine_rules_def forward_set_def Let_def
        split: option.splits if_splits prod.splits)
qed

end
