(* ===== verification/Spec2Isabelle.thy ===== *)
theory Spec2Isabelle
  imports FlyExamples FlyRender FlyKernel DiffLCS JobExamples ComposeBound TopoExamples
    AuthTheorems OneTimeTheorems StateDiffTheorems QuotaTheorems PortExamples
begin

text \<open>
  NetKnownsThat (\<open>nkt\<close>) is one Go program that observes and changes Linux servers. On a host it
  collects a picture of the system (\<open>internal/collect\<close>, \<open>internal/parse\<close> into \<open>internal/model\<close>),
  finds problems in it (\<open>internal/analyze\<close>), draws a map of it (\<open>internal/topology\<close>), tells what
  changed (\<open>internal/statediff\<close>) and carries out actions as background jobs (\<open>internal/jobs\<close>,
  \<open>internal/control\<close>). As a hub (\<open>internal/hub\<close>) it manages many hosts: it deploys compose stacks
  (\<open>internal/deploy\<close>), creates machines and accounts for them, serves ingress traffic through a
  gateway (\<open>internal/fly\<close>, run by \<open>cmd/nkt-edge\<close>) and opens an API to tokens with limited rights
  (\<open>internal/hub/apitokens.go\<close>, \<open>tokenlimits.go\<close>). Users log in through \<open>internal/auth\<close>.

  THEORIES. Every group of definitions follows one source file, in its order; the names are those
  of the source where the logic allows it.

  Ground. \<open>NktPrelude\<close>: maps as association lists, the interfaces \<open>keyed_store\<close> and
  \<open>step_system\<close>, 64-bit wrap-around. \<open>GoStrings\<close>, \<open>GoNet\<close>, \<open>GoNetFacts\<close>, \<open>GoFloat\<close>: what the code uses
  of strings, strconv, net/netip and floats. A Go string is a list of bytes, a slice a list, a map an
  association list with distinct keys or a function to \<open>option\<close>, an error return the left side of a
  sum or \<open>None\<close>, a panic \<open>None\<close> or a flag (each theory says which). Integers are wrapped
  (\<open>wrap64\<close>) where the code can overflow, words of their width in \<open>GoNet\<close>, \<open>FlyRouter\<close> and
  \<open>FlyRender\<close>, unbounded otherwise.

  Gateway. \<open>FlyConfig\<close>, \<open>FlyValidate\<close> (config.go: types, both validations, shown to accept exactly the
  configurations without clashes); \<open>FlyPeek\<close> (peek.go: the name at the start of a TLS or HTTP
  connection, the PROXY header); \<open>FlyRouter\<close>, \<open>FlyRouting\<close>, \<open>FlyBalance\<close> (router.go: checks, best
  route, balancing, Apply); \<open>FlyAdmit\<close> (router.go and tls.go: \<open>admit\<close>, \<open>handle\<close>, \<open>serveTLS\<close> and
  \<open>serveRedirect\<close>); \<open>FlyRuntime\<close>, \<open>FlyExamples\<close> (what Apply keeps; the step relation of many connections
  at once, passed on or decrypted, and its invariant: counters are the open connections, limits
  hold up to the handlers not counted yet); \<open>FlyRender\<close>, \<open>FlyKernel\<close> (render.go, rules_unit.go,
  kernel.go: WireGuard and nftables files byte for byte, conntrack summaries). The validated
  configuration is what the router and the rendered files rely on, and for port routes the map in
  the rendered rule is the choice of the router (\<open>kernel_map_matches_router\<close>).

  Jobs. \<open>JobManager\<close> (jobs.go, store/jobs.go: one function per lock section, per write of a row and
  per notification), \<open>JobSafety\<close> (the step relation and the shape of the queues), \<open>JobTheorems\<close>,
  \<open>JobExamples\<close>: one running job per queue, first in first out, every waiting job gets its turn, one
  outcome, no operation on a closed channel, under every interleaving. A goroutine passes through
  the phases of \<open>phase\<close>; \<open>phase_rank\<close> counts the steps it has left, ten at most.

  Deployments. \<open>ComposeYaml\<close>, \<open>ComposeLimits\<close> (deploy/tokenlimits.go: what a stack of a token may not
  ask for and what it takes), \<open>ComposePorts\<close>, \<open>ComposeBound\<close> (compose_bind.go,
  compose_ports_conflict.go, parts of compose.go). YAML trees are those of the library; its reader
  and printer are parameters. \<open>DiffLCS\<close> (control/diff.go): shortest edit scripts and hunks that patch.

  Analysis. \<open>HostModel\<close> (model.go: the snapshot), \<open>AnaIndex\<close>, \<open>AnaRules\<close>, \<open>AnaMore\<close>, \<open>AnaK8s\<close>
  (analyze.go, k8s.go: every rule with its finding, and \<open>Run\<close>), \<open>AnaFacts\<close>, \<open>AnaTheorems\<close>; \<open>TopoBuild\<close>,
  \<open>TopoGraph\<close> (topology.go, k8s.go: the builder and every step of \<open>Build\<close>), \<open>TopoFacts\<close>, \<open>TopoSteps\<close>,
  \<open>TopoTheorems\<close>, \<open>TopoExamples\<close>; \<open>StateDiff\<close>, \<open>StateDiffTheorems\<close> (statediff.go). The map is built from
  the snapshot and the findings of \<open>Run\<close> on it; what the analyzer reports undeclared is a node of the
  map (\<open>undeclared_listener_on_map\<close>).

  Secrets, tokens, ports. \<open>AuthLimit\<close>, \<open>AuthTheorems\<close> (auth: attempts.go, Login, LoginSystem; the token
  line of internal/tunnel); \<open>OneTime\<close>, \<open>OneTimeFacts\<close>, \<open>OneTimeTheorems\<close> (hub/onetime.go with an
  explicit heap of byte slices); \<open>TokenModel\<close> (store/apitokens.go, tokenusage.go, the table of routes),
  \<open>TokenPolicy\<close> (tokenPolicy, scope, objects, rate); \<open>TokenQuota\<close>, \<open>QuotaTheorems\<close> (tokenlimits.go,
  tokenusage.go, the rows written by machines, instances, stacks and snapshots). The rows that
  \<open>TokenQuota\<close> writes decide in \<open>TokenPolicy\<close> which machines a token owns. \<open>PortPool\<close>, \<open>PortTheorems\<close>,
  \<open>PortExamples\<close> (hub/vmports.go, the ports in vmcluster.go, control/portforward.go): no port of a host
  is given twice, and the forwards of the host follow the ports given while its calls succeed.

  INTERFACES. \<open>keyed_store\<close> (maps), \<open>step_system\<close> (invariants of step relations: connections, queues,
  subscriber channels), \<open>keyed_order\<close> (a sort that sees its elements by a key: findings, nodes,
  references, changes). Each is interpreted on the model's own definitions.

  BOUNDS AND FUEL. No definition takes fuel: every recursion is total. A waiting job is started
  within ten steps of its queue for each job ahead and ten more (\<open>no_job_forgotten\<close>). The sums of the
  accounting are 64-bit; the theorem on them asks for rows of at most \<open>2 ^ 40\<close> each and at most
  \<open>2 ^ 20\<close> of them.

  ATOMICITY. Concurrent code is a step relation whose steps are the lock sections, the writes of
  rows and the notifications of the code. Coarser are: \<open>pick\<close>, whose filter of live targets is one
  step (the code locks once for every target); the counters of a connection, which are atomics
  without a common lock and change together; \<open>Recover\<close>, during which the goroutines it starts do
  not run.

  PARAMETERS. What is not under \<open>src/\<close> comes in as an argument: the tables of Unicode case, YAML,
  RFC 3339 times and formats of dates, hashes and random tokens, the handshake of TLS, the handler
  of the ACME library, the answers of the database, of hosts and of helpers (\<open>run_env\<close>, \<open>topo_env\<close>,
  \<open>login_env\<close>, \<open>system_env\<close>, \<open>hub_db\<close>, \<open>host_report\<close>), the order in which a Go map is ranged over,
  and the readings of the clock.

  WHAT MODELLING SHOWED. Lemmas at the end of the theories show where the code does not do what it
  means to: among them a limit of connections passed by connections that arrive together
  (\<open>max_conns_exceeded\<close>), a cancelled job that stops its successor (\<open>cancel_hits_successor\<close>), a machine
  of one token claimed by another (\<open>foreign_machine_claimed\<close>), ceilings passed by overlapping
  deployments (\<open>overlapping_stacks_exceed\<close>) or by machines still waiting to be made
  (\<open>waiting_machine_freed\<close>), a port of a host forwarded to two machines (\<open>failed_forward_left_behind\<close>,
  \<open>closed_api_port_given_again\<close>), and limiters that do not limit (\<open>tunnel_never_refuses\<close>,
  \<open>in_flight_not_limited\<close>).

  NOT MODELLED. HTTP handlers of hosts and of the rest of the hub, the authentication of requests of
  tokens, the language of scenarios (\<open>internal/script\<close>), descriptions of services
  (\<open>internal/svcdesc\<close>), networks of machines (\<open>internal/vmnet\<close>), the message catalogs, user interfaces,
  the tables of the database other than jobs, tokens and accounting, collection and the parsers of
  program outputs, execution of programs on hosts, clusters, certificates, monitoring and the bot.
  Of the modelled files, log lines, audit rows and texts for people are left out; floating-point
  rounding is not modelled (token buckets, loads and CPU shares are exact); the database does not
  fail in \<open>JobManager\<close>.
\<close>

end
